(* ===== verification/Prelude.thy ===== *)
theory Prelude
  imports Main "HOL-Library.AList" "HOL-Library.List_Lexorder" "HOL-Library.Char_ord"
begin

text \<open>
  Shared vocabulary of the development.

  Go strings are byte sequences, so the model uses \<open>string\<close> (a list of 8-bit
  characters) throughout. A Go map is an association list with distinct keys: its order
  stands for the order in which one run of the program iterates over the map, which Go
  leaves unspecified, and every theorem quantifies over that order.
  Go errors are values: a call that may fail returns an option (\<open>None\<close> for a nil error)
  or a sum (\<open>Inl\<close> for the error).

  The named collections below are the simp sets the component theories share:
  \<open>go_str\<close> for string primitives, \<open>go_map\<close> for map primitives.
\<close>

named_theorems go_str "characterisations of the string primitives"
named_theorems go_map "characterisations of the map primitives"

type_synonym ('k, 'v) gomap = "('k \<times> 'v) list"

abbreviation map_get :: "('k, 'v) gomap \<Rightarrow> 'k \<Rightarrow> 'v option" where
  "map_get \<equiv> map_of"

abbreviation map_put :: "'k \<Rightarrow> 'v \<Rightarrow> ('k, 'v) gomap \<Rightarrow> ('k, 'v) gomap" where
  "map_put \<equiv> AList.update"

abbreviation map_del :: "'k \<Rightarrow> ('k, 'v) gomap \<Rightarrow> ('k, 'v) gomap" where
  "map_del \<equiv> AList.delete"

abbreviation map_keys :: "('k, 'v) gomap \<Rightarrow> 'k list" where
  "map_keys m \<equiv> map fst m"

definition go_map_ok :: "('k, 'v) gomap \<Rightarrow> bool" where
  "go_map_ok m \<longleftrightarrow> distinct (map_keys m)"

lemma map_get_put [go_map, simp]: "map_get (map_put k v m) k' = (if k' = k then Some v else map_get m k')"
  by (simp add: AList.update_conv)

lemma map_get_del [go_map, simp]: "map_get (map_del k m) k' = (if k' = k then None else map_get m k')"
  by (simp add: AList.delete_conv)

lemma map_keys_put: "set (map_keys (map_put k v m)) = insert k (set (map_keys m))"
  by (simp add: AList.dom_update)

lemma map_keys_del: "set (map_keys (map_del k m)) = set (map_keys m) - {k}"
  by (simp add: AList.delete_keys)

lemma go_map_ok_Nil [simp]: "go_map_ok []"
  by (simp add: go_map_ok_def)

lemma go_map_ok_put [intro]: "go_map_ok m \<Longrightarrow> go_map_ok (map_put k v m)"
  by (simp add: go_map_ok_def AList.distinct_update)

lemma go_map_ok_del [intro]: "go_map_ok m \<Longrightarrow> go_map_ok (map_del k m)"
  by (simp add: go_map_ok_def AList.distinct_delete)

lemma map_get_eq_iff: "go_map_ok m \<Longrightarrow> map_get m k = Some v \<longleftrightarrow> (k, v) \<in> set m"
  by (simp add: go_map_ok_def)

lemma map_get_None_iff: "map_get m k = None \<longleftrightarrow> k \<notin> set (map_keys m)"
  by (simp add: map_of_eq_None_iff)

lemma map_del_entries: "set (map_del k m) = {p \<in> set m. fst p \<noteq> k}"
  by (auto simp: AList.delete_eq)

lemma map_put_entries:
  "go_map_ok m \<Longrightarrow> set (map_put k v m) = insert (k, v) {p \<in> set m. fst p \<noteq> k}"
proof -
  assume ok: "go_map_ok m"
  have ok': "go_map_ok (map_put k v m)" using ok by auto
  have "(a, b) \<in> set (map_put k v m) \<longleftrightarrow> (a, b) \<in> insert (k, v) {p \<in> set m. fst p \<noteq> k}" for a b
    using map_get_eq_iff [OF ok', of a b] map_get_eq_iff [OF ok, of a b] by (auto split: if_splits)
  then show ?thesis by (auto simp: set_eq_iff)
qed

text \<open>Two association lists that are the same map in different iteration orders.\<close>

lemma map_get_cong_set: "go_map_ok m \<Longrightarrow> go_map_ok m' \<Longrightarrow> set m = set m' \<Longrightarrow> map_get m = map_get m'"
  by (metis go_map_ok_def map_of_inject_set)

subsection \<open>Lists\<close>

lemma find_None_iff_list_ex: "find P xs = None \<longleftrightarrow> \<not> list_ex P xs"
  by (auto simp: find_None_iff list_ex_iff)

lemma find_SomeD: "find P xs = Some x \<Longrightarrow> P x \<and> x \<in> set xs"
  by (auto simp: find_Some_iff)

lemma takeWhile_dropWhile_hit:
  "c \<in> set s \<Longrightarrow> s = takeWhile (\<lambda>x. x \<noteq> c) s @ c # tl (dropWhile (\<lambda>x. x \<noteq> c) s)"
  by (induction s) auto

lemma takeWhile_notin: "c \<notin> set (takeWhile (\<lambda>x. x \<noteq> c) s)"
  by (induction s) auto

lemma split_unique_first:
  "x1 @ c # y1 = x2 @ c # y2 \<Longrightarrow> c \<notin> set x1 \<Longrightarrow> c \<notin> set x2 \<Longrightarrow> x1 = x2 \<and> y1 = y2"
proof (induction x1 arbitrary: x2)
  case Nil
  then show ?case by (cases x2) auto
next
  case (Cons a x1)
  then show ?case by (cases x2) auto
qed

text \<open>Running a fallible check over a list in order: the first error wins.\<close>

fun first_error :: "('a \<Rightarrow> 'e option) \<Rightarrow> 'a list \<Rightarrow> 'e option" where
  "first_error f [] = None"
| "first_error f (x # xs) = (case f x of Some e \<Rightarrow> Some e | None \<Rightarrow> first_error f xs)"

lemma first_error_None_iff: "first_error f xs = None \<longleftrightarrow> (\<forall>x \<in> set xs. f x = None)"
  by (induction xs) (auto split: option.splits)

lemma first_error_SomeD: "first_error f xs = Some e \<Longrightarrow> \<exists>x \<in> set xs. f x = Some e"
  by (induction xs) (auto split: option.splits)

end
