(* ===== verification/Go_Strings.thy ===== *)
theory Go_Strings
  imports Prelude
begin

text \<open>
  The parts of Go's \<open>strings\<close>, \<open>path\<close>, \<open>strconv\<close> and \<open>net\<close> packages that the program calls,
  on byte strings, with the lemmas the components use.

  \<open>strings.ToLower\<close> is exact on ASCII strings. On a string with a non-ASCII byte it folds
  Unicode case (and replaces invalid UTF-8); that table is left unspecified
  (\<open>unicode_lower\<close>), so a theorem that mentions \<open>to_lower\<close> holds whatever the table is.
  \<open>strings.TrimSpace\<close> is exact, the multi-byte White_Space code points included.
\<close>

subsection \<open>Prefixes, suffixes and substrings\<close>

definition has_prefix :: "string \<Rightarrow> string \<Rightarrow> bool" where
  "has_prefix s p \<longleftrightarrow> take (length p) s = p"

definition has_suffix :: "string \<Rightarrow> string \<Rightarrow> bool" where
  "has_suffix s p \<longleftrightarrow> length p \<le> length s \<and> drop (length s - length p) s = p"

definition cut_prefix :: "string \<Rightarrow> string \<Rightarrow> string option" where
  "cut_prefix s p = (if has_prefix s p then Some (drop (length p) s) else None)"

definition cut_suffix :: "string \<Rightarrow> string \<Rightarrow> string option" where
  "cut_suffix s p = (if has_suffix s p then Some (take (length s - length p) s) else None)"

definition trim_prefix :: "string \<Rightarrow> string \<Rightarrow> string" where
  "trim_prefix s p = (case cut_prefix s p of Some r \<Rightarrow> r | None \<Rightarrow> s)"

definition trim_suffix :: "string \<Rightarrow> string \<Rightarrow> string" where
  "trim_suffix s p = (case cut_suffix s p of Some r \<Rightarrow> r | None \<Rightarrow> s)"

lemma has_prefix_iff [go_str]: "has_prefix s p \<longleftrightarrow> (\<exists>r. s = p @ r)"
  by (metis append_eq_conv_conj has_prefix_def)

lemma has_suffix_iff [go_str]: "has_suffix s p \<longleftrightarrow> (\<exists>r. s = r @ p)"
proof
  assume "has_suffix s p"
  then have "s = take (length s - length p) s @ p"
    by (metis append_take_drop_id has_suffix_def)
  then show "\<exists>r. s = r @ p" by blast
qed (auto simp: has_suffix_def)

lemma has_prefix_append [simp]: "has_prefix (p @ r) p"
  by (simp add: has_prefix_def)

lemma has_prefix_Nil [simp]: "has_prefix s []"
  by (simp add: has_prefix_def)

lemma has_prefix_Cons [simp]: "has_prefix (c # s) (d # p) \<longleftrightarrow> c = d \<and> has_prefix s p"
  by (auto simp: has_prefix_def)

lemma has_prefix_empty [simp]: "has_prefix [] p \<longleftrightarrow> p = []"
  by (auto simp: has_prefix_def)

lemma has_prefix_trans: "has_prefix s p \<Longrightarrow> has_prefix p q \<Longrightarrow> has_prefix s q"
  by (auto simp: has_prefix_iff)

lemma has_prefix_refl [simp]: "has_prefix s s"
  by (simp add: has_prefix_def)

lemma has_suffix_append [simp]: "has_suffix (r @ p) p"
  by (auto simp: has_suffix_iff)

lemma cut_prefix_Some_iff [go_str]: "cut_prefix s p = Some r \<longleftrightarrow> s = p @ r"
  by (auto simp: cut_prefix_def has_prefix_iff)

lemma cut_suffix_Some_iff [go_str]: "cut_suffix s p = Some r \<longleftrightarrow> s = r @ p"
  by (auto simp: cut_suffix_def has_suffix_iff)

lemma cut_suffix_append [simp]: "cut_suffix (r @ p) p = Some r"
  by (simp add: cut_suffix_Some_iff)

lemma cut_suffix_None_iff: "cut_suffix s p = None \<longleftrightarrow> \<not> has_suffix s p"
  by (simp add: cut_suffix_def)

lemma trim_suffix_append [simp]: "trim_suffix (r @ p) p = r"
  by (simp add: trim_suffix_def)

lemma trim_prefix_append [simp]: "trim_prefix (p @ r) p = r"
  by (simp add: trim_prefix_def cut_prefix_def)

text \<open>\<open>strings.Index\<close>, \<open>strings.Contains\<close>, \<open>strings.Cut\<close> at one byte, \<open>strings.Split\<close>, \<open>strings.Join\<close>.\<close>

fun str_index :: "string \<Rightarrow> string \<Rightarrow> nat option" where
  "str_index [] p = (if p = [] then Some 0 else None)"
| "str_index (c # s) p = (if has_prefix (c # s) p then Some 0 else map_option Suc (str_index s p))"

definition str_contains :: "string \<Rightarrow> string \<Rightarrow> bool" where
  "str_contains s p \<longleftrightarrow> str_index s p \<noteq> None"

definition contains_any :: "string \<Rightarrow> string \<Rightarrow> bool" where
  "contains_any s cs \<longleftrightarrow> list_ex (\<lambda>c. c \<in> set cs) s"

definition index_byte :: "char \<Rightarrow> string \<Rightarrow> nat option" where
  "index_byte c s = (if c \<in> set s then Some (length (takeWhile (\<lambda>x. x \<noteq> c) s)) else None)"

definition last_index_byte :: "char \<Rightarrow> string \<Rightarrow> nat option" where
  "last_index_byte c s = map_option (\<lambda>k. length s - 1 - k) (index_byte c (rev s))"

definition cut_byte :: "char \<Rightarrow> string \<Rightarrow> (string \<times> string) option" where
  "cut_byte c s = (if c \<in> set s
     then Some (takeWhile (\<lambda>x. x \<noteq> c) s, tl (dropWhile (\<lambda>x. x \<noteq> c) s)) else None)"

fun split_on :: "char \<Rightarrow> string \<Rightarrow> string list" where
  "split_on c [] = [[]]"
| "split_on c (x # xs) = (if x = c then [] # split_on c xs
     else (case split_on c xs of [] \<Rightarrow> [[x]] | w # ws \<Rightarrow> (x # w) # ws))"

fun str_join :: "string \<Rightarrow> string list \<Rightarrow> string" where
  "str_join sep [] = []"
| "str_join sep [x] = x"
| "str_join sep (x # y # ys) = x @ sep @ str_join sep (y # ys)"

lemma str_index_Some_iff:
  "str_index s p = Some i \<longleftrightarrow>
     (i \<le> length s \<and> has_prefix (drop i s) p \<and> (\<forall>j < i. \<not> has_prefix (drop j s) p))"
proof (induction s arbitrary: i)
  case (Cons c s)
  show ?case
  proof (cases i)
    case (Suc k)
    have "(\<forall>j < Suc k. \<not> has_prefix (drop j (c # s)) p) \<longleftrightarrow>
        \<not> has_prefix (c # s) p \<and> (\<forall>j < k. \<not> has_prefix (drop j s) p)"
      by (simp add: All_less_Suc2)
    then show ?thesis using Cons.IH [of k] Suc by auto
  qed auto
qed auto

lemma str_contains_iff [go_str]: "str_contains s p \<longleftrightarrow> (\<exists>a b. s = a @ p @ b)"
proof (induction s)
  case Nil
  then show ?case by (auto simp: str_contains_def)
next
  case (Cons c s)
  have "str_contains (c # s) p \<longleftrightarrow> has_prefix (c # s) p \<or> str_contains s p"
    by (auto simp: str_contains_def)
  also have "\<dots> \<longleftrightarrow> (\<exists>a b. c # s = a @ p @ b)"
    unfolding Cons.IH has_prefix_iff
    by (metis append_Cons append_Nil append_eq_Cons_conv)
  finally show ?case .
qed

lemma str_contains_singleton [simp]: "str_contains s [c] \<longleftrightarrow> c \<in> set s"
  by (auto simp: str_contains_iff in_set_conv_decomp)


lemma cut_byte_Some_iff [go_str]: "cut_byte c s = Some (a, b) \<longleftrightarrow> s = a @ c # b \<and> c \<notin> set a"
proof
  assume "cut_byte c s = Some (a, b)"
  then show "s = a @ c # b \<and> c \<notin> set a"
    using takeWhile_dropWhile_hit [of c s] takeWhile_notin [of c s]
    by (auto simp: cut_byte_def split: if_splits)
next
  assume *: "s = a @ c # b \<and> c \<notin> set a"
  then have "takeWhile (\<lambda>x. x \<noteq> c) s = a" "dropWhile (\<lambda>x. x \<noteq> c) s = c # b"
    by (induction a arbitrary: s) auto
  with * show "cut_byte c s = Some (a, b)" by (simp add: cut_byte_def)
qed

lemma cut_byte_None_iff [go_str]: "cut_byte c s = None \<longleftrightarrow> c \<notin> set s"
  by (simp add: cut_byte_def)

lemma index_byte_Some_iff: "index_byte c s = Some i \<longleftrightarrow>
    (\<exists>a b. s = a @ c # b \<and> c \<notin> set a \<and> i = length a)"
proof
  assume "index_byte c s = Some i"
  then show "\<exists>a b. s = a @ c # b \<and> c \<notin> set a \<and> i = length a"
    using takeWhile_dropWhile_hit [of c s] takeWhile_notin [of c s]
    by (auto simp: index_byte_def split: if_splits)
next
  assume "\<exists>a b. s = a @ c # b \<and> c \<notin> set a \<and> i = length a"
  then obtain a b where *: "s = a @ c # b" "c \<notin> set a" "i = length a" by blast
  from *(1,2) have "takeWhile (\<lambda>x. x \<noteq> c) s = a" by (induction a arbitrary: s) auto
  with * show "index_byte c s = Some i" by (simp add: index_byte_def)
qed

lemma index_byte_None_iff [simp]: "index_byte c s = None \<longleftrightarrow> c \<notin> set s"
  by (simp add: index_byte_def)

lemma index_byte_append [simp]: "c \<notin> set a \<Longrightarrow> index_byte c (a @ c # b) = Some (length a)"
  by (auto simp: index_byte_Some_iff)

lemma last_index_byte_append [simp]: "c \<notin> set b \<Longrightarrow> last_index_byte c (a @ c # b) = Some (length a)"
  by (simp add: last_index_byte_def)

lemma last_index_byte_None_iff [simp]: "last_index_byte c s = None \<longleftrightarrow> c \<notin> set s"
  by (simp add: last_index_byte_def)

subsection \<open>Case folding and trimming\<close>

definition is_ascii :: "string \<Rightarrow> bool" where
  "is_ascii s \<longleftrightarrow> list_all (\<lambda>c. of_char c < (128 :: nat)) s"

definition is_upper_byte :: "char \<Rightarrow> bool" where
  "is_upper_byte c \<longleftrightarrow> CHR ''A'' \<le> c \<and> c \<le> CHR ''Z''"

definition is_lower_byte :: "char \<Rightarrow> bool" where
  "is_lower_byte c \<longleftrightarrow> CHR ''a'' \<le> c \<and> c \<le> CHR ''z''"

definition lower_byte :: "char \<Rightarrow> char" where
  "lower_byte c = (if is_upper_byte c then char_of (of_char c + (32 :: nat)) else c)"

definition upper_byte :: "char \<Rightarrow> char" where
  "upper_byte c = (if is_lower_byte c then char_of (of_char c - (32 :: nat)) else c)"

definition unicode_lower :: "string \<Rightarrow> string" where
  "unicode_lower = undefined"

definition to_lower :: "string \<Rightarrow> string" where
  "to_lower s = (if is_ascii s then map lower_byte s else unicode_lower s)"

text \<open>\<open>unicode.IsSpace\<close> as the UTF-8 encodings it accepts; \<open>strings.TrimSpace\<close> strips them
  from both ends.\<close>

definition space_codes :: "string list" where
  "space_codes = [[CHR 0x09], [CHR 0x0A], [CHR 0x0B], [CHR 0x0C], [CHR 0x0D], [CHR 0x20],
     [CHR 0xC2, CHR 0x85], [CHR 0xC2, CHR 0xA0], [CHR 0xE1, CHR 0x9A, CHR 0x80]] @
     map (\<lambda>b. [CHR 0xE2, CHR 0x80, b])
       [CHR 0x80, CHR 0x81, CHR 0x82, CHR 0x83, CHR 0x84, CHR 0x85, CHR 0x86, CHR 0x87, CHR 0x88,
        CHR 0x89, CHR 0x8A, CHR 0xA8, CHR 0xA9, CHR 0xAF] @
     [[CHR 0xE2, CHR 0x81, CHR 0x9F], [CHR 0xE3, CHR 0x80, CHR 0x80]]"

function strip_front :: "string list \<Rightarrow> string \<Rightarrow> string" where
  "strip_front codes s = (case find (\<lambda>w. w \<noteq> [] \<and> has_prefix s w) codes of
     None \<Rightarrow> s | Some w \<Rightarrow> strip_front codes (drop (length w) s))"
  by pat_completeness auto
termination
  by (relation "measure (\<lambda>(_, s). length s)")
    (auto dest!: find_SomeD simp: has_prefix_iff)

declare strip_front.simps [simp del]

definition trim_space :: "string \<Rightarrow> string" where
  "trim_space s = rev (strip_front (map rev space_codes) (rev (strip_front space_codes s)))"

lemma of_char_le_iff: "c \<le> d \<longleftrightarrow> (of_char c :: nat) \<le> of_char d"
  by (simp add: less_eq_char_def)

lemma lower_byte_idem [simp]: "lower_byte (lower_byte c) = lower_byte c"
  by (auto simp: lower_byte_def is_upper_byte_def of_char_le_iff)

lemma lower_byte_ascii: "of_char c < (128 :: nat) \<Longrightarrow> of_char (lower_byte c) < (128 :: nat)"
  by (auto simp: lower_byte_def is_upper_byte_def of_char_le_iff)

lemma lower_byte_eq_iff: "\<not> is_upper_byte d \<Longrightarrow> \<not> is_lower_byte d \<Longrightarrow> lower_byte c = d \<longleftrightarrow> c = d"
  by (auto simp: lower_byte_def is_upper_byte_def is_lower_byte_def of_char_le_iff)

lemma is_ascii_append [simp]: "is_ascii (a @ b) \<longleftrightarrow> is_ascii a \<and> is_ascii b"
  by (simp add: is_ascii_def)

lemma is_ascii_Nil [simp]: "is_ascii []"
  by (simp add: is_ascii_def)

lemma is_ascii_Cons [simp]: "is_ascii (c # s) \<longleftrightarrow> of_char c < (128 :: nat) \<and> is_ascii s"
  by (simp add: is_ascii_def)

lemma is_ascii_map_lower: "is_ascii s \<Longrightarrow> is_ascii (map lower_byte s)"
  by (induction s) (auto simp: lower_byte_ascii)

lemma to_lower_ascii: "is_ascii s \<Longrightarrow> to_lower s = map lower_byte s"
  by (simp add: to_lower_def)

lemma is_ascii_to_lower: "is_ascii s \<Longrightarrow> is_ascii (to_lower s)"
  by (simp add: to_lower_ascii is_ascii_map_lower)

lemma to_lower_idem: "is_ascii s \<Longrightarrow> to_lower (to_lower s) = to_lower s"
  by (simp add: to_lower_ascii is_ascii_map_lower)

lemma to_lower_append: "is_ascii a \<Longrightarrow> is_ascii b \<Longrightarrow> to_lower (a @ b) = to_lower a @ to_lower b"
  by (simp add: to_lower_ascii)

lemma to_lower_Nil [simp]: "to_lower [] = []"
  by (simp add: to_lower_ascii)

lemma to_lower_prefix: "is_ascii s \<Longrightarrow> has_prefix s p \<Longrightarrow> has_prefix (to_lower s) (to_lower p)"
  by (auto simp: has_prefix_iff to_lower_append)

subsubsection \<open>Trimming\<close>

definition is_trimmed :: "string \<Rightarrow> bool" where
  "is_trimmed s \<longleftrightarrow> list_all (\<lambda>w. \<not> has_prefix s w \<and> \<not> has_suffix s w) space_codes"

lemma strip_front_fixed:
  "(\<And>w. w \<in> set codes \<Longrightarrow> w \<noteq> [] \<Longrightarrow> \<not> has_prefix s w) \<Longrightarrow> strip_front codes s = s"
  by (subst strip_front.simps) (auto split: option.splits dest!: find_SomeD)

lemma strip_front_stripped: "w \<in> set codes \<Longrightarrow> w \<noteq> [] \<Longrightarrow> \<not> has_prefix (strip_front codes s) w"
proof (induction codes s rule: strip_front.induct)
  case (1 codes s)
  show ?case
  proof (cases "find (\<lambda>w. w \<noteq> [] \<and> has_prefix s w) codes")
    case None
    then have "strip_front codes s = s" by (subst strip_front.simps) simp
    moreover have "\<not> has_prefix s w" using None 1(2,3) by (auto simp: find_None_iff)
    ultimately show ?thesis by simp
  next
    case (Some v)
    with 1 show ?thesis by (subst strip_front.simps) simp
  qed
qed

lemma strip_front_suffix: "\<exists>p. s = p @ strip_front codes s"
proof (induction codes s rule: strip_front.induct)
  case (1 codes s)
  show ?case
  proof (cases "find (\<lambda>w. w \<noteq> [] \<and> has_prefix s w) codes")
    case None
    then show ?thesis by (subst strip_front.simps) simp
  next
    case (Some v)
    then have "s = v @ drop (length v) s"
      by (metis append_take_drop_id find_SomeD has_prefix_def)
    moreover obtain p where "drop (length v) s = p @ strip_front codes (drop (length v) s)"
      using 1 Some by blast
    ultimately show ?thesis using Some
      by (subst strip_front.simps) (metis append.assoc option.simps(5))
  qed
qed

lemma space_codes_nonempty: "w \<in> set space_codes \<Longrightarrow> w \<noteq> []"
  by (auto simp: space_codes_def)

lemma has_suffix_rev: "has_suffix s w \<longleftrightarrow> has_prefix (rev s) (rev w)"
  unfolding has_suffix_iff has_prefix_iff by (metis rev_append rev_rev_ident)

lemma trim_space_trimmed: "is_trimmed (trim_space s)"
proof -
  let ?f = "strip_front space_codes s"
  let ?g = "strip_front (map rev space_codes) (rev ?f)"
  have suf: "\<not> has_prefix ?g (rev w)" if "w \<in> set space_codes" for w
    using that space_codes_nonempty [of w] by (intro strip_front_stripped) auto
  obtain p where "rev ?f = p @ ?g" using strip_front_suffix by blast
  then have "?f = rev ?g @ rev p" by (metis rev_append rev_rev_ident)
  then have "\<not> has_prefix (rev ?g) w" if "w \<in> set space_codes" for w
    using that strip_front_stripped [of w space_codes s] space_codes_nonempty [of w]
    by (auto simp: has_prefix_iff)
  with suf show ?thesis
    by (auto simp: is_trimmed_def list_all_iff trim_space_def has_suffix_rev)
qed

lemma trim_space_fixed:
  assumes "is_trimmed s"
  shows "trim_space s = s"
proof -
  have "strip_front space_codes s = s"
    using assms by (intro strip_front_fixed) (auto simp: is_trimmed_def list_all_iff)
  moreover have "strip_front (map rev space_codes) (rev s) = rev s"
    using assms by (intro strip_front_fixed) (auto simp: is_trimmed_def list_all_iff has_suffix_rev)
  ultimately show ?thesis by (simp add: trim_space_def)
qed

lemma trim_space_idem [simp]: "trim_space (trim_space s) = trim_space s"
  by (simp add: trim_space_fixed trim_space_trimmed)

lemma is_trimmed_Nil [simp]: "is_trimmed []"
  by (auto simp: is_trimmed_def list_all_iff has_suffix_def dest: space_codes_nonempty)

lemma trim_space_Nil [simp]: "trim_space [] = []"
  by (simp add: trim_space_fixed)

lemma trim_space_infix: "\<exists>a b. s = a @ trim_space s @ b"
proof -
  let ?f = "strip_front space_codes s"
  obtain a where a: "s = a @ ?f" using strip_front_suffix by blast
  obtain p where "rev ?f = p @ strip_front (map rev space_codes) (rev ?f)"
    using strip_front_suffix by blast
  then have "?f = trim_space s @ rev p"
    by (metis rev_append rev_rev_ident trim_space_def)
  with a show ?thesis by metis
qed

lemma is_ascii_trim_space: "is_ascii s \<Longrightarrow> is_ascii (trim_space s)"
  using trim_space_infix [of s] by (metis is_ascii_append)

lemma ascii_space_code:
  "w \<in> set space_codes \<Longrightarrow> is_ascii w \<Longrightarrow> \<exists>c. w = [c] \<and> \<not> is_upper_byte c \<and> \<not> is_lower_byte c"
proof -
  assume *: "w \<in> set space_codes" "is_ascii w"
  have "list_all (\<lambda>w. is_ascii w \<longrightarrow> length w = 1 \<and> \<not> is_upper_byte (hd w) \<and> \<not> is_lower_byte (hd w)) space_codes"
    by code_simp
  with * have "length w = 1 \<and> \<not> is_upper_byte (hd w) \<and> \<not> is_lower_byte (hd w)"
    by (auto simp: list_all_iff)
  then show ?thesis by (cases w) auto
qed

lemma is_trimmed_lower:
  assumes "is_ascii s" "is_trimmed s"
  shows "is_trimmed (map lower_byte s)"
  unfolding is_trimmed_def list_all_iff
proof (intro ballI conjI notI)
  fix w assume w: "w \<in> set space_codes" and p: "has_prefix (map lower_byte s) w"
  from p assms(1) have "is_ascii w" by (metis has_prefix_iff is_ascii_append is_ascii_map_lower)
  with w obtain c where c: "w = [c]" "\<not> is_upper_byte c" "\<not> is_lower_byte c"
    using ascii_space_code by blast
  with p have "has_prefix s w" by (cases s) (auto simp: lower_byte_eq_iff)
  with w assms(2) show False by (auto simp: is_trimmed_def list_all_iff)
next
  fix w assume w: "w \<in> set space_codes" and p: "has_suffix (map lower_byte s) w"
  from p assms(1) have "is_ascii w" by (metis has_suffix_iff is_ascii_append is_ascii_map_lower)
  with w obtain c where c: "w = [c]" "\<not> is_upper_byte c" "\<not> is_lower_byte c"
    using ascii_space_code by blast
  with p have "has_suffix s w"
    by (cases s rule: rev_cases) (auto simp: lower_byte_eq_iff has_suffix_rev)
  with w assms(2) show False by (auto simp: is_trimmed_def list_all_iff)
qed

lemma trim_space_to_lower: "is_ascii s \<Longrightarrow> is_trimmed s \<Longrightarrow> trim_space (to_lower s) = to_lower s"
  by (simp add: to_lower_ascii trim_space_fixed is_trimmed_lower)

subsubsection \<open>Splitting and joining\<close>

lemma split_on_nonempty [simp]: "split_on c s \<noteq> []"
  by (induction s) (auto split: list.splits)

lemma split_on_append: "c \<notin> set w \<Longrightarrow> split_on c (w @ c # s) = w # split_on c s"
  by (induction w) (auto split: list.splits)

lemma split_on_notin: "c \<notin> set w \<Longrightarrow> split_on c w = [w]"
  by (induction w) auto

lemma split_on_elems: "w \<in> set (split_on c s) \<Longrightarrow> c \<notin> set w"
  by (induction s arbitrary: w) (auto split: list.splits if_splits)

lemma split_on_join:
  "ws \<noteq> [] \<Longrightarrow> \<forall>w \<in> set ws. c \<notin> set w \<Longrightarrow> split_on c (str_join [c] ws) = ws"
proof (induction "[c]" ws rule: str_join.induct)
  case (3 x y ys)
  then show ?case by (simp add: split_on_append)
qed (auto simp: split_on_notin)

lemma join_split_on: "str_join [c] (split_on c s) = s"
proof (induction s)
  case (Cons x s)
  then show ?case by (cases "split_on c s" rule: list.exhaust; cases "tl (split_on c s)") auto
qed simp

subsection \<open>path.Clean\<close>

text \<open>\<open>path.Clean\<close> processes the slash-separated elements with a stack: an empty element and
  \<open>.\<close> are dropped, \<open>..\<close> pops the element before it, is dropped at the root and kept at the
  start of a relative path.\<close>

definition clean_step :: "bool \<Rightarrow> string list \<Rightarrow> string \<Rightarrow> string list" where
  "clean_step rooted st w =
     (if w = '''' \<or> w = ''.'' then st
      else if w = ''..'' then
        (case st of
           [] \<Rightarrow> (if rooted then [] else [''..''])
         | t # ts \<Rightarrow> (if t = ''..'' then ''..'' # t # ts else ts))
      else w # st)"

definition clean_stack :: "bool \<Rightarrow> string \<Rightarrow> string list" where
  "clean_stack rooted p = rev (foldl (clean_step rooted) [] (split_on (CHR ''/'') p))"

definition path_clean :: "string \<Rightarrow> string" where
  "path_clean p =
     (if p = '''' then ''.''
      else let rooted = (hd p = CHR ''/''); body = str_join ''/'' (clean_stack rooted p) in
        if rooted then CHR ''/'' # body else if body = '''' then ''.'' else body)"

definition clean_elem :: "string \<Rightarrow> bool" where
  "clean_elem w \<longleftrightarrow> w \<noteq> '''' \<and> w \<noteq> ''.'' \<and> w \<noteq> ''..'' \<and> CHR ''/'' \<notin> set w"

text \<open>A rooted path without an empty, \<open>.\<close> or \<open>..\<close> element.\<close>

definition rooted_clean :: "string \<Rightarrow> bool" where
  "rooted_clean p \<longleftrightarrow> p = ''/'' \<or>
     (has_prefix p ''/'' \<and> list_all clean_elem (split_on (CHR ''/'') (tl p)))"

lemma clean_step_elems:
  assumes "list_all clean_elem st" "CHR ''/'' \<notin> set w"
  shows "list_all clean_elem (clean_step True st w)"
  using assms by (cases st) (auto simp: clean_step_def clean_elem_def)

lemma foldl_clean_elems:
  "list_all clean_elem st \<Longrightarrow> \<forall>w \<in> set ws. CHR ''/'' \<notin> set w \<Longrightarrow>
   list_all clean_elem (foldl (clean_step True) st ws)"
  by (induction ws arbitrary: st) (auto simp: clean_step_elems)

lemma clean_stack_elems: "list_all clean_elem (clean_stack True p)"
  unfolding clean_stack_def using split_on_elems [of _ "CHR ''/''" p]
  by (auto simp: list_all_iff [symmetric] list_all_rev intro!: foldl_clean_elems)

lemma rooted_clean_join: "list_all clean_elem ws \<Longrightarrow> rooted_clean (CHR ''/'' # str_join ''/'' ws)"
proof (cases "ws = []")
  case False
  assume *: "list_all clean_elem ws"
  then have "split_on (CHR ''/'') (str_join ''/'' ws) = ws"
    using False by (intro split_on_join) (auto simp: list_all_iff clean_elem_def)
  with * show ?thesis by (simp add: rooted_clean_def)
qed (simp add: rooted_clean_def)

lemma path_clean_rooted: "has_prefix p ''/'' \<Longrightarrow> rooted_clean (path_clean p)"
  by (cases p) (auto simp: path_clean_def Let_def rooted_clean_join clean_stack_elems)

lemma foldl_clean_id:
  "list_all clean_elem ws \<Longrightarrow> foldl (clean_step r) st ws = rev ws @ st"
  by (induction ws arbitrary: st) (auto simp: clean_step_def clean_elem_def)

lemma path_clean_fixed:
  assumes "rooted_clean p"
  shows "path_clean p = p"
proof (cases "p = ''/''")
  case True
  then show ?thesis by (simp add: path_clean_def clean_stack_def clean_step_def)
next
  case False
  then obtain t where p: "p = CHR ''/'' # t" and t: "list_all clean_elem (split_on (CHR ''/'') t)"
    using assms by (cases p) (auto simp: rooted_clean_def)
  have "clean_stack True p = split_on (CHR ''/'') t"
    using t by (simp add: clean_stack_def p foldl_clean_id clean_step_def)
  then show ?thesis by (simp add: path_clean_def p Let_def join_split_on)
qed

lemma path_clean_idem: "has_prefix p ''/'' \<Longrightarrow> path_clean (path_clean p) = path_clean p"
  by (simp add: path_clean_fixed path_clean_rooted)

lemma path_clean_eq_iff: "has_prefix p ''/'' \<Longrightarrow> path_clean p = p \<longleftrightarrow> rooted_clean p"
  using path_clean_fixed path_clean_rooted by metis

lemma rooted_clean_prefix: "rooted_clean p \<Longrightarrow> has_prefix p ''/''"
  by (auto simp: rooted_clean_def)

subsection \<open>Numbers and network addresses\<close>

definition digit_char :: "nat \<Rightarrow> char" where
  "digit_char d = char_of (48 + d)"

fun show_nat :: "nat \<Rightarrow> string" where
  "show_nat n = (if n < 10 then [digit_char n] else show_nat (n div 10) @ [digit_char (n mod 10)])"

declare show_nat.simps [simp del]

definition show_int :: "int \<Rightarrow> string" where
  "show_int i = (if i < 0 then CHR ''-'' # show_nat (nat (- i)) else show_nat (nat i))"

text \<open>\<open>net.SplitHostPort\<close>: the port starts after the last colon; a host with colons of its own
  must be in brackets.\<close>

definition split_host_port :: "string \<Rightarrow> (string \<times> string) option" where
  "split_host_port s =
     (case last_index_byte (CHR '':'') s of
        None \<Rightarrow> None
      | Some i \<Rightarrow>
        (let port = drop (i + 1) s in
         if hd s = CHR ''['' then
           (case index_byte (CHR '']'') s of
              None \<Rightarrow> None
            | Some e \<Rightarrow>
                if e + 1 = i \<and> CHR ''['' \<notin> set (drop 1 s) \<and> CHR '']'' \<notin> set (drop (e + 1) s)
                then Some (drop 1 (take e s), port) else None)
         else if CHR '':'' \<in> set (take i s) \<or> CHR ''['' \<in> set s \<or> CHR '']'' \<in> set s then None
         else Some (take i s, port)))"

definition plain_host :: "string \<Rightarrow> bool" where
  "plain_host h \<longleftrightarrow> CHR '':'' \<notin> set h \<and> CHR ''['' \<notin> set h \<and> CHR '']'' \<notin> set h"

lemma split_host_port_plain:
  "plain_host h \<Longrightarrow> plain_host p \<Longrightarrow> split_host_port (h @ CHR '':'' # p) = Some (h, p)"
  by (cases h) (auto simp: split_host_port_def plain_host_def last_index_byte_append [of _ _ "[]", simplified]
      last_index_byte_append [of _ _ "_ # _", simplified])

lemma split_host_port_no_colon: "CHR '':'' \<notin> set s \<Longrightarrow> split_host_port s = None"
  by (simp add: split_host_port_def iffD2 [OF last_index_byte_None_iff])

end
