(* ===== verification/Errors.thy ===== *)
theory Errors
  imports Go_Strings
begin

text \<open>
  \<open>internal/errors/errors.go\<close>: the sentinel errors (with the three of the standard library
  the program tests for: \<open>fs.ErrNotExist\<close> and the two context errors; the secrets package's
  \<open>ErrSecretNotFound\<close> is an alias of the one here), the three structured errors, the chain
  walked by Go's \<open>errors.Is\<close>, and the two functions that turn an error into what a client
  sees. \<open>Errorf\<close> is a \<open>fmt.Errorf\<close> without \<open>%w\<close>, \<open>Wrapf\<close> one with: the format string is kept
  with its arguments, the wrapped error is a component of the value.
\<close>

datatype sentinel =
    ErrSecretNotFound | ErrPermissionDenied | ErrTimeout | ErrPolicyViolation
  | ErrInvalidConfig | ErrUpstreamError
  | ErrNotExist | ErrCanceled | ErrDeadlineExceeded

datatype go_error =
    Sentinel sentinel
  | SecretError string string "go_error option"
  | PolicyError string string "go_error option"
  | ConfigError string "fmt_arg option" "go_error option"
  | Errorf string "fmt_arg list"
  | Wrapf string "fmt_arg list" go_error
and fmt_arg = Str string | Num int | Strs "string list" | Errs "go_error list"

text \<open>\<open>Unwrap\<close> and \<open>errors.Is\<close> against a sentinel: the chain is followed to its end.\<close>

fun unwrap :: "go_error \<Rightarrow> go_error option" where
  "unwrap (SecretError _ _ cause) = cause"
| "unwrap (PolicyError _ _ cause) = cause"
| "unwrap (ConfigError _ _ cause) = cause"
| "unwrap (Wrapf _ _ e) = Some e"
| "unwrap (Sentinel _) = None"
| "unwrap (Errorf _ _) = None"

fun errors_is :: "go_error \<Rightarrow> sentinel \<Rightarrow> bool" where
  "errors_is (Sentinel s) t = (s = t)"
| "errors_is (SecretError _ _ (Some e)) t = errors_is e t"
| "errors_is (PolicyError _ _ (Some e)) t = errors_is e t"
| "errors_is (ConfigError _ _ (Some e)) t = errors_is e t"
| "errors_is (Wrapf _ _ e) t = errors_is e t"
| "errors_is _ t = False"

definition http_status :: "go_error option \<Rightarrow> int" where
  "http_status err = (case err of None \<Rightarrow> 500 | Some e \<Rightarrow>
     if errors_is e ErrSecretNotFound then 502
     else if errors_is e ErrPermissionDenied then 403
     else if errors_is e ErrTimeout then 504
     else if errors_is e ErrPolicyViolation then 403
     else if errors_is e ErrInvalidConfig then 500
     else if errors_is e ErrUpstreamError then 502
     else 500)"

definition client_message :: "go_error option \<Rightarrow> string" where
  "client_message err = (case err of None \<Rightarrow> ''An unexpected error occurred'' | Some e \<Rightarrow>
     if errors_is e ErrSecretNotFound then ''Authentication service error temporarily unavailable''
     else if errors_is e ErrPermissionDenied then ''Access forbidden or denied''
     else if errors_is e ErrTimeout then ''Request timeout occurred, please try again''
     else if errors_is e ErrPolicyViolation then ''Access forbidden or denied by policy''
     else if errors_is e ErrInvalidConfig then ''Service configuration error occurred''
     else if errors_is e ErrUpstreamError then ''Upstream service error occurred''
     else ''An unexpected error occurred'')"

text \<open>\<open>Error()\<close>: the text of an error. \<open>sprintf\<close> substitutes the arguments, already rendered, for
  the verbs of a format; \<open>%q\<close> occurs in configuration messages only, whose text no modelled
  operation reads, and is rendered like \<open>%s\<close>.\<close>

fun sprintf :: "string \<Rightarrow> string list \<Rightarrow> string" where
  "sprintf (p # verb # s) args =
     (if p = CHR ''%'' then
        (if verb = CHR ''%'' then CHR ''%'' # sprintf s args
         else case args of a # as \<Rightarrow> a @ sprintf s as | [] \<Rightarrow> ''%!'' @ verb # ''(MISSING)'' @ sprintf s [])
      else p # sprintf (verb # s) args)"
| "sprintf s args = s"

definition sentinel_text :: "sentinel \<Rightarrow> string" where
  "sentinel_text s = (case s of
     ErrSecretNotFound \<Rightarrow> ''secret not found'' | ErrPermissionDenied \<Rightarrow> ''permission denied''
   | ErrTimeout \<Rightarrow> ''operation timeout'' | ErrPolicyViolation \<Rightarrow> ''policy violation''
   | ErrInvalidConfig \<Rightarrow> ''invalid configuration'' | ErrUpstreamError \<Rightarrow> ''upstream error''
   | ErrNotExist \<Rightarrow> ''file does not exist'' | ErrCanceled \<Rightarrow> ''context canceled''
   | ErrDeadlineExceeded \<Rightarrow> ''context deadline exceeded'')"

text \<open>The position of \<open>%w\<close> in a format: the wrapped error's text goes there.\<close>

definition insert_wrapped :: "string \<Rightarrow> string list \<Rightarrow> string \<Rightarrow> string list" where
  "insert_wrapped fmt args w = (case str_index fmt ''%w'' of
     None \<Rightarrow> args
   | Some i \<Rightarrow> (let k = length (filter (\<lambda>c. c = CHR ''%'') (take i fmt)) in take k args @ w # drop k args))"

fun error_text :: "go_error \<Rightarrow> string" and arg_text :: "fmt_arg \<Rightarrow> string" where
  "error_text (Sentinel s) = sentinel_text s"
| "error_text (SecretError provider ref None) =
     sprintf ''secret error: provider=%s, ref=%s'' [provider, ref]"
| "error_text (SecretError provider ref (Some cause)) =
     sprintf ''secret error: provider=%s, ref=%s: %v'' [provider, ref, error_text cause]"
| "error_text (PolicyError service rule None) =
     sprintf ''policy error: service=%s, rule=%s'' [service, rule]"
| "error_text (PolicyError service rule (Some cause)) =
     sprintf ''policy error: service=%s, rule=%s: %v'' [service, rule, error_text cause]"
| "error_text (ConfigError field v None) =
     sprintf ''config error: field=%s, value=%v'' [field, (case v of None \<Rightarrow> ''<nil>'' | Some a \<Rightarrow> arg_text a)]"
| "error_text (ConfigError field v (Some cause)) =
     sprintf ''config error: field=%s, value=%v: %v''
       [field, (case v of None \<Rightarrow> ''<nil>'' | Some a \<Rightarrow> arg_text a), error_text cause]"
| "error_text (Errorf fmt args) = sprintf fmt (map arg_text args)"
| "error_text (Wrapf fmt args e) = sprintf fmt (insert_wrapped fmt (map arg_text args) (error_text e))"
| "arg_text (Str s) = s"
| "arg_text (Num n) = show_int n"
| "arg_text (Strs ss) = CHR ''['' # str_join '' '' ss @ '']''"
| "arg_text (Errs es) = CHR ''['' # str_join '' '' (map error_text es) @ '']''"

text \<open>An error chain reaches one last error; wrapping does not change what \<open>errors.Is\<close> finds.\<close>

fun root_cause :: "go_error \<Rightarrow> go_error" where
  "root_cause (SecretError _ _ (Some e)) = root_cause e"
| "root_cause (PolicyError _ _ (Some e)) = root_cause e"
| "root_cause (ConfigError _ _ (Some e)) = root_cause e"
| "root_cause (Wrapf _ _ e) = root_cause e"
| "root_cause e = e"

lemma errors_is_root: "errors_is e t \<longleftrightarrow> root_cause e = Sentinel t"
  by (induction e t rule: errors_is.induct) auto

lemma errors_is_unique: "errors_is e s \<Longrightarrow> errors_is e t \<Longrightarrow> s = t"
  by (simp add: errors_is_root)

lemma errors_is_unwrap: "unwrap e = Some e' \<Longrightarrow> errors_is e t = errors_is e' t"
  by (cases e) auto

text \<open>A client learns nothing of an error but its class: status and message are two of a fixed
  set, and errors with the same root cause, whatever providers, references and paths their wrappings
  name, answer the same.\<close>

theorem client_sees_only_the_root_cause:
  assumes "root_cause e = root_cause e'"
  shows "http_status (Some e) = http_status (Some e') \<and> client_message (Some e) = client_message (Some e') \<and>
    (http_status (Some e), client_message (Some e)) \<in> set
      [(502, ''Authentication service error temporarily unavailable''), (403, ''Access forbidden or denied''),
       (504, ''Request timeout occurred, please try again''), (403, ''Access forbidden or denied by policy''),
       (500, ''Service configuration error occurred''), (502, ''Upstream service error occurred''),
       (500, ''An unexpected error occurred'')]"
  using assms by (simp add: http_status_def client_message_def errors_is_root)

theorem client_sees_only_the_root_cause_witness:
  "client_message (Some (SecretError ''vault'' ''/etc/key'' (Some (Sentinel ErrSecretNotFound)))) =
   client_message (Some (Sentinel ErrSecretNotFound))"
  using client_sees_only_the_root_cause
    [of "SecretError ''vault'' ''/etc/key'' (Some (Sentinel ErrSecretNotFound))" "Sentinel ErrSecretNotFound"]
  by simp

end
