(* ===== verification/Paths.thy ===== *)
theory Paths
  imports Errors
begin

text \<open>
  The path and URL pattern vocabulary of \<open>internal/service/pathmatch.go\<close> and
  \<open>internal/service/urlpattern.go\<close>: parsing, normalization, matching and containment of path
  patterns, and the (host, path) patterns of drop rules. One type serves the allow list, the
  drop list and the containment check of grants.
\<close>

record path_pattern =
  pp_prefix :: string
  pp_wildcard :: bool

definition containsGlobMeta :: "string \<Rightarrow> bool" where
  "containsGlobMeta s \<longleftrightarrow> contains_any s ''*?[''"

definition parsePathPattern :: "string \<Rightarrow> go_error + path_pattern" where
  "parsePathPattern s =
     (if \<not> has_prefix s ''/'' then Inl (Errorf ''path pattern must start with %q'' [Str ''/''])
      else case cut_suffix s ''/*'' of
        Some wild \<Rightarrow>
          if wild = '''' then Inr \<lparr>pp_prefix = ''/'', pp_wildcard = True\<rparr>
          else if containsGlobMeta wild
            then Inl (Errorf ''unsupported glob pattern (only exact paths and a trailing %q are supported)'' [Str ''/*''])
          else if wild = ''/'' \<or> wild \<noteq> path_clean wild
            then Inl (Errorf ''path pattern is not in canonical form (write %q)'' [Str (path_clean wild @ ''/*'')])
          else Inr \<lparr>pp_prefix = to_lower wild @ ''/'', pp_wildcard = True\<rparr>
      | None \<Rightarrow>
          if containsGlobMeta s
            then Inl (Errorf ''unsupported glob pattern (only exact paths and a trailing %q are supported)'' [Str ''/*''])
          else if s \<noteq> path_clean s
            then Inl (Errorf ''path pattern is not in canonical form (write %q)'' [Str (path_clean s)])
          else Inr \<lparr>pp_prefix = to_lower s, pp_wildcard = False\<rparr>)"

definition normalizePath :: "string \<Rightarrow> string" where
  "normalizePath p = path_clean (if \<not> has_prefix p ''/'' then CHR ''/'' # p else p)"

definition pp_matches :: "path_pattern \<Rightarrow> string \<Rightarrow> bool" where
  "pp_matches p requestPath =
     (let norm = to_lower (normalizePath requestPath) in
      if pp_wildcard p then has_prefix norm (pp_prefix p) else norm = pp_prefix p)"

definition pp_contains :: "path_pattern \<Rightarrow> path_pattern \<Rightarrow> bool" where
  "pp_contains p inner =
     (if \<not> pp_wildcard p then \<not> pp_wildcard inner \<and> pp_prefix inner = pp_prefix p
      else has_prefix (pp_prefix inner) (pp_prefix p))"

fun validatePathPatterns :: "string list \<Rightarrow> go_error option" where
  "validatePathPatterns [] = None"
| "validatePathPatterns (p # ps) =
     (case parsePathPattern p of
        Inl err \<Rightarrow> Some (Wrapf ''path pattern %q: %w'' [Str p] err)
      | Inr _ \<Rightarrow> validatePathPatterns ps)"

subsection \<open>Drop-rule patterns\<close>

record url_pattern =
  up_hostPattern :: string
  up_allPaths :: bool
  up_path :: path_pattern

definition parseURLPattern :: "string \<Rightarrow> go_error + url_pattern" where
  "parseURLPattern pattern =
     (case index_byte (CHR ''/'') pattern of
        None \<Rightarrow> Inr \<lparr>up_hostPattern = pattern, up_allPaths = True,
                    up_path = \<lparr>pp_prefix = '''', pp_wildcard = False\<rparr>\<rparr>
      | Some i \<Rightarrow>
          (case parsePathPattern (drop i pattern) of
             Inl err \<Rightarrow> Inl (Wrapf ''url pattern %q: %w'' [Str pattern] err)
           | Inr pp \<Rightarrow> Inr \<lparr>up_hostPattern = take i pattern, up_allPaths = False, up_path = pp\<rparr>))"

definition matchHost :: "string \<Rightarrow> string \<Rightarrow> bool" where
  "matchHost host0 pattern0 =
     (let host = to_lower host0; hostPattern = to_lower pattern0 in
      if hostPattern = '''' \<or> hostPattern = ''*'' then True
      else if \<not> str_contains hostPattern ''*'' then
        host = hostPattern \<or> has_suffix host (''.'' @ hostPattern)
      else if has_prefix hostPattern ''*.'' then
        (let suffix = drop 2 hostPattern in host = suffix \<or> has_suffix host (''.'' @ suffix))
      else False)"

definition up_matches :: "url_pattern \<Rightarrow> string \<Rightarrow> string \<Rightarrow> bool" where
  "up_matches p host urlPath =
     (if \<not> matchHost host (up_hostPattern p) then False
      else if up_allPaths p then True
      else pp_matches (up_path p) urlPath)"

subsection \<open>Parsing\<close>

text \<open>The parser accepts exactly \<open>/*\<close>, \<open>wild/*\<close> for a clean \<open>wild\<close> other than the root, and a
  clean path that is neither, without glob characters.\<close>

definition pattern_ok :: "string \<Rightarrow> bool" where
  "pattern_ok s \<longleftrightarrow>
     (case cut_suffix s ''/*'' of
        Some wild \<Rightarrow> wild = '''' \<or> (rooted_clean wild \<and> wild \<noteq> ''/'' \<and> \<not> containsGlobMeta wild)
      | None \<Rightarrow> rooted_clean s \<and> \<not> containsGlobMeta s)"

lemma glob_free_prefix: "containsGlobMeta a \<Longrightarrow> containsGlobMeta (a @ b)"
  by (auto simp: containsGlobMeta_def contains_any_def list_ex_iff)

lemma parse_wild_cases:
  assumes "has_prefix s ''/''" "cut_suffix s ''/*'' = Some wild" "wild \<noteq> ''''"
  shows "has_prefix wild ''/''"
  using assms by (cases wild) (auto simp: cut_suffix_Some_iff)

lemma parse_ok_iff: "(\<exists>pp. parsePathPattern s = Inr pp) \<longleftrightarrow> pattern_ok s"
proof (cases "has_prefix s ''/''")
  case False
  then have "\<not> rooted_clean s" using rooted_clean_prefix by blast
  moreover have "\<not> rooted_clean wild" if "cut_suffix s ''/*'' = Some wild" for wild
    using that False rooted_clean_prefix [of wild] by (auto simp: cut_suffix_Some_iff has_prefix_iff)
  moreover have "cut_suffix s ''/*'' \<noteq> Some ''''"
    using False by (auto simp: cut_suffix_Some_iff)
  ultimately show ?thesis
    using False by (auto simp: parsePathPattern_def pattern_ok_def split: option.splits)
next
  case True
  show ?thesis
  proof (cases "cut_suffix s ''/*''")
    case None
    with True show ?thesis
      by (auto simp: parsePathPattern_def pattern_ok_def path_clean_eq_iff [symmetric])
  next
    case (Some wild)
    with True parse_wild_cases [OF True Some] show ?thesis
      by (auto simp: parsePathPattern_def pattern_ok_def path_clean_eq_iff [symmetric])
  qed
qed

lemma validatePathPatterns_None_iff: "validatePathPatterns ps = None \<longleftrightarrow> list_all pattern_ok ps"
proof (induction ps)
  case (Cons p ps)
  then show ?case
    using parse_ok_iff [of p] by (auto split: sum.splits)
qed simp

lemma validatePathPatterns_SomeD:
  "validatePathPatterns ps = Some e \<Longrightarrow>
   \<exists>p err. p \<in> set ps \<and> parsePathPattern p = Inl err \<and> e = Wrapf ''path pattern %q: %w'' [Str p] err"
  by (induction ps) (auto split: sum.splits)

subsection \<open>Normalization\<close>

lemma normalize_prefix: "has_prefix (if \<not> has_prefix p ''/'' then CHR ''/'' # p else p) ''/''"
  by simp

lemma normalizePath_rooted: "rooted_clean (normalizePath r)"
  unfolding normalizePath_def by (rule path_clean_rooted) simp

lemma normalizePath_fixed: "rooted_clean r \<Longrightarrow> normalizePath r = r"
  using rooted_clean_prefix [of r] by (simp add: normalizePath_def path_clean_fixed)

lemma normalizePath_idem: "normalizePath (normalizePath r) = normalizePath r"
  by (simp add: normalizePath_fixed normalizePath_rooted)

lemma pp_matches_normalize: "pp_matches p (normalizePath r) = pp_matches p r"
  by (simp add: pp_matches_def normalizePath_idem)

subsection \<open>Case folding commutes with normalization on ASCII\<close>

lemma lower_byte_slash [simp]: "lower_byte c = CHR ''/'' \<longleftrightarrow> c = CHR ''/''"
  by (rule lower_byte_eq_iff) (auto simp: is_upper_byte_def is_lower_byte_def of_char_le_iff)

lemma lower_byte_dot [simp]: "lower_byte c = CHR ''.'' \<longleftrightarrow> c = CHR ''.''"
  by (rule lower_byte_eq_iff) (auto simp: is_upper_byte_def is_lower_byte_def of_char_le_iff)

lemma lower_byte_slash_id [simp]: "lower_byte (CHR ''/'') = CHR ''/''"
  by simp

lemma lower_byte_dot_id [simp]: "lower_byte (CHR ''.'') = CHR ''.''"
  by simp

lemma split_on_lower:
  "split_on (CHR ''/'') (map lower_byte s) = map (map lower_byte) (split_on (CHR ''/'') s)"
  by (induction s) (auto split: list.splits)

lemma clean_step_lower:
  "clean_step b (map (map lower_byte) st) (map lower_byte w) = map (map lower_byte) (clean_step b st w)"
  by (cases st) (auto simp: clean_step_def map_eq_Cons_conv)

lemma foldl_clean_lower:
  "foldl (clean_step b) (map (map lower_byte) st) (map (map lower_byte) ws) =
   map (map lower_byte) (foldl (clean_step b) st ws)"
  by (induction ws arbitrary: st) (auto simp: clean_step_lower)

lemma clean_stack_lower: "clean_stack b (map lower_byte s) = map (map lower_byte) (clean_stack b s)"
  using foldl_clean_lower [of b "[]" "split_on (CHR ''/'') s"]
  by (simp add: clean_stack_def split_on_lower rev_map)

lemma join_lower: "str_join ''/'' (map (map lower_byte) ws) = map lower_byte (str_join ''/'' ws)"
  by (induction "''/''" ws rule: str_join.induct) auto

lemma path_clean_lower: "path_clean (map lower_byte s) = map lower_byte (path_clean s)"
proof (cases "s = ''''")
  case False
  have "str_join ''/'' (clean_stack b (map lower_byte s)) = map lower_byte (str_join ''/'' (clean_stack b s))" for b
    by (simp add: clean_stack_lower join_lower)
  with False show ?thesis by (simp add: path_clean_def Let_def hd_map)
qed (simp add: path_clean_def)

lemma normalizePath_lower: "normalizePath (map lower_byte s) = map lower_byte (normalizePath s)"
proof -
  have "has_prefix (map lower_byte s) ''/'' = has_prefix s ''/''" by (cases s) auto
  then show ?thesis by (simp add: normalizePath_def path_clean_lower [symmetric])
qed

lemma clean_stack_sub:
  "\<forall>w \<in> set (foldl (clean_step b) st ws). w = ''..'' \<or> w \<in> set st \<union> set ws"
proof (induction ws arbitrary: st)
  case (Cons a ws)
  have "set (clean_step b st a) \<subseteq> insert ''..'' (insert a (set st))"
    by (cases st) (auto simp: clean_step_def)
  with Cons.IH [of "clean_step b st a"] show ?case by fastforce
qed auto

lemma is_ascii_join: "is_ascii sep \<Longrightarrow> list_all is_ascii ws \<Longrightarrow> is_ascii (str_join sep ws)"
  by (induction sep ws rule: str_join.induct) auto

lemma is_ascii_split: "is_ascii s \<Longrightarrow> list_all is_ascii (split_on c s)"
  by (induction s) (auto split: list.splits)

lemma is_ascii_path_clean: "is_ascii s \<Longrightarrow> is_ascii (path_clean s)"
proof -
  assume s: "is_ascii s"
  have "list_all is_ascii (clean_stack b s)" for b
    using clean_stack_sub [of b "[]" "split_on (CHR ''/'') s"] is_ascii_split [OF s, of "CHR ''/''"]
    by (auto simp: clean_stack_def list_all_iff)
  then show ?thesis by (auto simp: path_clean_def Let_def is_ascii_join)
qed

lemma is_ascii_normalize: "is_ascii s \<Longrightarrow> is_ascii (normalizePath s)"
  by (simp add: normalizePath_def is_ascii_path_clean)

lemma to_lower_normalize: "is_ascii s \<Longrightarrow> to_lower (normalizePath s) = normalizePath (to_lower s)"
  by (simp add: to_lower_ascii is_ascii_normalize normalizePath_lower)

lemma pp_matches_case:
  assumes "is_ascii r" "is_ascii r'" "to_lower r = to_lower r'"
  shows "pp_matches p r = pp_matches p r'"
  using assms by (simp add: pp_matches_def to_lower_normalize)

subsection \<open>What a parsed pattern matches\<close>

lemma parse_wild:
  assumes "parsePathPattern (wild @ ''/*'') = Inr p"
  shows "pp_wildcard p" "pp_prefix p = to_lower wild @ ''/''" "wild = '''' \<or> rooted_clean wild \<and> wild \<noteq> ''/''"
proof -
  have ok: "pattern_ok (wild @ ''/*'')" using assms parse_ok_iff by blast
  then show "wild = '''' \<or> rooted_clean wild \<and> wild \<noteq> ''/''"
    by (auto simp: pattern_ok_def)
  show "pp_wildcard p" "pp_prefix p = to_lower wild @ ''/''"
    using assms by (auto simp: parsePathPattern_def split: if_splits)
qed

lemma parse_exact:
  assumes "parsePathPattern s = Inr p" "\<not> has_suffix s ''/*''"
  shows "\<not> pp_wildcard p" "pp_prefix p = to_lower s" "rooted_clean s"
  using assms parse_ok_iff [of s]
  by (auto simp: parsePathPattern_def pattern_ok_def cut_suffix_def split: if_splits)

lemma split_on_snoc: "split_on c (t @ c # x) = split_on c t @ split_on c x"
  by (induction t) (auto split: list.splits)

lemma rooted_clean_below:
  "wild = '''' \<or> (rooted_clean wild \<and> wild \<noteq> ''/'') \<Longrightarrow> clean_elem x \<Longrightarrow>
   rooted_clean (wild @ CHR ''/'' # x)"
proof (cases wild)
  case Nil
  assume "clean_elem x"
  then show ?thesis using Nil by (simp add: rooted_clean_def split_on_notin clean_elem_def)
next
  case (Cons c t)
  assume *: "wild = '''' \<or> (rooted_clean wild \<and> wild \<noteq> ''/'')" "clean_elem x"
  then have "list_all clean_elem (split_on (CHR ''/'') t)" "c = CHR ''/''"
    using Cons by (auto simp: rooted_clean_def)
  moreover have "split_on (CHR ''/'') (t @ CHR ''/'' # x) = split_on (CHR ''/'') t @ [x]"
    using *(2) by (simp add: clean_elem_def split_on_snoc split_on_notin)
  ultimately show ?thesis using Cons *(2) by (simp add: rooted_clean_def)
qed

lemma rooted_clean_no_trailing: "rooted_clean (s @ ''/'') \<Longrightarrow> s = ''''"
proof (cases s)
  case (Cons c t)
  assume "rooted_clean (s @ ''/'')"
  then have "list_all clean_elem (split_on (CHR ''/'') (t @ ''/''))"
    using Cons by (auto simp: rooted_clean_def)
  moreover have "'''' \<in> set (split_on (CHR ''/'') (t @ ''/''))"
    by (simp add: split_on_snoc)
  ultimately show ?thesis by (auto simp: list_all_iff clean_elem_def)
qed simp

subsection \<open>Containment\<close>

lemma has_prefix_same_append [simp]: "has_prefix (a @ s) (a @ p) = has_prefix s p"
  by (simp add: has_prefix_iff)

lemma pp_contains_sound: "pp_contains p q \<Longrightarrow> pp_matches q r \<Longrightarrow> pp_matches p r"
  by (auto simp: pp_contains_def pp_matches_def Let_def intro: has_prefix_trans split: if_splits)

lemma prefix_slash_cut:
  assumes "has_prefix (l @ CHR ''/'' # x) (m @ ''/'')" "CHR ''/'' \<notin> set x"
  shows "has_prefix (l @ ''/'') (m @ ''/'')"
proof -
  obtain r where r: "l @ CHR ''/'' # x = m @ CHR ''/'' # r" using assms(1) by (auto simp: has_prefix_iff)
  then have "(\<exists>us. m @ CHR ''/'' # r = l @ us \<and> us = CHR ''/'' # x)" by simp
  from r consider us where "l = m @ us" "us @ CHR ''/'' # x = CHR ''/'' # r"
    | us where "m = l @ us" "CHR ''/'' # x = us @ CHR ''/'' # r"
    by (auto simp: append_eq_append_conv2)
  then show ?thesis
  proof cases
    case 1
    then show ?thesis by (cases us) (auto simp: has_prefix_iff)
  next
    case 2
    then show ?thesis using assms(2) by (cases us) auto
  qed
qed

text \<open>A parsed pattern is matched by the path it was written for; a wildcard pattern by every
  element below it.\<close>

lemma exact_self_match:
  "parsePathPattern s = Inr p \<Longrightarrow> \<not> has_suffix s ''/*'' \<Longrightarrow> pp_matches p s"
  using parse_exact [of s p] by (simp add: pp_matches_def normalizePath_fixed)

lemma norm_below:
  "parsePathPattern (wild @ ''/*'') = Inr p \<Longrightarrow> clean_elem x \<Longrightarrow>
   normalizePath (wild @ CHR ''/'' # x) = wild @ CHR ''/'' # x"
  by (metis normalizePath_fixed parse_wild(3) rooted_clean_below)

lemma wild_below_match:
  assumes "parsePathPattern (wild @ ''/*'') = Inr p" "clean_elem x" "is_ascii wild" "is_ascii x"
  shows "pp_matches p (wild @ CHR ''/'' # x)"
  using assms parse_wild [OF assms(1)]
  by (simp add: pp_matches_def norm_below to_lower_ascii)

lemma pp_contains_complete:
  assumes p: "parsePathPattern s = Inr p" and q: "parsePathPattern t = Inr q"
    and asc: "is_ascii t"
    and sub: "\<And>r. pp_matches q r \<Longrightarrow> pp_matches p r"
  shows "pp_contains p q"
proof (cases "has_suffix t ''/*''")
  case False
  note t = parse_exact [OF q False]
  have "pp_matches p t" using sub exact_self_match [OF q False] by blast
  then show ?thesis using t
    by (auto simp: pp_contains_def pp_matches_def normalizePath_fixed split: if_splits)
next
  case True
  then obtain wild where w: "t = wild @ ''/*''" by (auto simp: has_suffix_iff)
  note t = parse_wild [OF q [unfolded w]]
  have m: "pp_matches p (wild @ CHR ''/'' # [c])" if "c \<in> {CHR ''x'', CHR ''y''}" for c
    using that asc w q by (intro sub wild_below_match) (auto simp: clean_elem_def)
  have n: "to_lower (normalizePath (wild @ CHR ''/'' # [c])) = to_lower wild @ CHR ''/'' # [c]"
    if "c \<in> {CHR ''x'', CHR ''y''}" for c
  proof -
    have c: "clean_elem [c]" "lower_byte c = c" "of_char c < (128 :: nat)"
      using that by (auto simp: clean_elem_def lower_byte_def is_upper_byte_def of_char_le_iff)
    have "normalizePath (wild @ CHR ''/'' # [c]) = wild @ CHR ''/'' # [c]"
      by (rule norm_below [OF q [unfolded w] c(1)])
    moreover have "is_ascii wild" using asc w by simp
    ultimately show ?thesis using c by (simp add: to_lower_ascii)
  qed
  have x: "pp_matches p (wild @ CHR ''/'' # ''x'')" "pp_matches p (wild @ CHR ''/'' # ''y'')"
    using m by auto
  show ?thesis
  proof (cases "has_suffix s ''/*''")
    case False
    note e = parse_exact(1) [OF p False]
    have "to_lower wild @ CHR ''/'' # ''x'' = pp_prefix p"
      using x(1) n [of "CHR ''x''"] e by (simp add: pp_matches_def)
    moreover have "to_lower wild @ CHR ''/'' # ''y'' = pp_prefix p"
      using x(2) n [of "CHR ''y''"] e by (simp add: pp_matches_def)
    ultimately have "to_lower wild @ CHR ''/'' # ''x'' = to_lower wild @ CHR ''/'' # ''y''" by metis
    then show ?thesis by simp
  next
    case True
    then obtain wild' where s: "s = wild' @ ''/*''" by (auto simp: has_suffix_iff)
    note s' = parse_wild [OF p [unfolded s]]
    have "has_prefix (to_lower wild @ CHR ''/'' # ''x'') (to_lower wild' @ ''/'')"
      using x(1) n [of "CHR ''x''"] s' by (simp add: pp_matches_def)
    then have "has_prefix (to_lower wild @ ''/'') (to_lower wild' @ ''/'')"
      by (rule prefix_slash_cut) simp
    then show ?thesis using s' t by (simp add: pp_contains_def)
  qed
qed

text \<open>A wildcard pattern covers what lies strictly below its prefix.\<close>

lemma wild_matches_iff:
  assumes "parsePathPattern (wild @ ''/*'') = Inr p"
  shows "pp_matches p r \<longleftrightarrow>
    (\<exists>rest. to_lower (normalizePath r) = to_lower wild @ CHR ''/'' # rest)"
  using parse_wild [OF assms] by (auto simp: pp_matches_def has_prefix_iff)

lemma wild_not_self:
  assumes "parsePathPattern (wild @ ''/*'') = Inr p" "wild \<noteq> ''''"
  shows "\<not> pp_matches p wild"
proof -
  have "normalizePath wild = wild"
    using parse_wild(3) [OF assms(1)] assms(2) by (simp add: normalizePath_fixed)
  then show ?thesis using wild_matches_iff [OF assms(1)] by auto
qed

lemma wild_root_all: "parsePathPattern ''/*'' = Inr p \<Longrightarrow> is_ascii r \<Longrightarrow> pp_matches p r"
proof -
  assume *: "parsePathPattern ''/*'' = Inr p" "is_ascii r"
  have "has_prefix (to_lower (normalizePath r)) (to_lower ''/'')"
    using *(2) rooted_clean_prefix [OF normalizePath_rooted, of r]
    by (intro to_lower_prefix is_ascii_normalize)
  moreover have "to_lower ''/'' = ''/''" by (simp add: to_lower_ascii)
  ultimately show ?thesis
    using parse_wild [of "[]" p] *(1) by (simp add: pp_matches_def)
qed

subsection \<open>Properties of the pattern vocabulary\<close>


lemma parse_wild_v1: "parsePathPattern ''/v1/*'' = Inr \<lparr>pp_prefix = ''/v1/'', pp_wildcard = True\<rparr>"
  by code_simp

lemma parse_exact_v1: "parsePathPattern ''/V1/chat'' = Inr \<lparr>pp_prefix = ''/v1/chat'', pp_wildcard = False\<rparr>"
  by code_simp


text \<open>a request path is judged in its normal form. \<open>normalizePath\<close> always yields a rooted
  path without empty, dot or dot-dot elements, is idempotent, and a pattern gives a path and
  its normal form the same verdict, so \<open>/v1/../admin\<close> is never inside \<open>/v1/*\<close>.\<close>

theorem matching_is_normalized:
  "rooted_clean (normalizePath r) \<and> normalizePath (normalizePath r) = normalizePath r \<and>
   pp_matches p (normalizePath r) = pp_matches p r"
  by (simp add: normalizePath_rooted normalizePath_idem pp_matches_normalize)

text \<open>path matching is case-insensitive. Two ASCII spellings of a path that differ only in
  letter case get the same verdict from every pattern (normalization commutes with folding).\<close>

theorem matching_case_insensitive:
  assumes "is_ascii r" "is_ascii r'" "to_lower r = to_lower r'"
  shows "pp_matches p r = pp_matches p r'"
  using assms by (rule pp_matches_case)

theorem matching_case_insensitive_witness:
  "pp_matches \<lparr>pp_prefix = ''/admin/'', pp_wildcard = True\<rparr> ''/Admin//x'' =
   pp_matches \<lparr>pp_prefix = ''/admin/'', pp_wildcard = True\<rparr> ''/aDMIN//X''"
  by (rule matching_case_insensitive) (code_simp)+

text \<open>a subtree pattern covers exactly what lies below its prefix. A parsed \<open>wild/*\<close> matches a
  path if and only if the folded normal form of the path extends the folded prefix past a
  slash; it never matches its own prefix, and \<open>/*\<close> matches every path.\<close>

theorem subtree_pattern_meaning:
  assumes "parsePathPattern (wild @ ''/*'') = Inr p"
  shows "(pp_matches p r \<longleftrightarrow> (\<exists>rest. to_lower (normalizePath r) = to_lower wild @ CHR ''/'' # rest)) \<and>
    (wild \<noteq> '''' \<longrightarrow> \<not> pp_matches p wild) \<and> (wild = '''' \<longrightarrow> is_ascii r \<longrightarrow> pp_matches p r)"
  using wild_matches_iff [OF assms] wild_not_self [OF assms] wild_root_all [of p r] assms by auto

theorem subtree_pattern_meaning_witness:
  "\<not> pp_matches \<lparr>pp_prefix = ''/v1/'', pp_wildcard = True\<rparr> ''/v1'' \<and>
   (pp_matches \<lparr>pp_prefix = ''/v1/'', pp_wildcard = True\<rparr> ''/V1/a/../b'' \<longleftrightarrow>
    (\<exists>rest. to_lower (normalizePath ''/V1/a/../b'') = to_lower ''/v1'' @ CHR ''/'' # rest))"
  using subtree_pattern_meaning [of "''/v1''" "\<lparr>pp_prefix = ''/v1/'', pp_wildcard = True\<rparr>" "''/V1/a/../b''"]
    parse_wild_v1 by simp

lemma parseURL_path:
  assumes "CHR ''/'' \<notin> set h" "has_prefix s ''/''"
  shows "parseURLPattern (h @ s) = (case parsePathPattern s of
     Inl err \<Rightarrow> Inl (Wrapf ''url pattern %q: %w'' [Str (h @ s)] err)
   | Inr pp \<Rightarrow> Inr \<lparr>up_hostPattern = h, up_allPaths = False, up_path = pp\<rparr>)"
proof -
  obtain t where s: "s = CHR ''/'' # t" using assms(2) by (cases s) auto
  then show ?thesis using assms(1) by (simp add: parseURLPattern_def split: sum.splits)
qed

text \<open>the allow list and the drop list share one vocabulary. A drop pattern without a host part
  parses exactly when the same string parses as an allowed path, and then the two match the
  same request paths; with a host part it adds only the host condition.\<close>

theorem drop_and_allow_agree:
  assumes "CHR ''/'' \<notin> set h" "parsePathPattern s = Inr pp"
  shows "\<exists>up. parseURLPattern (h @ s) = Inr up \<and>
    (\<forall>host r. up_matches up host r \<longleftrightarrow> matchHost host h \<and> pp_matches pp r)"
proof -
  have "has_prefix s ''/''" using assms(2) by (auto simp: parsePathPattern_def split: if_splits)
  then show ?thesis using assms by (auto simp: parseURL_path up_matches_def)
qed

theorem drop_and_allow_agree_witness:
  "\<exists>up. parseURLPattern (''example.com'' @ ''/v1/*'') = Inr up \<and>
    (\<forall>host r. up_matches up host r \<longleftrightarrow>
       matchHost host ''example.com'' \<and> pp_matches \<lparr>pp_prefix = ''/v1/'', pp_wildcard = True\<rparr> r)"
  by (rule drop_and_allow_agree [OF _ parse_wild_v1]) simp

end
