(* ===== verification/Policy.thy ===== *)
theory Policy
  imports Paths
begin

text \<open>
  Access policies: \<open>internal/service/policy.go\<close> (the record), \<open>policy_enforcer.go\<close> (the three
  request checks), \<open>narrow.go\<close> (scope containment for grants) and the policy part of
  \<open>types.go\<close> (validation and defaults). A \<open>*Policy\<close> is a \<open>policy option\<close>, nil being \<open>None\<close>.
  \<open>MaxBodyBytes\<close> and body sizes are int64 values that are only compared, so they are \<open>int\<close>.
\<close>

record policy =
  allowedMethods :: "string list"
  allowedPaths :: "string list"
  maxBodyBytes :: int
  clientGroups :: "string list"
  dropPatterns :: "string list"
  stripHeaders :: "string list"

definition empty_policy :: policy where
  "empty_policy = \<lparr>allowedMethods = [], allowedPaths = [], maxBodyBytes = 0,
     clientGroups = [], dropPatterns = [], stripHeaders = []\<rparr>"

subsection \<open>Validation and defaults\<close>

definition policyValidate :: "policy option \<Rightarrow> go_error option" where
  "policyValidate p = (case p of None \<Rightarrow> None
     | Some p \<Rightarrow> if maxBodyBytes p < 0
         then Some (ConfigError ''MaxBodyBytes'' (Some (Num (maxBodyBytes p))) (Some (Sentinel ErrInvalidConfig)))
         else None)"

definition DefaultMaxBodyBytes :: int where
  "DefaultMaxBodyBytes = 10 * 1024 * 1024"

definition applyDefaults :: "policy option \<Rightarrow> policy option" where
  "applyDefaults p = (case p of None \<Rightarrow> None
     | Some p \<Rightarrow> if maxBodyBytes p = 0 then Some (p\<lparr>maxBodyBytes := DefaultMaxBodyBytes\<rparr>) else Some p)"

subsection \<open>The enforcer\<close>

text \<open>The loop of \<open>CheckPath\<close>: an entry that does not parse is logged and matches nothing.\<close>

fun anyPathMatches :: "string list \<Rightarrow> string \<Rightarrow> bool" where
  "anyPathMatches [] requestPath = False"
| "anyPathMatches (pattern # ps) requestPath =
     (case parsePathPattern pattern of
        Inl _ \<Rightarrow> anyPathMatches ps requestPath
      | Inr pp \<Rightarrow> if pp_matches pp requestPath then True else anyPathMatches ps requestPath)"

definition checkPath :: "string \<Rightarrow> policy option \<Rightarrow> go_error option" where
  "checkPath requestPath policy = (case policy of
     None \<Rightarrow> None
   | Some p \<Rightarrow>
       if allowedPaths p = [] then None
       else if anyPathMatches (allowedPaths p) requestPath then None
       else Some (PolicyError '''' ''path'' (Some (Errorf ''path %s not allowed'' [Str requestPath]))))"

definition checkMethod :: "string \<Rightarrow> policy option \<Rightarrow> go_error option" where
  "checkMethod method policy = (case policy of
     None \<Rightarrow> None
   | Some p \<Rightarrow>
       if allowedMethods p = [] then None
       else if list_ex (\<lambda>allowed. method = allowed) (allowedMethods p) then None
       else Some (PolicyError '''' ''method'' (Some (Errorf ''method %s not allowed'' [Str method]))))"

definition checkBodySize :: "int \<Rightarrow> policy option \<Rightarrow> go_error option" where
  "checkBodySize n policy = (case policy of
     None \<Rightarrow> None
   | Some p \<Rightarrow>
       if n < 0 then None
       else if maxBodyBytes p = 0 then None
       else if n > maxBodyBytes p
         then Some (PolicyError '''' ''body_size'' (Some (Errorf ''body size %d bytes too large (max %d bytes)''
                [Num n, Num (maxBodyBytes p)])))
       else None)"

subsection \<open>Narrowing\<close>

definition orEmpty :: "policy option \<Rightarrow> policy" where
  "orEmpty p = (case p of None \<Rightarrow> empty_policy | Some p \<Rightarrow> p)"

definition methodsNarrow :: "string list \<Rightarrow> string list \<Rightarrow> go_error option" where
  "methodsNarrow req bound =
     (if bound = [] then None
      else if req = [] then
        Some (Errorf ''methods widen: request allows all methods, bound restricts to %v'' [Strs bound])
      else first_error (\<lambda>m. if m \<in> set bound then None
             else Some (Errorf ''methods widen: method %q is not within bound %v'' [Str m, Strs bound])) req)"

definition containedByAny :: "path_pattern \<Rightarrow> path_pattern list \<Rightarrow> bool" where
  "containedByAny inner outers = list_ex (\<lambda>o'. pp_contains o' inner) outers"

fun parseBounds :: "string list \<Rightarrow> go_error + path_pattern list" where
  "parseBounds [] = Inr []"
| "parseBounds (b # bs) =
     (case parsePathPattern b of
        Inl err \<Rightarrow> Inl (Wrapf ''bound path %q: %w'' [Str b] err)
      | Inr pat \<Rightarrow> (case parseBounds bs of Inl e \<Rightarrow> Inl e | Inr pats \<Rightarrow> Inr (pat # pats)))"

definition pathsNarrow :: "string list \<Rightarrow> string list \<Rightarrow> go_error option" where
  "pathsNarrow req bound =
     (if bound = [] then None
      else if req = [] then
        Some (Errorf ''paths widen: request allows all paths, bound restricts to %v'' [Strs bound])
      else case parseBounds bound of
        Inl e \<Rightarrow> Some e
      | Inr boundPats \<Rightarrow>
          first_error (\<lambda>r. case parsePathPattern r of
              Inl err \<Rightarrow> Some (Wrapf ''requested path %q: %w'' [Str r] err)
            | Inr inner \<Rightarrow>
                if containedByAny inner boundPats then None
                else Some (Errorf ''paths widen: requested path %q is not within bound %v'' [Str r, Strs bound]))
            req)"

definition bodyNarrow :: "int \<Rightarrow> int \<Rightarrow> go_error option" where
  "bodyNarrow req bound =
     (if bound = 0 then None
      else if req = 0 then
        Some (Errorf ''body size widens: request is unlimited, bound is %d bytes'' [Num bound])
      else if req > bound then
        Some (Errorf ''body size widens: request %d bytes exceeds bound %d bytes'' [Num req, Num bound])
      else None)"

definition narrows :: "policy option \<Rightarrow> policy option \<Rightarrow> go_error option" where
  "narrows requested bound =
     (let req = orEmpty requested; mx = orEmpty bound in
      case methodsNarrow (allowedMethods req) (allowedMethods mx) of
        Some e \<Rightarrow> Some e
      | None \<Rightarrow> (case pathsNarrow (allowedPaths req) (allowedPaths mx) of
          Some e \<Rightarrow> Some e
        | None \<Rightarrow> bodyNarrow (maxBodyBytes req) (maxBodyBytes mx)))"

text \<open>What a policy permits: a request that passes the three checks of the enforcer.\<close>

definition permits :: "policy option \<Rightarrow> string \<Rightarrow> string \<Rightarrow> int \<Rightarrow> bool" where
  "permits p m r n \<longleftrightarrow>
     checkMethod m p = None \<and> checkPath r p = None \<and> checkBodySize n p = None"

subsection \<open>What the checks decide\<close>

lemma anyPathMatches_iff:
  "anyPathMatches ps r \<longleftrightarrow> (\<exists>s \<in> set ps. \<exists>pp. parsePathPattern s = Inr pp \<and> pp_matches pp r)"
  by (induction ps) (auto split: sum.splits)

lemma checkPath_None_iff:
  "checkPath r (Some p) = None \<longleftrightarrow> allowedPaths p = [] \<or> anyPathMatches (allowedPaths p) r"
  by (auto simp: checkPath_def)

lemma checkMethod_None_iff:
  "checkMethod m (Some p) = None \<longleftrightarrow> allowedMethods p = [] \<or> m \<in> set (allowedMethods p)"
  by (auto simp: checkMethod_def list_ex_iff)

lemma checkBodySize_None_iff:
  "checkBodySize n (Some p) = None \<longleftrightarrow> n < 0 \<or> maxBodyBytes p = 0 \<or> n \<le> maxBodyBytes p"
  by (auto simp: checkBodySize_def)

lemmas check_None_iffs = checkPath_None_iff checkMethod_None_iff checkBodySize_None_iff

lemma permits_orEmpty: "permits p m r n = permits (Some (orEmpty p)) m r n"
  by (cases p) (auto simp: permits_def orEmpty_def empty_policy_def checkPath_def checkMethod_def checkBodySize_def)

subsection \<open>Narrowing is containment\<close>

lemma parseBounds_ok:
  "parseBounds bs = Inr pats \<Longrightarrow> pats = map (\<lambda>b. projr (parsePathPattern b)) bs \<and>
     (\<forall>b \<in> set bs. \<exists>pp. parsePathPattern b = Inr pp)"
  by (induction bs arbitrary: pats) (auto split: sum.splits)

lemma parseBounds_Inr_iff: "(\<exists>pats. parseBounds bs = Inr pats) \<longleftrightarrow> list_all pattern_ok bs"
proof (induction bs)
  case (Cons b bs)
  then show ?case using parse_ok_iff [of b] by (auto split: sum.splits)
qed simp

lemma pathsNarrow_None_iff:
  "pathsNarrow req bound = None \<longleftrightarrow> bound = [] \<or>
     (req \<noteq> [] \<and> list_all pattern_ok bound \<and>
      (\<forall>r \<in> set req. \<exists>inner. parsePathPattern r = Inr inner \<and>
         (\<exists>b \<in> set bound. pp_contains (projr (parsePathPattern b)) inner)))"
proof (cases "parseBounds bound")
  case (Inl e)
  then have "\<not> list_all pattern_ok bound" using parseBounds_Inr_iff [of bound] by auto
  then show ?thesis using Inl by (auto simp: pathsNarrow_def)
next
  case (Inr pats)
  then have ok: "list_all pattern_ok bound" using parseBounds_Inr_iff [of bound] by auto
  have pats: "pats = map (\<lambda>b. projr (parsePathPattern b)) bound" using parseBounds_ok [OF Inr] by simp
  have body: "(case parsePathPattern r of
        Inl err \<Rightarrow> Some (Wrapf ''requested path %q: %w'' [Str r] err)
      | Inr inner \<Rightarrow> if containedByAny inner pats then None
          else Some (Errorf ''paths widen: requested path %q is not within bound %v'' [Str r, Strs bound])) = None
      \<longleftrightarrow> (\<exists>inner. parsePathPattern r = Inr inner \<and>
            (\<exists>b \<in> set bound. pp_contains (projr (parsePathPattern b)) inner))" for r
    by (cases "parsePathPattern r") (auto simp: containedByAny_def list_ex_iff pats)
  show ?thesis
    using ok by (simp add: pathsNarrow_def first_error_None_iff Inr body)
qed

lemma narrows_None_iff:
  "narrows req bound = None \<longleftrightarrow>
     methodsNarrow (allowedMethods (orEmpty req)) (allowedMethods (orEmpty bound)) = None \<and>
     pathsNarrow (allowedPaths (orEmpty req)) (allowedPaths (orEmpty bound)) = None \<and>
     bodyNarrow (maxBodyBytes (orEmpty req)) (maxBodyBytes (orEmpty bound)) = None"
  by (auto simp: narrows_def Let_def split: option.splits)

lemma methodsNarrow_None_iff:
  "methodsNarrow req bound = None \<longleftrightarrow> bound = [] \<or> (req \<noteq> [] \<and> set req \<subseteq> set bound)"
  by (auto simp: methodsNarrow_def first_error_None_iff)

lemma bodyNarrow_None_iff:
  "bodyNarrow req bound = None \<longleftrightarrow> bound = 0 \<or> (req \<noteq> 0 \<and> req \<le> bound)"
  by (auto simp: bodyNarrow_def)

lemma pathsNarrow_sound:
  assumes "pathsNarrow req bound = None" "bound \<noteq> []" "anyPathMatches req r"
  shows "anyPathMatches bound r"
proof -
  obtain s pp where s: "s \<in> set req" "parsePathPattern s = Inr pp" "pp_matches pp r"
    using assms(3) by (auto simp: anyPathMatches_iff)
  then obtain b where b: "b \<in> set bound" "pp_contains (projr (parsePathPattern b)) pp"
    using assms(1,2) by (fastforce simp: pathsNarrow_None_iff)
  then obtain bp where "parsePathPattern b = Inr bp"
    using assms(1,2) parse_ok_iff [of b] by (auto simp: pathsNarrow_None_iff list_all_iff)
  with b s show ?thesis by (auto simp: anyPathMatches_iff intro: pp_contains_sound)
qed

lemma narrows_sound:
  assumes "narrows req bound = None" "permits req m r n"
  shows "permits bound m r n"
proof -
  have "permits (Some (orEmpty req)) m r n" using assms(2) permits_orEmpty by metis
  then have "permits (Some (orEmpty bound)) m r n"
    using assms(1) pathsNarrow_sound [of "allowedPaths (orEmpty req)" "allowedPaths (orEmpty bound)" r]
    by (auto simp: permits_def check_None_iffs narrows_None_iff methodsNarrow_None_iff
        bodyNarrow_None_iff pathsNarrow_None_iff)
  then show ?thesis using permits_orEmpty by metis
qed

lemma has_prefix_length: "has_prefix s p \<Longrightarrow> length p \<le> length s"
  by (auto simp: has_prefix_iff)

text \<open>Completeness. A slash-free element longer than every prefix of the bound separates a
  wildcard pattern from every exact one.\<close>

definition fresh_elem :: "string list \<Rightarrow> string" where
  "fresh_elem bound = replicate (Suc (sum_list (map length bound))) (CHR ''x'')"

lemma fresh_elem_clean: "clean_elem (fresh_elem bound)" "is_ascii (fresh_elem bound)"
  by (auto simp: fresh_elem_def clean_elem_def is_ascii_def list_all_iff)

lemma fresh_elem_long: "b \<in> set bound \<Longrightarrow> length b < length (fresh_elem bound)"
  using member_le_sum_list [of "length b" "map length bound"] by (auto simp: fresh_elem_def)

lemma lower_fresh [simp]: "map lower_byte (fresh_elem bound) = fresh_elem bound"
  by (simp add: fresh_elem_def lower_byte_def is_upper_byte_def of_char_le_iff)

lemma fresh_below_contained:
  assumes w: "w = '''' \<or> rooted_clean w \<and> w \<noteq> ''/''" "is_ascii w"
    and b: "b \<in> set bound" "is_ascii b" "parsePathPattern b = Inr bp"
    and m: "pp_matches bp (w @ CHR ''/'' # fresh_elem bound)"
  shows "pp_wildcard bp \<and> has_prefix (to_lower w @ ''/'') (pp_prefix bp)"
proof -
  let ?r = "w @ CHR ''/'' # fresh_elem bound"
  have "normalizePath ?r = ?r"
    by (intro normalizePath_fixed rooted_clean_below w fresh_elem_clean)
  then have n: "to_lower (normalizePath ?r) = to_lower w @ CHR ''/'' # fresh_elem bound"
    using w(2) fresh_elem_clean(2) [of bound] by (simp add: to_lower_ascii)
  show ?thesis
  proof (cases "has_suffix b ''/*''")
    case False
    note e = parse_exact(1,2) [OF b(3) False]
    have "to_lower w @ CHR ''/'' # fresh_elem bound = to_lower b"
      using m n e by (simp add: pp_matches_def)
    then have "length (to_lower w @ CHR ''/'' # fresh_elem bound) = length (to_lower b)" by (rule arg_cong)
    then have "length (fresh_elem bound) \<le> length b" using b(2) by (simp add: to_lower_ascii)
    then show ?thesis using fresh_elem_long [OF b(1)] by simp
  next
    case True
    then obtain v where v: "b = v @ ''/*''" by (auto simp: has_suffix_iff)
    note e = parse_wild(1,2) [OF b(3) [unfolded v]]
    have "has_prefix (to_lower w @ CHR ''/'' # fresh_elem bound) (to_lower v @ ''/'')"
      using m n e by (simp add: pp_matches_def)
    then have "has_prefix (to_lower w @ ''/'') (to_lower v @ ''/'')"
      by (rule prefix_slash_cut) (use fresh_elem_clean(1) [of bound] in \<open>simp add: clean_elem_def\<close>)
    then show ?thesis using e by simp
  qed
qed

definition patterns_ok :: "string list \<Rightarrow> bool" where
  "patterns_ok ps \<longleftrightarrow> list_all pattern_ok ps \<and> list_all is_ascii ps"

lemma patterns_okD: "patterns_ok ps \<Longrightarrow> s \<in> set ps \<Longrightarrow> is_ascii s \<and> (\<exists>pp. parsePathPattern s = Inr pp)"
  using parse_ok_iff by (auto simp: patterns_ok_def list_all_iff)

lemma covered_pattern_contained:
  assumes ok: "patterns_ok req" "patterns_ok bound" and s: "s \<in> set req" "parsePathPattern s = Inr inner"
    and sub: "\<And>r. anyPathMatches req r \<Longrightarrow> anyPathMatches bound r"
  shows "\<exists>b \<in> set bound. pp_contains (projr (parsePathPattern b)) inner"
proof (cases "has_suffix s ''/*''")
  case False
  have "anyPathMatches bound s"
    using sub s exact_self_match [OF s(2) False] by (auto simp: anyPathMatches_iff)
  then obtain b bp where b: "b \<in> set bound" "parsePathPattern b = Inr bp" "pp_matches bp s"
    by (auto simp: anyPathMatches_iff)
  have "pp_contains bp inner"
    using b(3) parse_exact [OF s(2) False]
    by (auto simp: pp_contains_def pp_matches_def normalizePath_fixed split: if_splits)
  with b show ?thesis by force
next
  case True
  then obtain w where w: "s = w @ ''/*''" by (auto simp: has_suffix_iff)
  note e = parse_wild [OF s(2) [unfolded w]]
  have asc: "is_ascii w" using patterns_okD [OF ok(1) s(1)] w by simp
  have "pp_matches inner (w @ CHR ''/'' # fresh_elem bound)"
    using s(2) w asc by (intro wild_below_match) (auto simp: fresh_elem_clean)
  then have "anyPathMatches bound (w @ CHR ''/'' # fresh_elem bound)"
    using sub s by (auto simp: anyPathMatches_iff)
  then obtain b bp where b: "b \<in> set bound" "parsePathPattern b = Inr bp"
      "pp_matches bp (w @ CHR ''/'' # fresh_elem bound)"
    by (auto simp: anyPathMatches_iff)
  have "pp_wildcard bp \<and> has_prefix (to_lower w @ ''/'') (pp_prefix bp)"
    using b asc e(3) patterns_okD [OF ok(2) b(1)] by (intro fresh_below_contained) auto
  then have "pp_contains bp inner" using e by (simp add: pp_contains_def)
  with b show ?thesis by force
qed

lemma all_paths_covered:
  assumes ok: "patterns_ok bound" and all: "\<And>r. anyPathMatches bound r"
  shows "''/*'' \<in> set bound"
proof -
  obtain b bp where b: "b \<in> set bound" "parsePathPattern b = Inr bp"
      "pp_matches bp ([] @ CHR ''/'' # fresh_elem bound)"
    using all [of "[] @ CHR ''/'' # fresh_elem bound"] by (auto simp: anyPathMatches_iff)
  then have p: "pp_wildcard bp \<and> has_prefix (to_lower [] @ ''/'') (pp_prefix bp)"
    using patterns_okD [OF ok b(1)] by (intro fresh_below_contained) auto
  then have "has_suffix b ''/*''" using parse_exact(1) [OF b(2)] by blast
  then obtain v where v: "b = v @ ''/*''" by (auto simp: has_suffix_iff)
  have "v = ''''"
  proof -
    have "length (to_lower v @ ''/'') \<le> 1"
      using p parse_wild(2) [OF b(2) [unfolded v]] has_prefix_length [of "''/''" "to_lower v @ ''/''"]
      by simp
    moreover have "is_ascii v" using patterns_okD [OF ok b(1)] v by simp
    ultimately show ?thesis by (simp add: to_lower_ascii)
  qed
  with v b(1) show ?thesis by simp
qed

lemma some_path_matches: "patterns_ok req \<Longrightarrow> req \<noteq> [] \<Longrightarrow> \<exists>r. anyPathMatches req r"
proof (cases req)
  case (Cons s ss)
  assume ok: "patterns_ok req"
  then obtain pp where pp: "parsePathPattern s = Inr pp" "is_ascii s"
    using patterns_okD Cons by fastforce
  have "\<exists>r. pp_matches pp r"
  proof (cases "has_suffix s ''/*''")
    case True
    then obtain w where "s = w @ ''/*''" by (auto simp: has_suffix_iff)
    then show ?thesis using wild_below_match [of w pp "fresh_elem []"] pp fresh_elem_clean by auto
  qed (use exact_self_match pp in blast)
  then show ?thesis using pp Cons by (auto simp: anyPathMatches_iff)
qed simp

lemma pathsNarrow_complete:
  assumes ok: "patterns_ok req" "patterns_ok bound" and root: "req = [] \<Longrightarrow> ''/*'' \<notin> set bound"
    and sub: "\<And>r. req = [] \<or> anyPathMatches req r \<Longrightarrow> bound = [] \<or> anyPathMatches bound r"
  shows "pathsNarrow req bound = None"
proof (cases "bound = []")
  case False
  have ne: "req \<noteq> []"
    using False sub root all_paths_covered [OF ok(2)] by auto
  have "\<exists>inner. parsePathPattern r = Inr inner \<and>
      (\<exists>b \<in> set bound. pp_contains (projr (parsePathPattern b)) inner)" if r: "r \<in> set req" for r
  proof -
    obtain inner where i: "parsePathPattern r = Inr inner" using patterns_okD [OF ok(1) r] by blast
    then show ?thesis using covered_pattern_contained [OF ok r i] sub False by blast
  qed
  then show ?thesis using ne ok(2) by (simp add: pathsNarrow_None_iff patterns_ok_def)
qed (simp add: pathsNarrow_def)

lemma methodsNarrow_complete:
  assumes "\<And>m. req = [] \<or> m \<in> set req \<Longrightarrow> bound = [] \<or> m \<in> set bound"
  shows "methodsNarrow req bound = None"
proof (cases "bound = [] \<or> req \<noteq> []")
  case False
  then have "fresh_elem bound \<in> set bound" using assms by auto
  then show ?thesis using fresh_elem_long by fastforce
qed (use assms in \<open>auto simp: methodsNarrow_None_iff\<close>)

lemma bodyNarrow_complete:
  assumes "0 \<le> req" "0 \<le> bound" "\<And>n. n < 0 \<or> req = 0 \<or> n \<le> req \<Longrightarrow> n < 0 \<or> bound = 0 \<or> n \<le> bound"
  shows "bodyNarrow req bound = None"
  using assms(1,2) assms(3) [of "bound + 1"] assms(3) [of req] by (auto simp: bodyNarrow_None_iff)

definition scope_ok :: "policy \<Rightarrow> bool" where
  "scope_ok p \<longleftrightarrow> patterns_ok (allowedPaths p) \<and> 0 \<le> maxBodyBytes p"

lemma narrows_complete:
  assumes ok: "scope_ok req" "scope_ok bound"
    and root: "allowedPaths req = [] \<Longrightarrow> ''/*'' \<notin> set (allowedPaths bound)"
    and sub: "\<And>m r n. permits (Some req) m r n \<Longrightarrow> permits (Some bound) m r n"
  shows "narrows (Some req) (Some bound) = None"
proof -
  define m0 where "m0 = hd (allowedMethods req)"
  have m0: "allowedMethods req = [] \<or> m0 \<in> set (allowedMethods req)" by (cases "allowedMethods req") (auto simp: m0_def)
  obtain r0 where r0: "allowedPaths req = [] \<or> anyPathMatches (allowedPaths req) r0"
    using some_path_matches [of "allowedPaths req"] ok(1) by (auto simp: scope_ok_def)
  note perm = permits_def check_None_iffs
  have "methodsNarrow (allowedMethods req) (allowedMethods bound) = None"
    using sub [of _ r0 "-1"] r0 by (intro methodsNarrow_complete) (auto simp: perm)
  moreover have "pathsNarrow (allowedPaths req) (allowedPaths bound) = None"
    using sub [of m0 _ "-1"] m0 ok root by (intro pathsNarrow_complete) (auto simp: perm scope_ok_def)
  moreover have "bodyNarrow (maxBodyBytes req) (maxBodyBytes bound) = None"
    using sub [of m0 r0] m0 r0 ok by (intro bodyNarrow_complete) (auto simp: perm scope_ok_def)
  ultimately show ?thesis by (simp add: narrows_None_iff orEmpty_def)
qed

text \<open>Reflexivity on valid bounds, which is what the enforcer's constructor relies on.\<close>

lemma narrows_refl_iff: "narrows (Some b) (Some b) = None \<longleftrightarrow> list_all pattern_ok (allowedPaths b)"
proof -
  have refl: "pp_contains p p" for p by (simp add: pp_contains_def)
  have "pathsNarrow ps ps = None \<longleftrightarrow> list_all pattern_ok ps" for ps
  proof
    assume "list_all pattern_ok ps"
    then have "\<exists>inner. parsePathPattern r = Inr inner \<and>
        (\<exists>b \<in> set ps. pp_contains (projr (parsePathPattern b)) inner)" if "r \<in> set ps" for r
      using that parse_ok_iff [of r] refl by (force simp: list_all_iff)
    with \<open>list_all pattern_ok ps\<close> show "pathsNarrow ps ps = None"
      by (simp add: pathsNarrow_None_iff)
  qed (auto simp: pathsNarrow_None_iff)
  then show ?thesis
    by (auto simp: narrows_None_iff orEmpty_def methodsNarrow_None_iff bodyNarrow_None_iff)
qed

lemma narrows_trans:
  assumes "narrows a b = None" "narrows b c = None"
  shows "permits a m r n \<Longrightarrow> permits c m r n"
  using assms narrows_sound by blast

text \<open>Defaults only narrow, and an explicit limit is never touched.\<close>

lemma applyDefaults_bound: "applyDefaults (Some p) = Some q \<Longrightarrow>
    q = p\<lparr>maxBodyBytes := (if maxBodyBytes p = 0 then DefaultMaxBodyBytes else maxBodyBytes p)\<rparr>"
  by (auto simp: applyDefaults_def split: if_splits)

lemma applyDefaults_permits: "permits (applyDefaults p) m r n \<Longrightarrow> permits p m r n"
  by (cases p) (auto simp: applyDefaults_def permits_def check_None_iffs checkPath_def split: if_splits)

lemma policyValidate_None_iff: "policyValidate (Some p) = None \<longleftrightarrow> 0 \<le> maxBodyBytes p"
  by (auto simp: policyValidate_def)

subsection \<open>Properties of policies\<close>

text \<open>narrowing is sound. If \<open>Narrows\<close> accepts a requested policy against a bound, every request
  (method, path, body size) the requested policy permits is permitted by the bound; this
  holds for nil policies, for patterns that do not parse and for any integer limits.\<close>

theorem narrowing_never_widens:
  assumes "narrows req bound = None" "permits req m r n"
  shows "permits bound m r n"
  using assms by (rule narrows_sound)

definition demo_req :: policy where
  "demo_req = empty_policy\<lparr>allowedMethods := [''GET''], allowedPaths := [''/v1/chat''], maxBodyBytes := 10\<rparr>"

definition demo_bound :: policy where
  "demo_bound = empty_policy\<lparr>allowedMethods := [''GET'', ''POST''], allowedPaths := [''/v1/*''], maxBodyBytes := 20\<rparr>"

theorem narrowing_never_widens_witness: "permits (Some demo_bound) ''GET'' ''/v1/x/../chat'' 7"
proof (rule narrowing_never_widens)
  show "narrows (Some demo_req) (Some demo_bound) = None" by code_simp
  show "permits (Some demo_req) ''GET'' ''/v1/x/../chat'' 7" by code_simp
qed



text \<open>what the enforcer decides. A request passes a policy if and only if its method is
  listed (or no method is), its path is matched by an entry that parses (or no path is
  listed) and its declared size is absent, unlimited or within the limit; a failed check
  reports a \<open>PolicyError\<close> naming its rule, and the nil policy permits everything.\<close>

theorem enforcer_decides:
  "checkMethod m (Some p) = (if allowedMethods p = [] \<or> m \<in> set (allowedMethods p) then None
      else Some (PolicyError '''' ''method'' (Some (Errorf ''method %s not allowed'' [Str m])))) \<and>
   checkPath r (Some p) = (if allowedPaths p = [] \<or>
        (\<exists>s \<in> set (allowedPaths p). \<exists>pp. parsePathPattern s = Inr pp \<and> pp_matches pp r) then None
      else Some (PolicyError '''' ''path'' (Some (Errorf ''path %s not allowed'' [Str r])))) \<and>
   checkBodySize n (Some p) = (if n < 0 \<or> maxBodyBytes p = 0 \<or> n \<le> maxBodyBytes p then None
      else Some (PolicyError '''' ''body_size'' (Some (Errorf ''body size %d bytes too large (max %d bytes)''
             [Num n, Num (maxBodyBytes p)])))) \<and>
   permits None m r n"
proof -
  have "checkMethod m (Some p) = (if allowedMethods p = [] \<or> m \<in> set (allowedMethods p) then None
      else Some (PolicyError '''' ''method'' (Some (Errorf ''method %s not allowed'' [Str m]))))"
    by (auto simp: checkMethod_def list_ex_iff)
  moreover have "checkPath r (Some p) = (if allowedPaths p = [] \<or>
        (\<exists>s \<in> set (allowedPaths p). \<exists>pp. parsePathPattern s = Inr pp \<and> pp_matches pp r) then None
      else Some (PolicyError '''' ''path'' (Some (Errorf ''path %s not allowed'' [Str r]))))"
    by (simp add: checkPath_def anyPathMatches_iff)
  moreover have "checkBodySize n (Some p) = (if n < 0 \<or> maxBodyBytes p = 0 \<or> n \<le> maxBodyBytes p then None
      else Some (PolicyError '''' ''body_size'' (Some (Errorf ''body size %d bytes too large (max %d bytes)''
             [Num n, Num (maxBodyBytes p)]))))"
    by (simp add: checkBodySize_def)
  moreover have "permits None m r n" by (simp add: permits_def checkMethod_def checkPath_def checkBodySize_def)
  ultimately show ?thesis by blast
qed

text \<open>A denial is not a policy violation to \<open>errors.HTTPStatus\<close>: what the enforcer returns wraps no
  sentinel, so the status it maps to is 500 and the client is told the error was unexpected.\<close>

theorem denial_maps_to_500:
  assumes "Some e \<in> {checkMethod m p, checkPath r p, checkBodySize n p}"
  shows "\<not> errors_is e ErrPolicyViolation \<and> http_status (Some e) = 500 \<and>
    client_message (Some e) = ''An unexpected error occurred''"
proof -
  obtain r0 fm args where "e = PolicyError '''' r0 (Some (Errorf fm args))"
    using assms by (auto simp: checkMethod_def checkPath_def checkBodySize_def split: option.splits if_splits)
  then show ?thesis by (simp add: http_status_def client_message_def)
qed

theorem denial_maps_to_500_witness:
  "\<exists>e. checkMethod ''PUT'' (Some demo_req) = Some e \<and> http_status (Some e) = 500"
proof -
  obtain e where e: "checkMethod ''PUT'' (Some demo_req) = Some e"
    by (auto simp: checkMethod_def demo_req_def)
  then show ?thesis using denial_maps_to_500 [of e "''PUT''" "Some demo_req"] by auto
qed

end
