(* ===== verification/Service_Registry.thy ===== *)
theory Service_Registry
  imports Policy
begin

text \<open>
  \<open>internal/service\<close>: the service record and its validation (\<open>registry.go\<close>, \<open>types.go\<close>),
  authentication references (\<open>auth_ref.go\<close>), the thread-safe registry
  (\<open>registry_impl.go\<close>) and the interception test (\<open>matcher.go\<close>).

  The registry's state is its \<open>services\<close> map; every operation runs under the registry's lock,
  so one call is one step. The locale \<open>service_store\<close> is the \<open>ServiceRegistry\<close> interface as the
  control plane uses it; it is interpreted on the registry below.
\<close>

record service =
  svcName :: string
  hostPattern :: string
  authStrategyRef :: string
  headerName :: string
  credentialRef :: string
  placeholder :: string
  svcPolicy :: "policy option"

type_synonym registry = "(string, service) gomap"

subsection \<open>Validation\<close>

definition serviceValidate :: "service option \<Rightarrow> go_error option" where
  "serviceValidate so = (case so of
     None \<Rightarrow> Some (ConfigError ''service'' None (Some (Sentinel ErrInvalidConfig)))
   | Some s \<Rightarrow>
       if trim_space (hostPattern s) = ''''
         then Some (ConfigError ''HostPattern'' (Some (Str (hostPattern s))) (Some (Sentinel ErrInvalidConfig)))
       else if trim_space (authStrategyRef s) = ''''
         then Some (ConfigError ''AuthStrategy'' (Some (Str (authStrategyRef s))) (Some (Sentinel ErrInvalidConfig)))
       else if trim_space (credentialRef s) = ''''
         then Some (ConfigError ''CredentialRef'' (Some (Str (credentialRef s))) (Some (Sentinel ErrInvalidConfig)))
       else case svcPolicy s of None \<Rightarrow> None | Some p \<Rightarrow> policyValidate (Some p))"

subsection \<open>Authentication references\<close>

definition headerPrefix :: string where
  "headerPrefix = ''header:''"

definition canonicalAuthRef :: "string \<Rightarrow> string \<Rightarrow> string" where
  "canonicalAuthRef authStrategy header =
     (if has_prefix authStrategy headerPrefix then authStrategy
      else if authStrategy = ''header'' \<and> header \<noteq> '''' then headerPrefix @ header
      else authStrategy)"

definition headerNameFromRef :: "string \<Rightarrow> string \<times> bool" where
  "headerNameFromRef ref = (case cut_prefix ref headerPrefix of
     Some name \<Rightarrow> (name, True) | None \<Rightarrow> ('''', False))"

subsection \<open>The registry\<close>

definition newRegistry :: registry where
  "newRegistry = []"

definition serviceKey :: "string \<Rightarrow> string" where
  "serviceKey pattern = to_lower (trim_space pattern)"

definition nil_service_error :: go_error where
  "nil_service_error = ConfigError ''service'' None (Some (Sentinel ErrInvalidConfig))"

definition reg_register :: "service option \<Rightarrow> registry \<Rightarrow> go_error option \<times> registry" where
  "reg_register so r = (case so of
     None \<Rightarrow> (Some nil_service_error, r)
   | Some s \<Rightarrow> (case serviceValidate (Some s) of
       Some e \<Rightarrow> (Some e, r)
     | None \<Rightarrow> (let key = serviceKey (hostPattern s) in
         if map_get r key \<noteq> None
         then (Some (ConfigError ''HostPattern'' (Some (Str key))
                 (Some (Errorf ''service for %s already registered'' [Str key]))), r)
         else (None, map_put key s r))))"

definition reg_upsert :: "service option \<Rightarrow> registry \<Rightarrow> go_error option \<times> registry" where
  "reg_upsert so r = (case so of
     None \<Rightarrow> (Some nil_service_error, r)
   | Some s \<Rightarrow> (case serviceValidate (Some s) of
       Some e \<Rightarrow> (Some e, r)
     | None \<Rightarrow> (None, map_put (serviceKey (hostPattern s)) s r)))"

definition reg_unregister :: "string \<Rightarrow> registry \<Rightarrow> go_error option \<times> registry" where
  "reg_unregister pattern r = (let key = serviceKey pattern in
     if map_get r key = None
     then (Some (Errorf ''no service registered for host pattern: %s'' [Str key]), r)
     else (None, map_del key r))"

definition normalizeHostname :: "string \<Rightarrow> string" where
  "normalizeHostname hostname0 = (let hostname = trim_space hostname0 in
     case split_host_port hostname of
       None \<Rightarrow> to_lower hostname
     | Some (host, _) \<Rightarrow> to_lower host)"

definition isWildcardMatch :: "string \<Rightarrow> string \<Rightarrow> bool" where
  "isWildcardMatch pattern hostname =
     (if \<not> has_prefix pattern ''*.'' then False
      else if \<not> str_contains hostname ''.'' then False
      else (let wildcardDomain = trim_prefix pattern ''*.'' in
        has_suffix hostname (''.'' @ wildcardDomain) \<and>
        length hostname > length (''.'' @ wildcardDomain) \<and>
        \<not> str_contains (trim_suffix hostname (''.'' @ wildcardDomain)) ''.''))"

definition reg_lookup :: "string \<Rightarrow> registry \<Rightarrow> go_error + service" where
  "reg_lookup hostname r = (let normalized = normalizeHostname hostname in
     case map_get r normalized of
       Some s \<Rightarrow> Inr s
     | None \<Rightarrow> (case find (\<lambda>(pattern, s). isWildcardMatch pattern normalized) r of
         Some (_, s) \<Rightarrow> Inr s
       | None \<Rightarrow> Inl (Errorf ''service not found for hostname: %s'' [Str hostname])))"

definition reg_listAll :: "registry \<Rightarrow> service list" where
  "reg_listAll r = map snd r"

text \<open>\<open>ShouldMITM\<close>; a nil registry is \<open>None\<close>.\<close>

definition shouldMITM :: "registry option \<Rightarrow> string \<Rightarrow> bool" where
  "shouldMITM ro hostname = (case ro of None \<Rightarrow> False
     | Some r \<Rightarrow> (case reg_lookup hostname r of Inr _ \<Rightarrow> True | Inl _ \<Rightarrow> False))"

subsection \<open>Lookup\<close>

lemma trim_star: "trim_prefix (CHR ''*'' # CHR ''.'' # d) ''*.'' = d"
  by (simp add: trim_prefix_def cut_prefix_def)

lemma isWildcardMatch_iff:
  "isWildcardMatch pattern h \<longleftrightarrow>
     (\<exists>a d. pattern = ''*.'' @ d \<and> h = a @ CHR ''.'' # d \<and> a \<noteq> '''' \<and> CHR ''.'' \<notin> set a)"
proof
  assume *: "isWildcardMatch pattern h"
  then obtain d where d: "pattern = ''*.'' @ d"
    by (auto simp: isWildcardMatch_def has_prefix_iff split: if_splits)
  with * obtain a where a: "h = a @ ''.'' @ d"
    by (auto simp: isWildcardMatch_def Let_def has_suffix_iff trim_star split: if_splits)
  have "trim_suffix h (''.'' @ d) = a" using a trim_suffix_append [of a "''.'' @ d"] by simp
  then show "\<exists>a d. pattern = ''*.'' @ d \<and> h = a @ CHR ''.'' # d \<and> a \<noteq> '''' \<and> CHR ''.'' \<notin> set a"
    using * a d by (auto simp: isWildcardMatch_def Let_def trim_star split: if_splits)
next
  assume "\<exists>a d. pattern = ''*.'' @ d \<and> h = a @ CHR ''.'' # d \<and> a \<noteq> '''' \<and> CHR ''.'' \<notin> set a"
  then obtain a d where *: "pattern = ''*.'' @ d" "h = a @ ''.'' @ d" "a \<noteq> ''''" "CHR ''.'' \<notin> set a"
    by auto
  have "trim_suffix h (''.'' @ d) = a" "has_suffix h (''.'' @ d)"
    using * trim_suffix_append [of a "''.'' @ d"] has_suffix_append [of a "''.'' @ d"] by simp_all
  then show "isWildcardMatch pattern h"
    using * by (auto simp: isWildcardMatch_def Let_def trim_star split: if_splits)
qed

text \<open>The one wildcard key that can match a name: its first label replaced by a star.\<close>

definition wildcardKey :: "string \<Rightarrow> string option" where
  "wildcardKey h = (case cut_byte (CHR ''.'') h of
     Some (a, d) \<Rightarrow> if a = '''' then None else Some (''*.'' @ d) | None \<Rightarrow> None)"

lemma isWildcardMatch_key: "isWildcardMatch pattern h \<longleftrightarrow> wildcardKey h = Some pattern"
proof -
  have "wildcardKey h = Some pattern \<longleftrightarrow>
      (\<exists>a d. cut_byte (CHR ''.'') h = Some (a, d) \<and> a \<noteq> '''' \<and> pattern = ''*.'' @ d)"
    by (auto simp: wildcardKey_def split: option.splits)
  then show ?thesis by (auto simp: isWildcardMatch_iff cut_byte_Some_iff)
qed

definition lookup_spec :: "string \<Rightarrow> (string \<Rightarrow> service option) \<Rightarrow> service option" where
  "lookup_spec hostname f = (case f (normalizeHostname hostname) of
     Some s \<Rightarrow> Some s
   | None \<Rightarrow> (case wildcardKey (normalizeHostname hostname) of Some k \<Rightarrow> f k | None \<Rightarrow> None))"

lemma find_wildcard:
  assumes "go_map_ok r"
  shows "find (\<lambda>(pattern, s). isWildcardMatch pattern h) r =
    (case wildcardKey h of None \<Rightarrow> None | Some k \<Rightarrow> map_option (Pair k) (map_get r k))"
  using assms
proof (induction r)
  case (Cons e r)
  then show ?case
    by (cases e) (auto simp: isWildcardMatch_key go_map_ok_def split: option.splits)
qed (simp split: option.splits)

lemma reg_lookup_spec:
  assumes "go_map_ok r"
  shows "reg_lookup hostname r = (case lookup_spec hostname (map_get r) of
     Some s \<Rightarrow> Inr s | None \<Rightarrow> Inl (Errorf ''service not found for hostname: %s'' [Str hostname]))"
  by (auto simp: reg_lookup_def lookup_spec_def Let_def find_wildcard [OF assms] split: option.splits)

subsection \<open>The interface\<close>

datatype store_op = Register "service option" | Upsert "service option" | Unregister string

text \<open>The abstract store: a map from registry keys to services.\<close>

fun spec_op :: "store_op \<Rightarrow> (string \<Rightarrow> service option) \<Rightarrow> go_error option \<times> (string \<Rightarrow> service option)" where
  "spec_op (Register None) f = (Some nil_service_error, f)"
| "spec_op (Register (Some s)) f = (case serviceValidate (Some s) of
     Some e \<Rightarrow> (Some e, f)
   | None \<Rightarrow> if f (serviceKey (hostPattern s)) \<noteq> None
       then (Some (ConfigError ''HostPattern'' (Some (Str (serviceKey (hostPattern s))))
               (Some (Errorf ''service for %s already registered'' [Str (serviceKey (hostPattern s))]))), f)
       else (None, f(serviceKey (hostPattern s) \<mapsto> s)))"
| "spec_op (Upsert None) f = (Some nil_service_error, f)"
| "spec_op (Upsert (Some s)) f = (case serviceValidate (Some s) of
     Some e \<Rightarrow> (Some e, f) | None \<Rightarrow> (None, f(serviceKey (hostPattern s) \<mapsto> s)))"
| "spec_op (Unregister h) f = (if f (serviceKey h) = None
     then (Some (Errorf ''no service registered for host pattern: %s'' [Str (serviceKey h)]), f)
     else (None, f(serviceKey h := None)))"

lemma spec_op_error: "spec_op op f = (Some e, g) \<Longrightarrow> g = f"
  by (cases "(op, f)" rule: spec_op.cases) (auto split: option.splits if_splits)

lemma spec_op_slot:
  "spec_op op f = (None, g) \<Longrightarrow> g k = Some s \<Longrightarrow>
   f k = Some s \<or> (op \<in> {Register (Some s), Upsert (Some s)} \<and>
     k = serviceKey (hostPattern s) \<and> serviceValidate (Some s) = None)"
  by (cases "(op, f)" rule: spec_op.cases) (auto split: option.splits if_splits)

text \<open>A sequence of operations, whatever their outcomes.\<close>

fun store_run :: "(store_op \<Rightarrow> 'r \<Rightarrow> go_error option \<times> 'r) \<Rightarrow> store_op list \<Rightarrow> 'r \<Rightarrow> 'r" where
  "store_run exec [] r = r"
| "store_run exec (op # ops) r = store_run exec ops (snd (exec op r))"

locale service_store =
  fixes slot :: "'r \<Rightarrow> string \<Rightarrow> service option"
    and exec :: "store_op \<Rightarrow> 'r \<Rightarrow> go_error option \<times> 'r"
    and look :: "string \<Rightarrow> 'r \<Rightarrow> go_error + service"
    and inv :: "'r \<Rightarrow> bool"
  assumes exec_inv: "inv r \<Longrightarrow> inv (snd (exec op r))"
    and exec_refines: "inv r \<Longrightarrow> exec op r = (e, r') \<Longrightarrow> spec_op op (slot r) = (e, slot r')"
    and look_refines: "inv r \<Longrightarrow> look h r = Inr s \<longleftrightarrow> lookup_spec h (slot r) = Some s"
begin

lemma store_run_inv: "inv r \<Longrightarrow> inv (store_run exec ops r)"
  by (induction ops arbitrary: r) (auto simp: exec_inv)

lemma exec_error_unchanged:
  assumes "inv r" "exec op r = (Some e, r')"
  shows "slot r' = slot r"
  using spec_op_error [OF exec_refines [OF assms]] .

lemma exec_slot:
  assumes "inv r" "exec op r = (None, r')" "slot r' k = Some s"
  shows "slot r k = Some s \<or> (op \<in> {Register (Some s), Upsert (Some s)} \<and>
           k = serviceKey (hostPattern s) \<and> serviceValidate (Some s) = None)"
  using spec_op_slot [OF exec_refines [OF assms(1,2)] assms(3)] .

lemma slot_provenance:
  "inv r \<Longrightarrow> slot (store_run exec ops r) k = Some s \<Longrightarrow>
   slot r k = Some s \<or> (set ops \<inter> {Register (Some s), Upsert (Some s)} \<noteq> {} \<and>
     k = serviceKey (hostPattern s) \<and> serviceValidate (Some s) = None)"
proof (induction ops arbitrary: r)
  case (Cons op ops)
  obtain e r' where r': "exec op r = (e, r')" by fastforce
  have "inv r'" using exec_inv [OF Cons.prems(1), of op] r' by simp
  from Cons.IH [OF this] Cons.prems(2) r' show ?case
    using exec_error_unchanged [OF Cons.prems(1), of op _ r'] exec_slot [OF Cons.prems(1), of op r' k s]
    by (cases e) auto
qed simp

lemma upsert_slot:
  "inv r \<Longrightarrow> exec (Upsert (Some s)) r = (None, r') \<Longrightarrow> slot r' = (slot r)(serviceKey (hostPattern s) \<mapsto> s)"
  using exec_refines [of r "Upsert (Some s)" None r'] by (auto split: option.splits)

lemma upsert_look:
  assumes "inv r" "exec (Upsert (Some s)) r = (None, r')" "normalizeHostname h = serviceKey (hostPattern s)"
  shows "look h r' = Inr s"
proof -
  have "inv r'" using exec_inv [OF assms(1), of "Upsert (Some s)"] assms(2) by simp
  then show ?thesis using upsert_slot [OF assms(1,2)] assms(3) by (simp add: look_refines lookup_spec_def)
qed

lemma unregister_slot:
  "inv r \<Longrightarrow> exec (Unregister h) r = (None, r') \<Longrightarrow> slot r' = (slot r)(serviceKey h := None)"
  using exec_refines [of r "Unregister h" None r'] by (auto split: if_splits)

lemma unregister_look:
  assumes "inv r" "exec (Unregister h) r = (None, r')" "look n r' = Inr s"
  shows "\<exists>k \<noteq> serviceKey h. slot r k = Some s"
proof -
  have "inv r'" using exec_inv [OF assms(1), of "Unregister h"] assms(2) by simp
  then have "lookup_spec n (slot r') = Some s" using assms(3) by (simp add: look_refines)
  then show ?thesis using unregister_slot [OF assms(1,2)]
    by (auto simp: lookup_spec_def split: option.splits if_splits)
qed

lemma look_is_slot:
  "inv r \<Longrightarrow> look h r = Inr s \<Longrightarrow>
   slot r (normalizeHostname h) = Some s \<or>
   (\<exists>k. wildcardKey (normalizeHostname h) = Some k \<and> slot r k = Some s)"
  by (auto simp: look_refines lookup_spec_def split: option.splits)

end

definition reg_exec :: "store_op \<Rightarrow> registry \<Rightarrow> go_error option \<times> registry" where
  "reg_exec op r = (case op of Register s \<Rightarrow> reg_register s r | Upsert s \<Rightarrow> reg_upsert s r
     | Unregister h \<Rightarrow> reg_unregister h r)"

text \<open>The registry's invariant: one entry per key, under the key of its own host pattern, and
  every entry validated.\<close>

definition registry_ok :: "registry \<Rightarrow> bool" where
  "registry_ok r \<longleftrightarrow> go_map_ok r \<and>
     list_all (\<lambda>(k, s). k = serviceKey (hostPattern s) \<and> serviceValidate (Some s) = None) r"

lemma registry_ok_get:
  "registry_ok r \<Longrightarrow> map_get r k = Some s \<Longrightarrow> k = serviceKey (hostPattern s) \<and> serviceValidate (Some s) = None"
  by (auto simp: registry_ok_def list_all_iff dest!: map_of_SomeD)

lemma registry_ok_put:
  "registry_ok r \<Longrightarrow> serviceValidate (Some s) = None \<Longrightarrow> registry_ok (map_put (serviceKey (hostPattern s)) s r)"
  by (auto simp: registry_ok_def list_all_iff map_put_entries)

lemma registry_ok_del: "registry_ok r \<Longrightarrow> registry_ok (map_del k r)"
  by (auto simp: registry_ok_def list_all_iff map_del_entries)

lemma registry_ok_new: "registry_ok newRegistry"
  by (simp add: registry_ok_def newRegistry_def)

lemmas reg_op_defs = reg_exec_def reg_register_def reg_upsert_def reg_unregister_def Let_def

lemma reg_exec_ok: "registry_ok r \<Longrightarrow> registry_ok (snd (reg_exec op r))"
  by (auto simp: reg_op_defs registry_ok_put registry_ok_del split: store_op.splits option.splits)

lemma reg_exec_refines:
  "reg_exec op r = (e, r') \<Longrightarrow> spec_op op (map_get r) = (e, map_get r')"
  by (cases "(op, map_get r)" rule: spec_op.cases)
    (auto simp: reg_op_defs fun_eq_iff split: option.splits if_splits)

interpretation reg: service_store map_get reg_exec reg_lookup registry_ok
proof
  fix r :: registry and h s
  assume "registry_ok r"
  then show "reg_lookup h r = Inr s \<longleftrightarrow> lookup_spec h (map_get r) = Some s"
    by (auto simp: registry_ok_def reg_lookup_spec split: option.splits)
qed (auto simp: reg_exec_ok reg_exec_refines)

subsection \<open>Keys and names\<close>

lemma set_trim_space: "set (trim_space s) \<subseteq> set s"
  using trim_space_infix [of s] by (metis Un_iff set_append subsetI)

lemma serviceKey_idem: "is_ascii h \<Longrightarrow> serviceKey (serviceKey h) = serviceKey h"
  by (simp add: serviceKey_def trim_space_to_lower is_ascii_trim_space trim_space_trimmed to_lower_idem)

lemma normalizeHostname_no_colon: "CHR '':'' \<notin> set h \<Longrightarrow> normalizeHostname h = serviceKey h"
proof -
  assume "CHR '':'' \<notin> set h"
  then have "CHR '':'' \<notin> set (trim_space h)" using set_trim_space [of h] by blast
  then show ?thesis
    by (simp add: normalizeHostname_def serviceKey_def Let_def split_host_port_no_colon)
qed

lemma normalizeHostname_port:
  "plain_host h \<Longrightarrow> plain_host p \<Longrightarrow> is_trimmed (h @ CHR '':'' # p) \<Longrightarrow>
   normalizeHostname (h @ CHR '':'' # p) = to_lower h"
  by (simp add: normalizeHostname_def trim_space_fixed split_host_port_plain)

lemma wildcardKey_chars: "wildcardKey h = Some k \<Longrightarrow> set k \<subseteq> insert (CHR ''*'') (set h)"
  by (auto simp: wildcardKey_def cut_byte_Some_iff split: option.splits if_splits)

lemma lookup_spec_colon_key:
  assumes "CHR '':'' \<in> set k" "CHR '':'' \<notin> set (normalizeHostname n)"
  shows "lookup_spec n (f(k \<mapsto> s)) = lookup_spec n f"
proof -
  have "normalizeHostname n \<noteq> k" using assms by blast
  moreover have "wildcardKey (normalizeHostname n) \<noteq> Some k"
    using assms wildcardKey_chars [of "normalizeHostname n" k] by auto
  ultimately show ?thesis by (auto simp: lookup_spec_def split: option.splits)
qed

lemma lower_byte_colon [simp]: "lower_byte c = CHR '':'' \<longleftrightarrow> c = CHR '':''"
  by (rule lower_byte_eq_iff) (auto simp: is_upper_byte_def is_lower_byte_def of_char_le_iff)

lemma colon_in_lower: "is_ascii s \<Longrightarrow> CHR '':'' \<in> set (to_lower s) \<longleftrightarrow> CHR '':'' \<in> set s"
  by (force simp: to_lower_ascii image_iff eq_commute [of "CHR '':''"])

lemma canonicalAuthRef_idem: "canonicalAuthRef (canonicalAuthRef a n) n = canonicalAuthRef a n"
  by (auto simp: canonicalAuthRef_def headerPrefix_def)

lemma headerNameFromRef_canonical: "n \<noteq> '''' \<Longrightarrow> headerNameFromRef (canonicalAuthRef ''header'' n) = (n, True)"
  by (simp add: headerNameFromRef_def canonicalAuthRef_def headerPrefix_def cut_prefix_def has_prefix_def)

subsection \<open>Properties of the registry\<close>

definition demo_service :: service where
  "demo_service = \<lparr>svcName = ''demo'', hostPattern = ''*.Example.com'', authStrategyRef = ''bearer'',
     headerName = '''', credentialRef = ''env:KEY'', placeholder = '''', svcPolicy = None\<rparr>"

text \<open>lookup does not depend on map iteration order. Whatever order the wildcard loop visits the
  map in, the answer is the service under the exact normalized name, else the service under
  the one wildcard key the name can match (its first label replaced by a star), else an error.\<close>

theorem lookup_is_deterministic:
  assumes "go_map_ok r" "go_map_ok r'" "set r = set r'"
  shows "reg_lookup h r = reg_lookup h r' \<and>
    reg_lookup h r = (case lookup_spec h (map_get r) of
       Some s \<Rightarrow> Inr s | None \<Rightarrow> Inl (Errorf ''service not found for hostname: %s'' [Str h]))"
  using map_get_cong_set [OF assms] by (simp add: reg_lookup_spec assms)

theorem lookup_is_deterministic_witness:
  "reg_lookup ''API.example.com:443'' [(''*.example.com'', demo_service), (''x'', demo_service)] = Inr demo_service \<and>
   reg_lookup ''API.example.com:443'' [(''x'', demo_service), (''*.example.com'', demo_service)] =
   reg_lookup ''API.example.com:443'' [(''*.example.com'', demo_service), (''x'', demo_service)]"
proof
  show "reg_lookup ''API.example.com:443'' [(''*.example.com'', demo_service), (''x'', demo_service)] = Inr demo_service"
    by code_simp
  show "reg_lookup ''API.example.com:443'' [(''x'', demo_service), (''*.example.com'', demo_service)] =
   reg_lookup ''API.example.com:443'' [(''*.example.com'', demo_service), (''x'', demo_service)]"
    by (rule lookup_is_deterministic [THEN conjunct1]) (auto simp: go_map_ok_def)
qed

text \<open>C12: the registry refines an abstract map. After any sequence of Register, Upsert and Unregister
  calls from the empty registry, failing calls included, every key is present once, every
  entry is validated and stored under the key of its own host pattern, and it got there by a
  Register or Upsert of exactly that service; each call changes the map as its specification
  says and a failing call changes nothing.\<close>

theorem registry_refines_map:
  "registry_ok (store_run reg_exec ops newRegistry) \<and>
   (\<forall>k s. map_get (store_run reg_exec ops newRegistry) k = Some s \<longrightarrow>
      set ops \<inter> {Register (Some s), Upsert (Some s)} \<noteq> {} \<and> k = serviceKey (hostPattern s)) \<and>
   (\<forall>op e r'. reg_exec op (store_run reg_exec ops newRegistry) = (e, r') \<longrightarrow>
      spec_op op (map_get (store_run reg_exec ops newRegistry)) = (e, map_get r') \<and>
      (e \<noteq> None \<longrightarrow> map_get r' = map_get (store_run reg_exec ops newRegistry)))"
proof (intro conjI allI impI)
  show ok: "registry_ok (store_run reg_exec ops newRegistry)"
    by (rule reg.store_run_inv [OF registry_ok_new])
  have new: "map_get newRegistry k \<noteq> Some s" for k s by (simp add: newRegistry_def)
  fix k s assume "map_get (store_run reg_exec ops newRegistry) k = Some s"
  from reg.slot_provenance [OF registry_ok_new this] new
  show "set ops \<inter> {Register (Some s), Upsert (Some s)} \<noteq> {}" "k = serviceKey (hostPattern s)"
    by simp_all
next
  fix op e r' assume *: "reg_exec op (store_run reg_exec ops newRegistry) = (e, r')"
  note ok = reg.store_run_inv [OF registry_ok_new, of ops]
  show "spec_op op (map_get (store_run reg_exec ops newRegistry)) = (e, map_get r')"
    by (rule reg.exec_refines [OF ok *])
  show "map_get r' = map_get (store_run reg_exec ops newRegistry)" if "e \<noteq> None"
    using that * reg.exec_error_unchanged [OF ok, of op _ r'] by auto
qed

theorem registry_refines_map_witness:
  "map_get (store_run reg_exec [Upsert (Some demo_service), Unregister ''other''] newRegistry) ''*.example.com'' =
     Some demo_service \<and>
   set [Upsert (Some demo_service), Unregister ''other''] \<inter>
     {Register (Some demo_service), Upsert (Some demo_service)} \<noteq> {}"
proof -
  have *: "map_get (store_run reg_exec [Upsert (Some demo_service), Unregister ''other''] newRegistry) ''*.example.com'' =
     Some demo_service" by code_simp
  then show ?thesis
    using registry_refines_map [of "[Upsert (Some demo_service), Unregister ''other'']"] by blast
qed

text \<open>what is upserted is found and what is unregistered is gone. After a successful Upsert, a
  lookup of any name that normalizes to the service's key (case, surrounding space and port
  are irrelevant) returns that service; after a successful Unregister no lookup returns a
  service that was stored under the removed key only.\<close>

theorem upsert_then_lookup:
  assumes "registry_ok r" "reg_upsert (Some s) r = (None, r')"
  shows "(normalizeHostname h = serviceKey (hostPattern s) \<longrightarrow> reg_lookup h r' = Inr s) \<and>
    (reg_unregister (hostPattern s) r' = (None, r'') \<longrightarrow> reg_lookup h r'' = Inr s' \<longrightarrow>
       (\<exists>k \<noteq> serviceKey (hostPattern s). map_get r k = Some s'))"
proof (intro conjI impI)
  have up: "reg_exec (Upsert (Some s)) r = (None, r')" using assms(2) by (simp add: reg_exec_def)
  assume "normalizeHostname h = serviceKey (hostPattern s)"
  then show "reg_lookup h r' = Inr s" using reg.upsert_look [OF assms(1) up] by blast
next
  have up: "reg_exec (Upsert (Some s)) r = (None, r')" using assms(2) by (simp add: reg_exec_def)
  have ok: "registry_ok r'" using reg.exec_inv [OF assms(1), of "Upsert (Some s)"] up by simp
  assume "reg_unregister (hostPattern s) r' = (None, r'')" "reg_lookup h r'' = Inr s'"
  then obtain k where "k \<noteq> serviceKey (hostPattern s)" "map_get r' k = Some s'"
    using reg.unregister_look [OF ok, of "hostPattern s" r''] by (auto simp: reg_exec_def)
  then show "\<exists>k \<noteq> serviceKey (hostPattern s). map_get r k = Some s'"
    using reg.upsert_slot [OF assms(1) up] by auto
qed

theorem upsert_then_lookup_witness:
  "reg_lookup '' *.EXAMPLE.com:8443 '' [(''*.example.com'', demo_service)] = Inr demo_service"
  by (rule upsert_then_lookup [THEN conjunct1, rule_format, of "[]"]) code_simp+

text \<open>a host pattern written with a port is accepted but never matched. Registering
  \<open>host:port\<close> succeeds, yet the entry changes no lookup of a name that normalizes to a
  colon-free host, in particular not the lookup of that very \<open>host:port\<close>: lookups strip the
  port, keys keep it.\<close>

theorem port_pattern_is_dead:
  assumes "registry_ok r" "reg_upsert (Some s) r = (None, r')" "hostPattern s = h @ CHR '':'' # p"
    and "plain_host h" "plain_host p" "is_ascii (hostPattern s)" "is_trimmed (hostPattern s)"
  shows "reg_lookup (hostPattern s) r' = reg_lookup (hostPattern s) r \<and> reg_lookup h r' = reg_lookup h r"
proof -
  have up: "reg_exec (Upsert (Some s)) r = (None, r')" using assms(2) by (simp add: reg_exec_def)
  have ok: "registry_ok r'" using reg.exec_inv [OF assms(1), of "Upsert (Some s)"] up by simp
  have key: "CHR '':'' \<in> set (serviceKey (hostPattern s))"
    using assms(3,6,7) by (simp add: serviceKey_def trim_space_fixed colon_in_lower)
  have h: "CHR '':'' \<notin> set (to_lower h)" "CHR '':'' \<notin> set h" "is_ascii h"
    using assms(3,4,6) by (auto simp: plain_host_def colon_in_lower)
  then have h': "CHR '':'' \<notin> set (normalizeHostname h)"
    using set_trim_space [of h] is_ascii_trim_space [of h]
    by (auto simp: normalizeHostname_no_colon serviceKey_def colon_in_lower)
  have "normalizeHostname (hostPattern s) = to_lower h"
    using assms(3-5,7) by (simp add: normalizeHostname_port)
  then show ?thesis
    using lookup_spec_colon_key [OF key, of "hostPattern s" "map_get r" s] h h'
      lookup_spec_colon_key [OF key h', of "map_get r" s] reg.upsert_slot [OF assms(1) up] assms(1) ok
    by (simp add: registry_ok_def reg_lookup_spec)
qed

theorem port_pattern_is_dead_witness:
  "\<exists>e. reg_lookup ''example.com:8080'' [(''example.com:8080'', demo_service\<lparr>hostPattern := ''example.com:8080''\<rparr>)] = Inl e"
proof -
  have "reg_lookup ''example.com:8080'' [(''example.com:8080'', demo_service\<lparr>hostPattern := ''example.com:8080''\<rparr>)] =
    reg_lookup ''example.com:8080'' []"
    using port_pattern_is_dead [of "[]" "demo_service\<lparr>hostPattern := ''example.com:8080''\<rparr>" _ "''example.com''" "''8080''"]
    by code_simp
  also have "\<dots> = Inl (Errorf ''service not found for hostname: %s'' [Str ''example.com:8080''])" by code_simp
  finally show ?thesis by blast
qed

end
