(* ===== verification/Filetrust.thy ===== *)
theory Filetrust
  imports Errors "HOL-Library.Word"
begin

unbundle bit_operations_syntax

text \<open>
  \<open>internal/filetrust/filetrust.go\<close>: the decision whether a local file may be used, and the
  open-stat-verify-read sequence. The file system is a parameter: \<open>os_open\<close> gives the handle a
  path opens to, and what \<open>Stat\<close> and \<open>ReadAll\<close> return belongs to the handle, so the file that
  is verified is the file that is read. Modes are 32-bit words as in \<open>io/fs\<close>.
\<close>

record bar =
  bar_forbidden :: "32 word"
  bar_violation :: string
  bar_fix :: string

definition noUntrustedWrites :: bar where
  "noUntrustedWrites = \<lparr>bar_forbidden = 0x12, bar_violation = ''writable by group or others'', bar_fix = ''go-w''\<rparr>"

definition ownerOnly :: bar where
  "ownerOnly = \<lparr>bar_forbidden = 0x3F, bar_violation = ''readable or writable by group or others'',
     bar_fix = ''go-rwx''\<rparr>"

record trust_file =
  tf_desc :: string
  tf_stakes :: string
  tf_bar :: bar

text \<open>\<open>os.FileInfo\<close>: the mode word and, where \<open>Sys\<close> is a \<open>Stat_t\<close>, the owner.\<close>

record file_info =
  fi_mode :: "32 word"
  fi_owner :: "int option"

record file_handle =
  fh_stat :: "go_error + file_info"
  fh_data :: "go_error + string"

text \<open>\<open>fs.ModeType\<close> and \<open>fs.ModePerm\<close>.\<close>

definition mode_type :: "32 word" where "mode_type = 0x8F280000"

definition mode_perm :: "32 word" where "mode_perm = 0x1FF"

definition isRegular :: "file_info \<Rightarrow> bool" where
  "isRegular fi \<longleftrightarrow> fi_mode fi AND mode_type = 0"

definition perm :: "file_info \<Rightarrow> 32 word" where
  "perm fi = fi_mode fi AND mode_perm"

definition em_dash :: string where
  "em_dash = [CHR 0xE2, CHR 0x80, CHR 0x94]"

definition verify :: "trust_file \<Rightarrow> file_info \<Rightarrow> int \<Rightarrow> string \<Rightarrow> go_error option" where
  "verify f fi uid path =
     (if bar_forbidden (tf_bar f) = 0
        then Some (Errorf ''%s %s: no trust bar configured; refusing to load'' [Str (tf_desc f), Str path])
      else if \<not> isRegular fi
        then Some (Errorf ''%s %s is not a regular file (mode %s); refusing to load''
               [Str (tf_desc f), Str path, Num (uint (fi_mode fi))])
      else if perm fi AND bar_forbidden (tf_bar f) \<noteq> 0
        then Some (Errorf (''%s %s is %s (mode %04o): %s '' @ em_dash @ '' fix with: chmod %s %s'')
               [Str (tf_desc f), Str path, Str (bar_violation (tf_bar f)), Num (uint (perm fi)),
                Str (tf_stakes f), Str (bar_fix (tf_bar f)), Str path])
      else case fi_owner fi of
        None \<Rightarrow> Some (Errorf ''%s %s: cannot determine file owner on this platform; refusing to load''
               [Str (tf_desc f), Str path])
      | Some owner \<Rightarrow>
          if owner \<noteq> uid
            then Some (Errorf (''%s %s is owned by uid %d but chaperone is running as uid %d: refusing to load a file another user controls ''
                   @ em_dash @ '' fix with: chown %d %s'')
                 [Str (tf_desc f), Str path, Num owner, Num uid, Num uid, Str path])
          else None)"

definition readFile ::
  "(string \<Rightarrow> go_error + file_handle) \<Rightarrow> int \<Rightarrow> trust_file \<Rightarrow> string \<Rightarrow> go_error + string" where
  "readFile os_open uid f path = (case os_open path of
     Inl err \<Rightarrow> Inl (Wrapf ''failed to open %s: %w'' [Str (tf_desc f)] err)
   | Inr file \<Rightarrow> (case fh_stat file of
       Inl err \<Rightarrow> Inl (Wrapf ''failed to stat %s %s: %w'' [Str (tf_desc f), Str path] err)
     | Inr fi \<Rightarrow> (case verify f fi uid path of
         Some err \<Rightarrow> Inl err
       | None \<Rightarrow> (case fh_data file of
           Inl err \<Rightarrow> Inl (Wrapf ''failed to read %s %s: %w'' [Str (tf_desc f), Str path] err)
         | Inr data \<Rightarrow> Inr data))))"

subsection \<open>What is trusted\<close>

text \<open>A file another local user could have written, and under \<open>ownerOnly\<close> read.\<close>

definition group_other_bits :: "32 word \<Rightarrow> nat set \<Rightarrow> bool" where
  "group_other_bits mode bits \<longleftrightarrow> (\<exists>i \<in> bits. bit mode i)"

lemma bit_0x12: "bit (0x12 :: 32 word) i \<longleftrightarrow> i = 1 \<or> i = 4"
proof -
  have "bit (push_bit 1 1 OR push_bit 4 1 :: 32 word) i \<longleftrightarrow> i = 1 \<or> i = 4"
    by (auto simp only: bit_or_iff bit_push_bit_iff bit_1_iff possible_bit_word) simp_all
  moreover have "(push_bit 1 1 OR push_bit 4 1 :: 32 word) = 0x12" by simp
  ultimately show ?thesis by (simp only:)
qed

lemma bit_0x3F: "bit (0x3F :: 32 word) i \<longleftrightarrow> i < 6"
proof -
  have "bit (mask 6 :: 32 word) i \<longleftrightarrow> i < 6" by (auto simp: bit_mask_iff)
  moreover have "(mask 6 :: 32 word) = 0x3F" by (simp add: mask_eq_exp_minus_1)
  ultimately show ?thesis by (simp only:)
qed

lemma bit_0x1FF: "bit (0x1FF :: 32 word) i \<longleftrightarrow> i < 9"
proof -
  have "bit (mask 9 :: 32 word) i \<longleftrightarrow> i < 9" by (auto simp: bit_mask_iff)
  moreover have "(mask 9 :: 32 word) = 0x1FF" by (simp add: mask_eq_exp_minus_1)
  ultimately show ?thesis by (simp only:)
qed

lemma word32_zero_iff: "(w :: 32 word) = 0 \<longleftrightarrow> (\<forall>n. \<not> bit w n)"
  by (metis bit_0_eq bit_eq_iff bot_apply bot_bool_def)

lemma bit_perm_and: "bit (perm fi AND m) n \<longleftrightarrow> bit (fi_mode fi) n \<and> n < 9 \<and> bit m n"
  by (auto simp: perm_def mode_perm_def bit_and_iff bit_0x1FF simp del: bit_numeral_word_iff)

lemma perm_writes: "perm fi AND 0x12 = 0 \<longleftrightarrow> \<not> group_other_bits (fi_mode fi) {1, 4}"
proof
  assume "perm fi AND 0x12 = 0"
  then have *: "\<forall>n. \<not> (bit (fi_mode fi) n \<and> n < 9 \<and> (n = 1 \<or> n = 4))"
    unfolding word32_zero_iff bit_perm_and bit_0x12 .
  have "\<not> bit (fi_mode fi) n" if "n = 1 \<or> n = 4" for n using that *[rule_format, of n] by auto
  then show "\<not> group_other_bits (fi_mode fi) {1, 4}" by (auto simp: group_other_bits_def)
next
  assume "\<not> group_other_bits (fi_mode fi) {1, 4}"
  then show "perm fi AND 0x12 = 0"
    unfolding word32_zero_iff bit_perm_and bit_0x12 by (auto simp: group_other_bits_def)
qed

lemma perm_access: "perm fi AND 0x3F = 0 \<longleftrightarrow> \<not> group_other_bits (fi_mode fi) {0..5}"
proof
  assume "perm fi AND 0x3F = 0"
  then have *: "\<forall>n. \<not> (bit (fi_mode fi) n \<and> n < 9 \<and> (n < 6))"
    unfolding word32_zero_iff bit_perm_and bit_0x3F .
  have "\<not> bit (fi_mode fi) n" if "n < 6" for n using that *[rule_format, of n] by auto
  then show "\<not> group_other_bits (fi_mode fi) {0..5}" by (auto simp: group_other_bits_def)
next
  assume "\<not> group_other_bits (fi_mode fi) {0..5}"
  then show "perm fi AND 0x3F = 0"
    unfolding word32_zero_iff bit_perm_and bit_0x3F by (auto simp: group_other_bits_def)
qed

definition trusted :: "trust_file \<Rightarrow> file_info \<Rightarrow> int \<Rightarrow> bool" where
  "trusted f fi uid \<longleftrightarrow> bar_forbidden (tf_bar f) \<noteq> 0 \<and> isRegular fi \<and>
     perm fi AND bar_forbidden (tf_bar f) = 0 \<and> fi_owner fi = Some uid"

lemma verify_None_iff: "verify f fi uid path = None \<longleftrightarrow> trusted f fi uid"
  by (auto simp: verify_def trusted_def split: option.splits)

lemma readFile_Inr_iff:
  "readFile os_open uid f path = Inr data \<longleftrightarrow>
     (\<exists>file fi. os_open path = Inr file \<and> fh_stat file = Inr fi \<and> trusted f fi uid \<and> fh_data file = Inr data)"
  by (auto simp: readFile_def verify_None_iff [of f _ uid path, symmetric] split: sum.splits option.splits)

lemma verify_not_sentinel: "verify f fi uid path = Some e \<Longrightarrow> \<not> errors_is e t"
  by (auto simp: verify_def split: option.splits if_splits)

text \<open>C25: a protected file is read only if nobody else could have touched it. Under \<open>OwnerOnly\<close>
  \<open>ReadFile\<close> returns bytes exactly when the very handle it opened is a regular file with none
  of the six group and other permission bits, owned by the running user; under
  \<open>NoUntrustedWrites\<close> the two write bits are excluded; the zero bar reads nothing.\<close>

theorem protected_read_iff:
  "(readFile os_open uid (f\<lparr>tf_bar := ownerOnly\<rparr>) path = Inr data \<longleftrightarrow>
     (\<exists>h fi. os_open path = Inr h \<and> fh_stat h = Inr fi \<and> fh_data h = Inr data \<and> isRegular fi \<and>
        \<not> group_other_bits (fi_mode fi) {0..5} \<and> fi_owner fi = Some uid)) \<and>
   (readFile os_open uid (f\<lparr>tf_bar := noUntrustedWrites\<rparr>) path = Inr data \<longleftrightarrow>
     (\<exists>h fi. os_open path = Inr h \<and> fh_stat h = Inr fi \<and> fh_data h = Inr data \<and> isRegular fi \<and>
        \<not> group_other_bits (fi_mode fi) {1, 4} \<and> fi_owner fi = Some uid)) \<and>
   (bar_forbidden b = 0 \<longrightarrow> readFile os_open uid (f\<lparr>tf_bar := b\<rparr>) path \<noteq> Inr data)"
  unfolding readFile_Inr_iff trusted_def
  by (auto simp: perm_access perm_writes ownerOnly_def noUntrustedWrites_def)

definition demo_handle :: "32 word \<Rightarrow> file_handle" where
  "demo_handle mode = \<lparr>fh_stat = Inr \<lparr>fi_mode = mode, fi_owner = Some 501\<rparr>, fh_data = Inr ''s3cret''\<rparr>"

definition demo_file :: trust_file where
  "demo_file = \<lparr>tf_desc = ''secret file'', tf_stakes = ''x'', tf_bar = ownerOnly\<rparr>"

theorem protected_read_iff_witness:
  "readFile (\<lambda>_. Inr (demo_handle 0x180)) 501 (demo_file\<lparr>tf_bar := ownerOnly\<rparr>) ''k'' = Inr ''s3cret'' \<and>
   readFile (\<lambda>_. Inr (demo_handle 0x1A0)) 501 (demo_file\<lparr>tf_bar := ownerOnly\<rparr>) ''k'' \<noteq> Inr ''s3cret'' \<and>
   readFile (\<lambda>_. Inr (demo_handle 0x180)) 501
     (demo_file\<lparr>tf_bar := \<lparr>bar_forbidden = 0, bar_violation = '''', bar_fix = ''''\<rparr>\<rparr>) ''k'' \<noteq> Inr ''s3cret''"
proof (intro conjI)
  show "readFile (\<lambda>_. Inr (demo_handle 0x180)) 501 (demo_file\<lparr>tf_bar := ownerOnly\<rparr>) ''k'' = Inr ''s3cret''"
    by (simp add: readFile_def demo_handle_def verify_def ownerOnly_def isRegular_def mode_type_def perm_def mode_perm_def)
  show "readFile (\<lambda>_. Inr (demo_handle 0x1A0)) 501 (demo_file\<lparr>tf_bar := ownerOnly\<rparr>) ''k'' \<noteq> Inr ''s3cret''"
    by (simp add: readFile_def demo_handle_def verify_def ownerOnly_def isRegular_def mode_type_def perm_def mode_perm_def)
  show "readFile (\<lambda>_. Inr (demo_handle 0x180)) 501
     (demo_file\<lparr>tf_bar := \<lparr>bar_forbidden = 0, bar_violation = '''', bar_fix = ''''\<rparr>\<rparr>) ''k'' \<noteq> Inr ''s3cret''"
    by (rule protected_read_iff [THEN conjunct2, THEN conjunct2, rule_format]) simp
qed

end
