(* ===== verification/Secrets.thy ===== *)
theory Secrets
  imports Filetrust
begin

text \<open>
  \<open>internal/secrets\<close>: the three built-in providers (\<open>env.go\<close>, \<open>file.go\<close>, \<open>keychain.go\<close>), the
  table of built-in schemes (\<open>builtin.go\<close>) and the registry that resolves, normalizes and
  caches secrets (\<open>registry.go\<close>).

  The operating system is a parameter, the record \<open>os\<close>: the environment, the file system, the
  user id, the platform and the macOS \<open>security\<close> tool (output and error of one call). A
  context is the error it was cancelled with, \<open>None\<close> while it is live. Calls are atomic steps:
  two concurrent first fetches of one reference may both reach the provider, and each leaves
  the cache as some sequential order would.
\<close>

record os =
  os_env :: "string \<Rightarrow> string option"
  os_open :: "string \<Rightarrow> go_error + file_handle"
  os_uid :: int
  os_goos :: string
  os_security :: "string \<Rightarrow> string \<Rightarrow> string \<times> go_error option"

type_synonym go_ctx = "go_error option"

subsection \<open>Providers\<close>

definition envFetch :: "os \<Rightarrow> go_ctx \<Rightarrow> string \<Rightarrow> go_error + string" where
  "envFetch os ctx path = (case ctx of Some e \<Rightarrow> Inl e | None \<Rightarrow>
     if path = '''' then Inl (Errorf ''empty environment variable name'' [])
     else case os_env os path of
       None \<Rightarrow> Inl (Sentinel ErrSecretNotFound)
     | Some value \<Rightarrow> Inr value)"

definition secretFileTrust :: trust_file where
  "secretFileTrust = \<lparr>tf_desc = ''secret file'',
     tf_stakes = ''any other local user could read the credential value or replace it'',
     tf_bar = ownerOnly\<rparr>"

definition fileFetch :: "os \<Rightarrow> go_ctx \<Rightarrow> string \<Rightarrow> go_error + string" where
  "fileFetch os ctx path = (case ctx of Some e \<Rightarrow> Inl e | None \<Rightarrow>
     if path = '''' then Inl (Errorf ''empty file path'' [])
     else case readFile (os_open os) (os_uid os) secretFileTrust path of
       Inl err \<Rightarrow> if errors_is err ErrNotExist then Inl (Sentinel ErrSecretNotFound) else Inl err
     | Inr content \<Rightarrow> Inr content)"

definition parseKeychainPath :: "string \<Rightarrow> go_error + string \<times> string" where
  "parseKeychainPath path =
     (if path = '''' then Inl (Errorf ''empty keychain path'' [])
      else case index_byte (CHR ''/'') path of
        None \<Rightarrow> Inl (Errorf ''invalid keychain path format: missing slash separator (expected 'service/account')'' [])
      | Some i \<Rightarrow>
          (let service = take i path; account = drop (i + 1) path in
           if service = '''' then Inl (Errorf ''invalid keychain path format: empty service (expected 'service/account')'' [])
           else if account = '''' then Inl (Errorf ''invalid keychain path format: empty account (expected 'service/account')'' [])
           else Inr (service, account)))"

definition keychainFetch :: "os \<Rightarrow> go_ctx \<Rightarrow> string \<Rightarrow> go_error + string" where
  "keychainFetch os ctx path = (case ctx of Some e \<Rightarrow> Inl e | None \<Rightarrow>
     if os_goos os \<noteq> ''darwin''
       then Inl (Errorf ''keychain provider only works on macOS (current platform: %s)'' [Str (os_goos os)])
     else case parseKeychainPath path of
       Inl err \<Rightarrow> Inl err
     | Inr (service, account) \<Rightarrow>
         (case os_security os service account of
            (output, None) \<Rightarrow> Inr output
          | (output, Some err) \<Rightarrow>
              if str_contains output ''could not be found'' then Inl (Sentinel ErrSecretNotFound)
              else Inl (Wrapf ''failed to fetch from keychain: %w (output: %s)'' [Str (trim_space output)] err)))"

datatype provider = EnvProvider | FileProvider | KeychainProvider

definition providerFetch :: "provider \<Rightarrow> os \<Rightarrow> go_ctx \<Rightarrow> string \<Rightarrow> go_error + string" where
  "providerFetch p = (case p of EnvProvider \<Rightarrow> envFetch | FileProvider \<Rightarrow> fileFetch
     | KeychainProvider \<Rightarrow> keychainFetch)"

definition builtinProviders :: "(string, provider) gomap" where
  "builtinProviders = [(''env'', EnvProvider), (''file'', FileProvider), (''keychain'', KeychainProvider)]"

definition isKnownScheme :: "string \<Rightarrow> bool" where
  "isKnownScheme ref = (case cut_byte (CHR '':'') ref of
     None \<Rightarrow> False | Some (name, _) \<Rightarrow> map_get builtinProviders name \<noteq> None)"

subsection \<open>The registry\<close>

record secret_registry =
  sr_providers :: "(string, provider) gomap"
  sr_cache :: "(string, string) gomap"

definition newSecretRegistry :: secret_registry where
  "newSecretRegistry = \<lparr>sr_providers = [], sr_cache = []\<rparr>"

definition secretRegister :: "string \<Rightarrow> provider \<Rightarrow> secret_registry \<Rightarrow> secret_registry" where
  "secretRegister name p s = s\<lparr>sr_providers := map_put name p (sr_providers s)\<rparr>"

definition registerBuiltins :: "secret_registry \<Rightarrow> secret_registry" where
  "registerBuiltins s = foldl (\<lambda>s (name, p). secretRegister name p s) s builtinProviders"

text \<open>What \<open>Fetch\<close> does with a provider's answer: trim, refuse an empty value, cache.\<close>

definition acceptSecret ::
  "string \<Rightarrow> go_error + string \<Rightarrow> secret_registry \<Rightarrow> (go_error + string) \<times> secret_registry" where
  "acceptSecret ref res s = (case res of
     Inl err \<Rightarrow> (Inl err, s)
   | Inr v \<Rightarrow> (let secret = trim_space v in
       if secret = ''''
       then (Inl (Wrapf ''secret %s resolved to an empty value: %w'' [Str ref] (Sentinel ErrSecretNotFound)), s)
       else (Inr secret, s\<lparr>sr_cache := map_put ref secret (sr_cache s)\<rparr>)))"

definition secretFetch ::
  "os \<Rightarrow> go_ctx \<Rightarrow> string \<Rightarrow> secret_registry \<Rightarrow> (go_error + string) \<times> secret_registry" where
  "secretFetch os ctx ref s =
     (if ref = '''' then (Inl (Errorf ''empty secret reference'' []), s)
      else case map_get (sr_cache s) ref of
        Some cached \<Rightarrow> (Inr cached, s)
      | None \<Rightarrow> (case index_byte (CHR '':'') ref of
          None \<Rightarrow> (Inl (Errorf ''invalid secret reference format: missing colon separator (expected 'provider:path')'' []), s)
        | Some i \<Rightarrow>
            (let providerName = take i ref; path = drop (i + 1) ref in
             if path = '''' then (Inl (Errorf ''invalid secret reference: empty path (expected 'provider:path')'' []), s)
             else case map_get (sr_providers s) providerName of
               None \<Rightarrow> (Inl (Errorf ''secret provider not found: %s'' [Str providerName]), s)
             | Some p \<Rightarrow> acceptSecret ref (providerFetch p os ctx path) s)))"

definition resolvedValues :: "secret_registry \<Rightarrow> string list" where
  "resolvedValues s = map snd (sr_cache s)"

definition hasProvider :: "string \<Rightarrow> secret_registry \<Rightarrow> bool" where
  "hasProvider name s \<longleftrightarrow> map_get (sr_providers s) name \<noteq> None"

text \<open>The preload loop: every reference is tried, failures are collected.\<close>

fun preloadLoop ::
  "os \<Rightarrow> go_ctx \<Rightarrow> string list \<Rightarrow> secret_registry \<Rightarrow> go_error list \<times> secret_registry" where
  "preloadLoop os ctx [] s = ([], s)"
| "preloadLoop os ctx (ref # refs) s =
     (case secretFetch os ctx ref s of
        (res, s') \<Rightarrow> (case preloadLoop os ctx refs s' of
          (errs, s'') \<Rightarrow> (case res of
              Inl err \<Rightarrow> (Wrapf ''%s: %w'' [Str ref] err # errs, s'')
            | Inr _ \<Rightarrow> (errs, s''))))"

definition preloadSecrets ::
  "os \<Rightarrow> go_ctx \<Rightarrow> string list \<Rightarrow> secret_registry \<Rightarrow> go_error option \<times> secret_registry" where
  "preloadSecrets os ctx refs s = (case preloadLoop os ctx refs s of (errs, s') \<Rightarrow>
     if errs \<noteq> []
     then (Some (Errorf ''failed to preload %d of %d secrets (successful: %d): %v''
             [Num (int (length errs)), Num (int (length refs)), Num (int (length refs) - int (length errs)), Errs errs]), s')
     else (None, s'))"

subsection \<open>The provider interface\<close>

locale secret_source =
  fixes fetch :: "os \<Rightarrow> go_ctx \<Rightarrow> string \<Rightarrow> go_error + string"
  assumes cancelled: "fetch os (Some e) path = Inl e"
    and empty_path: "\<exists>e. fetch os None '''' = Inl e"
begin

lemma accept_cancelled: "acceptSecret ref (fetch os (Some e) path) s = (Inl e, s)"
  by (simp add: acceptSecret_def cancelled)

lemma accept_Inr:
  assumes "acceptSecret ref (fetch os ctx path) s = (Inr v, s')"
  shows "ctx = None \<and> path \<noteq> '''' \<and> v \<noteq> '''' \<and> is_trimmed v \<and> (\<exists>raw. fetch os ctx path = Inr raw \<and> v = trim_space raw) \<and>
    s' = s\<lparr>sr_cache := map_put ref v (sr_cache s)\<rparr>"
proof -
  obtain raw where raw: "fetch os ctx path = Inr raw" "v = trim_space raw" "v \<noteq> ''''"
      "s' = s\<lparr>sr_cache := map_put ref v (sr_cache s)\<rparr>"
    using assms by (auto simp: acceptSecret_def Let_def split: sum.splits if_splits)
  moreover have "ctx = None" using raw cancelled by (cases ctx) auto
  moreover have "path \<noteq> ''''" using raw empty_path \<open>ctx = None\<close> by (metis Inl_Inr_False)
  ultimately show ?thesis by (auto simp: trim_space_trimmed)
qed

end

lemma parseKeychainPath_Inr_iff:
  "parseKeychainPath path = Inr (s, a) \<longleftrightarrow>
     path = s @ CHR ''/'' # a \<and> CHR ''/'' \<notin> set s \<and> s \<noteq> '''' \<and> a \<noteq> ''''"
proof
  assume "parseKeychainPath path = Inr (s, a)"
  then obtain i where i: "index_byte (CHR ''/'') path = Some i" "s = take i path" "a = drop (i + 1) path"
      "s \<noteq> ''''" "a \<noteq> ''''"
    by (auto simp: parseKeychainPath_def Let_def split: if_splits option.splits)
  then obtain x y where "path = x @ CHR ''/'' # y" "CHR ''/'' \<notin> set x" "i = length x"
    by (auto simp: index_byte_Some_iff)
  with i show "path = s @ CHR ''/'' # a \<and> CHR ''/'' \<notin> set s \<and> s \<noteq> '''' \<and> a \<noteq> ''''" by simp
qed (auto simp: parseKeychainPath_def)

interpretation env_src: secret_source envFetch
  by unfold_locales (auto simp: envFetch_def)

interpretation file_src: secret_source fileFetch
  by unfold_locales (auto simp: fileFetch_def)

interpretation keychain_src: secret_source keychainFetch
  by unfold_locales (auto simp: keychainFetch_def parseKeychainPath_def)

interpretation any_src: secret_source "providerFetch p" for p
  by (cases p) (simp_all add: providerFetch_def env_src.secret_source_axioms file_src.secret_source_axioms
      keychain_src.secret_source_axioms)

subsection \<open>The registry's invariant\<close>

definition cache_ok :: "secret_registry \<Rightarrow> bool" where
  "cache_ok s \<longleftrightarrow> go_map_ok (sr_cache s) \<and> list_all (\<lambda>(ref, v). v \<noteq> '''' \<and> is_trimmed v) (sr_cache s)"

lemma cache_ok_get: "cache_ok s \<Longrightarrow> map_get (sr_cache s) ref = Some v \<Longrightarrow> v \<noteq> '''' \<and> is_trimmed v"
  by (auto simp: cache_ok_def list_all_iff dest!: map_of_SomeD)

lemma cache_ok_put:
  "cache_ok s \<Longrightarrow> v \<noteq> '''' \<Longrightarrow> is_trimmed v \<Longrightarrow> cache_ok (s\<lparr>sr_cache := map_put ref v (sr_cache s)\<rparr>)"
  by (auto simp: cache_ok_def list_all_iff map_put_entries)

lemma secretFetch_hit: "ref \<noteq> '''' \<Longrightarrow> map_get (sr_cache s) ref = Some v \<Longrightarrow> secretFetch os ctx ref s = (Inr v, s)"
  by (simp add: secretFetch_def)

lemma secretFetch_Inl: "secretFetch os ctx ref s = (Inl e, s') \<Longrightarrow> s' = s"
  by (auto simp: secretFetch_def Let_def acceptSecret_def split: if_splits option.splits sum.splits)

lemma secretFetch_Inr:
  assumes "secretFetch os ctx ref s = (Inr v, s')"
  shows "ref \<noteq> '''' \<and> (map_get (sr_cache s) ref = Some v \<and> s' = s \<or>
    (map_get (sr_cache s) ref = None \<and> (\<exists>name path p. ref = name @ CHR '':'' # path \<and> CHR '':'' \<notin> set name \<and>
       map_get (sr_providers s) name = Some p \<and> acceptSecret ref (providerFetch p os ctx path) s = (Inr v, s'))))"
proof (cases "map_get (sr_cache s) ref")
  case None
  with assms obtain i p where i: "ref \<noteq> ''''" "index_byte (CHR '':'') ref = Some i"
      "map_get (sr_providers s) (take i ref) = Some p"
      "acceptSecret ref (providerFetch p os ctx (drop (i + 1) ref)) s = (Inr v, s')"
    by (auto simp: secretFetch_def Let_def split: if_splits option.splits)
  then obtain x y where "ref = x @ CHR '':'' # y" "CHR '':'' \<notin> set x" "i = length x"
    by (auto simp: index_byte_Some_iff)
  with i None show ?thesis by auto
next
  case (Some w)
  with assms show ?thesis by (auto simp: secretFetch_def split: if_splits)
qed

lemma secretFetch_cached:
  assumes "cache_ok s" "secretFetch os ctx ref s = (Inr v, s')"
  shows "cache_ok s' \<and> ref \<noteq> '''' \<and> v \<noteq> '''' \<and> is_trimmed v \<and> map_get (sr_cache s') ref = Some v"
  using secretFetch_Inr [OF assms(2)] assms(1) cache_ok_get [OF assms(1), of ref v]
  by (auto dest!: any_src.accept_Inr simp: cache_ok_put)

lemma secretFetch_keeps:
  "secretFetch os ctx ref s = (res, s') \<Longrightarrow> map_get (sr_cache s) r = Some v \<Longrightarrow> map_get (sr_cache s') r = Some v"
  using secretFetch_Inl [of os ctx ref s _ s'] secretFetch_Inr [of os ctx ref s _ s']
  by (cases res) (auto dest!: any_src.accept_Inr split: if_splits)

lemma secretFetch_cache_ok: "cache_ok s \<Longrightarrow> secretFetch os ctx ref s = (res, s') \<Longrightarrow> cache_ok s'"
  using secretFetch_Inl [of os ctx ref s _ s'] secretFetch_cached [of s os ctx ref _ s'] by (cases res) auto

lemma secretFetch_providers: "secretFetch os ctx ref s = (res, s') \<Longrightarrow> sr_providers s' = sr_providers s"
  by (auto simp: secretFetch_def Let_def acceptSecret_def split: if_splits option.splits sum.splits)

lemma preloadLoop_keeps:
  "preloadLoop os ctx refs s = (errs, s') \<Longrightarrow> map_get (sr_cache s) r = Some v \<Longrightarrow> map_get (sr_cache s') r = Some v"
proof (induction refs arbitrary: s errs s')
  case (Cons ref refs)
  obtain res s1 where 1: "secretFetch os ctx ref s = (res, s1)" by fastforce
  obtain errs' s2 where 2: "preloadLoop os ctx refs s1 = (errs', s2)" by fastforce
  show ?case using Cons.prems Cons.IH [OF 2] secretFetch_keeps [OF 1] 1 2 by (auto split: sum.splits)
qed simp

lemma preloadLoop_spec:
  "cache_ok s \<Longrightarrow> preloadLoop os ctx refs s = (errs, s') \<Longrightarrow> cache_ok s' \<and>
   (\<forall>ref \<in> set refs. (ref \<noteq> '''' \<and> map_get (sr_cache s') ref \<noteq> None) \<or> (\<exists>e. Wrapf ''%s: %w'' [Str ref] e \<in> set errs))"
proof (induction refs arbitrary: s errs s')
  case (Cons ref refs)
  obtain res s1 where 1: "secretFetch os ctx ref s = (res, s1)" by fastforce
  obtain errs' s2 where 2: "preloadLoop os ctx refs s1 = (errs', s2)" by fastforce
  note IH = Cons.IH [OF secretFetch_cache_ok [OF Cons.prems(1) 1] 2]
  show ?case
  proof (cases res)
    case (Inl e)
    then show ?thesis using Cons.prems(2) IH 1 2 by auto
  next
    case (Inr v)
    then have "ref \<noteq> ''''" "map_get (sr_cache s2) ref = Some v"
      using secretFetch_cached [OF Cons.prems(1)] preloadLoop_keeps [OF 2] 1 by auto
    then show ?thesis using Cons.prems(2) IH 1 2 Inr by auto
  qed
qed simp

subsection \<open>Properties of secret resolution\<close>

definition demo_os :: os where
  "demo_os = \<lparr>os_env = (\<lambda>k. if k = ''KEY'' then Some ''  s3cret '' else None),
     os_open = (\<lambda>p. if p = ''/k'' then Inr (demo_handle 0x180) else Inl (Sentinel ErrNotExist)),
     os_uid = 501, os_goos = ''linux'', os_security = (\<lambda>_ _. ('''', None))\<rparr>"

definition demo_secrets :: secret_registry where
  "demo_secrets = registerBuiltins newSecretRegistry"



text \<open>preloading leaves nothing to fetch later. If \<open>PreloadSecrets\<close> succeeds, every given
  reference resolves from the cache from then on, whatever happens to its source; if it fails,
  every reference was still tried: it is cached or its own failure is in the report.\<close>

theorem preload_resolves_all:
  assumes "cache_ok s" "preloadSecrets os ctx refs s = (err, s')"
  shows "case err of
     None \<Rightarrow> (\<forall>ref \<in> set refs. \<exists>v. v \<noteq> '''' \<and> (\<forall>os' ctx'. secretFetch os' ctx' ref s' = (Inr v, s')))
   | Some e \<Rightarrow> (\<exists>errs. errs \<noteq> [] \<and> e = Errorf ''failed to preload %d of %d secrets (successful: %d): %v''
         [Num (int (length errs)), Num (int (length refs)), Num (int (length refs) - int (length errs)), Errs errs] \<and>
       (\<forall>ref \<in> set refs. (\<exists>v. \<forall>os' ctx'. secretFetch os' ctx' ref s' = (Inr v, s')) \<or>
          (\<exists>e'. Wrapf ''%s: %w'' [Str ref] e' \<in> set errs)))"
proof -
  obtain errs where 1: "preloadLoop os ctx refs s = (errs, s')"
    using assms(2) by (auto simp: preloadSecrets_def split: prod.splits if_splits)
  have ok: "cache_ok s'" using preloadLoop_spec [OF assms(1) 1] by blast
  have hit: "\<exists>v. v \<noteq> '''' \<and> (\<forall>os' ctx'. secretFetch os' ctx' ref s' = (Inr v, s'))"
    if "ref \<noteq> ''''" "map_get (sr_cache s') ref \<noteq> None" for ref
    using that cache_ok_get [OF ok, of ref] by (auto simp: secretFetch_hit)
  have all: "\<forall>ref \<in> set refs. (\<exists>v. v \<noteq> '''' \<and> (\<forall>os' ctx'. secretFetch os' ctx' ref s' = (Inr v, s'))) \<or>
      (\<exists>e. Wrapf ''%s: %w'' [Str ref] e \<in> set errs)"
    using preloadLoop_spec [OF assms(1) 1] hit by blast
  show ?thesis
  proof (cases "errs = []")
    case True
    then have "err = None" using assms(2) 1 by (simp add: preloadSecrets_def)
    then show ?thesis using all True by simp
  next
    case False
    then have "err = Some (Errorf ''failed to preload %d of %d secrets (successful: %d): %v''
         [Num (int (length errs)), Num (int (length refs)), Num (int (length refs) - int (length errs)), Errs errs])"
      using assms(2) 1 by (simp add: preloadSecrets_def)
    then show ?thesis using all False by (simp, blast)
  qed
qed

theorem preload_resolves_all_witness:
  "\<exists>s'. preloadSecrets demo_os None [''env:KEY'', ''file:/k''] demo_secrets = (None, s') \<and>
     (\<exists>v. v \<noteq> '''' \<and> (\<forall>os' ctx'. secretFetch os' ctx' ''file:/k'' s' = (Inr v, s')))"
proof -
  have *: "preloadSecrets demo_os None [''env:KEY'', ''file:/k''] demo_secrets =
    (None, demo_secrets\<lparr>sr_cache := [(''env:KEY'', ''s3cret''), (''file:/k'', ''s3cret'')]\<rparr>)"
    by code_simp
  have "cache_ok demo_secrets" by code_simp
  from preload_resolves_all [OF this *] * show ?thesis by simp
qed

text \<open>one table decides which schemes exist. A reference has a known scheme exactly when the
  registry built by \<open>RegisterBuiltins\<close> has a provider for what precedes its first colon, and
  then a fetch never fails for a missing separator or an unregistered provider.\<close>

theorem known_scheme_has_provider:
  "(isKnownScheme ref \<longleftrightarrow> (\<exists>name path. ref = name @ CHR '':'' # path \<and> CHR '':'' \<notin> set name \<and>
      hasProvider name (registerBuiltins newSecretRegistry))) \<and>
   (isKnownScheme ref \<longrightarrow> (\<forall>os ctx e. fst (secretFetch os ctx ref (registerBuiltins newSecretRegistry)) = Inl e \<longrightarrow>
      e = Errorf ''invalid secret reference: empty path (expected 'provider:path')'' [] \<or>
      (\<exists>p path. e = Wrapf ''secret %s resolved to an empty value: %w'' [Str ref] (Sentinel ErrSecretNotFound) \<or>
         providerFetch p os ctx path = Inl e)))"
proof -
  have prov: "sr_providers (registerBuiltins newSecretRegistry) = builtinProviders" by code_simp
  have known: "isKnownScheme ref \<longleftrightarrow> (\<exists>name path. ref = name @ CHR '':'' # path \<and> CHR '':'' \<notin> set name \<and>
      map_get builtinProviders name \<noteq> None)"
  proof (cases "cut_byte (CHR '':'') ref")
    case None
    moreover from None have "CHR '':'' \<notin> set ref" by (simp add: cut_byte_None_iff)
    ultimately show ?thesis by (auto simp: isKnownScheme_def)
  next
    case (Some np)
    then obtain name path where np: "cut_byte (CHR '':'') ref = Some (name, path)" by (cases np) auto
    then have "ref = name @ CHR '':'' # path" "CHR '':'' \<notin> set name" by (simp_all add: cut_byte_Some_iff)
    then show ?thesis using np split_unique_first [of name "CHR '':''" path]
      by (simp add: isKnownScheme_def) blast
  qed
  moreover have "e = Errorf ''invalid secret reference: empty path (expected 'provider:path')'' [] \<or>
      (\<exists>p path. e = Wrapf ''secret %s resolved to an empty value: %w'' [Str ref] (Sentinel ErrSecretNotFound) \<or>
         providerFetch p os ctx path = Inl e)"
    if ks: "isKnownScheme ref" and fe: "fst (secretFetch os ctx ref (registerBuiltins newSecretRegistry)) = Inl e" for os ctx e
  proof -
    obtain name path p where r: "ref = name @ CHR '':'' # path" "CHR '':'' \<notin> set name"
        "map_get builtinProviders name = Some p" using ks unfolding known by blast
    have "sr_cache (registerBuiltins newSecretRegistry) = []" by code_simp
    then show ?thesis using fe r prov
      by (auto simp: secretFetch_def Let_def acceptSecret_def split: if_splits sum.splits)
  qed
  ultimately show ?thesis using prov unfolding hasProvider_def by (simp only:) blast
qed

theorem known_scheme_has_provider_witness:
  "isKnownScheme ''keychain:a/b'' \<and> (\<exists>e. fst (secretFetch demo_os None ''keychain:a/b'' demo_secrets) = Inl e \<and>
     (e = Errorf ''invalid secret reference: empty path (expected 'provider:path')'' [] \<or>
      (\<exists>p path. e = Wrapf ''secret %s resolved to an empty value: %w'' [Str ''keychain:a/b''] (Sentinel ErrSecretNotFound) \<or>
         providerFetch p demo_os None path = Inl e)))"
proof -
  have k: "isKnownScheme ''keychain:a/b''" by code_simp
  have e: "fst (secretFetch demo_os None ''keychain:a/b'' (registerBuiltins newSecretRegistry)) =
      Inl (Errorf ''keychain provider only works on macOS (current platform: %s)'' [Str ''linux''])" by code_simp
  from known_scheme_has_provider [of "''keychain:a/b''", THEN conjunct2, rule_format, OF k e] k e
  show ?thesis by (auto simp: demo_secrets_def)
qed

end
