(* ===== verification/Go_Http.thy ===== *)
theory Go_Http
  imports Errors
begin

text \<open>
  The parts of \<open>net/http\<close> and \<open>encoding/base64\<close> the program uses: header maps with canonical
  keys, requests and responses as the handlers see them, and standard base64.

  A header map keeps its keys as stored. \<open>Get\<close>, \<open>Set\<close>, \<open>Del\<close> and \<open>Add\<close> canonicalize the name
  they are given, as Go does; indexing and \<open>delete\<close> on the map do not. A key that is not a
  valid token is not changed by canonicalization.
\<close>

type_synonym headers = "(string, string list) gomap"

definition token_byte :: "char \<Rightarrow> bool" where
  "token_byte c \<longleftrightarrow> is_upper_byte c \<or> is_lower_byte c \<or> (CHR ''0'' \<le> c \<and> c \<le> CHR ''9'') \<or>
     c \<in> set ''!#$%&*+-.^_|~'' \<or> c = CHR 0x27 \<or> c = CHR 0x60"

definition is_token :: "string \<Rightarrow> bool" where
  "is_token s \<longleftrightarrow> list_all token_byte s"

fun canon_bytes :: "bool \<Rightarrow> string \<Rightarrow> string" where
  "canon_bytes upper [] = []"
| "canon_bytes upper (c # cs) = (if upper then upper_byte c else lower_byte c) # canon_bytes (c = CHR ''-'') cs"

definition canonical_key :: "string \<Rightarrow> string" where
  "canonical_key s = (if is_token s then canon_bytes True s else s)"

definition hdr_get :: "headers \<Rightarrow> string \<Rightarrow> string" where
  "hdr_get h name = (case map_get h (canonical_key name) of Some (v # _) \<Rightarrow> v | _ \<Rightarrow> '''')"

definition hdr_set :: "string \<Rightarrow> string \<Rightarrow> headers \<Rightarrow> headers" where
  "hdr_set name v h = map_put (canonical_key name) [v] h"

definition hdr_del :: "string \<Rightarrow> headers \<Rightarrow> headers" where
  "hdr_del name h = map_del (canonical_key name) h"

text \<open>A message body: none, or the bytes reading it delivers and the error, if any, reading ends
  with in place of the end of file.\<close>

datatype body = NilBody | Body string "go_error option"

text \<open>A request: the fields the handlers read or write, with the request context's error, request
  id and correlation color as components. \<open>rq_url\<close> is what \<open>URL.String()\<close> returns, \<open>rq_path\<close> the
  decoded \<open>URL.Path\<close>.\<close>

record request =
  rq_method :: string
  rq_url :: string
  rq_host :: string
  rq_path :: string
  rq_header :: headers
  rq_contentLength :: int
  rq_proto :: "int \<times> int"
  rq_body :: body
  rq_remoteAddr :: string
  rq_ctxErr :: "go_error option"
  rq_requestID :: string
  rq_color :: "int \<times> int \<times> int"

record response =
  rs_status :: int
  rs_header :: headers
  rs_contentLength :: int
  rs_proto :: "int \<times> int"
  rs_body :: body

subsection \<open>Standard base64\<close>

definition b64_alphabet :: string where
  "b64_alphabet = ''ABCDEFGHIJKLMNOPQRSTUVWXYZabcdefghijklmnopqrstuvwxyz0123456789+/''"

definition b64_char :: "nat \<Rightarrow> char" where
  "b64_char i = b64_alphabet ! i"

definition b64_val :: "char \<Rightarrow> nat option" where
  "b64_val c = index_byte c b64_alphabet"

fun b64_encode :: "string \<Rightarrow> string" where
  "b64_encode [] = []"
| "b64_encode [a] = (let n = of_char a * 16 in [b64_char (n div 64), b64_char (n mod 64), CHR ''='', CHR ''=''])"
| "b64_encode [a, b] = (let n = (of_char a * 256 + of_char b) * 4 in
     [b64_char (n div 4096), b64_char (n div 64 mod 64), b64_char (n mod 64), CHR ''=''])"
| "b64_encode (a # b # c # s) = (let n = (of_char a * 256 + of_char b) * 256 + of_char c in
     [b64_char (n div 262144), b64_char (n div 4096 mod 64), b64_char (n div 64 mod 64), b64_char (n mod 64)]
     @ b64_encode s)"

text \<open>\<open>StdEncoding.DecodeString\<close>: new-line bytes are skipped, the rest is quanta of four alphabet
  characters, the last of which may end in padding; the padding bits are not checked.\<close>

fun b64_quanta :: "string \<Rightarrow> string option" where
  "b64_quanta [] = Some []"
| "b64_quanta [a, b, c, d] =
     (if c = CHR ''='' \<and> d = CHR ''='' then
        (case (b64_val a, b64_val b) of
           (Some x, Some y) \<Rightarrow> Some [char_of ((x * 64 + y) div 16)] | _ \<Rightarrow> None)
      else if d = CHR ''='' then
        (case (b64_val a, b64_val b, b64_val c) of
           (Some x, Some y, Some z) \<Rightarrow>
             (let n = ((x * 64 + y) * 64 + z) div 4 in Some [char_of (n div 256), char_of (n mod 256)])
         | _ \<Rightarrow> None)
      else
        (case (b64_val a, b64_val b, b64_val c, b64_val d) of
           (Some x, Some y, Some z, Some w) \<Rightarrow>
             (let n = ((x * 64 + y) * 64 + z) * 64 + w in
              Some [char_of (n div 65536), char_of (n div 256 mod 256), char_of (n mod 256)])
         | _ \<Rightarrow> None))"
| "b64_quanta (a # b # c # d # e # s) =
     (case (b64_val a, b64_val b, b64_val c, b64_val d) of
        (Some x, Some y, Some z, Some w) \<Rightarrow>
          (let n = ((x * 64 + y) * 64 + z) * 64 + w in
           map_option (\<lambda>r. char_of (n div 65536) # char_of (n div 256 mod 256) # char_of (n mod 256) # r)
             (b64_quanta (e # s)))
      | _ \<Rightarrow> None)"
| "b64_quanta _ = None"

definition b64_decode :: "string \<Rightarrow> string option" where
  "b64_decode s = b64_quanta (filter (\<lambda>c. c \<noteq> CHR 0x0A \<and> c \<noteq> CHR 0x0D) s)"

subsection \<open>Canonical keys\<close>

lemma upper_lower_byte [simp]: "upper_byte (lower_byte c) = upper_byte c"
  by (auto simp: upper_byte_def lower_byte_def is_upper_byte_def is_lower_byte_def of_char_le_iff)

lemma lower_upper_byte [simp]: "lower_byte (upper_byte c) = lower_byte c"
  by (auto simp: upper_byte_def lower_byte_def is_upper_byte_def is_lower_byte_def of_char_le_iff)

lemma lower_byte_dash [simp]: "lower_byte c = CHR ''-'' \<longleftrightarrow> c = CHR ''-''"
  by (rule lower_byte_eq_iff) (auto simp: is_upper_byte_def is_lower_byte_def of_char_le_iff)

lemma canon_bytes_lower: "map lower_byte (canon_bytes u s) = map lower_byte s"
  by (induction s arbitrary: u) auto

lemma canon_bytes_cong: "map lower_byte s = map lower_byte t \<Longrightarrow> canon_bytes u s = canon_bytes u t"
proof (induction s arbitrary: t u)
  case (Cons c s)
  then obtain d t' where t: "t = d # t'" "lower_byte c = lower_byte d" "map lower_byte s = map lower_byte t'"
    by (cases t) auto
  have "upper_byte c = upper_byte d" "c = CHR ''-'' \<longleftrightarrow> d = CHR ''-''"
    using t(2) by (metis upper_lower_byte) (metis t(2) lower_byte_dash)
  then show ?case using t Cons.IH [OF t(3)] by simp
qed simp

lemma canon_bytes_idem: "canon_bytes u (canon_bytes u s) = canon_bytes u s"
  by (rule canon_bytes_cong) (rule canon_bytes_lower)

lemma token_byte_lower: "token_byte (lower_byte c) = token_byte c"
proof (cases "is_upper_byte c")
  case True
  then have "is_lower_byte (lower_byte c)"
    by (auto simp: lower_byte_def is_upper_byte_def is_lower_byte_def of_char_le_iff)
  with True show ?thesis by (simp add: token_byte_def)
qed (simp add: lower_byte_def)

lemma is_token_cong: "map lower_byte s = map lower_byte t \<Longrightarrow> is_token s = is_token t"
proof -
  assume "map lower_byte s = map lower_byte t"
  then have "list_all token_byte (map lower_byte s) = list_all token_byte (map lower_byte t)" by simp
  then show ?thesis by (simp add: is_token_def list.pred_map comp_def token_byte_lower)
qed

lemma token_byte_ascii: "token_byte c \<Longrightarrow> of_char c < (128 :: nat)"
  by (auto simp: token_byte_def is_upper_byte_def is_lower_byte_def of_char_le_iff)

lemma is_token_ascii: "is_token s \<Longrightarrow> is_ascii s"
  by (auto simp: is_token_def is_ascii_def list_all_iff token_byte_ascii)

lemma is_token_canonical [simp]: "is_token (canonical_key s) = is_token s"
  using is_token_cong [OF canon_bytes_lower] by (simp add: canonical_key_def)

lemma canonical_key_idem [simp]: "canonical_key (canonical_key s) = canonical_key s"
  using is_token_cong [OF canon_bytes_lower, of True s] by (simp add: canonical_key_def canon_bytes_idem)

lemma canonical_key_eq_iff:
  "is_token s \<Longrightarrow> is_token t \<Longrightarrow> canonical_key s = canonical_key t \<longleftrightarrow> to_lower s = to_lower t"
  by (simp add: canonical_key_def to_lower_ascii is_token_ascii)
    (metis canon_bytes_cong canon_bytes_lower)

lemma to_lower_canonical: "is_token s \<Longrightarrow> to_lower (canonical_key s) = to_lower s"
  by (metis canonical_key_eq_iff canonical_key_idem is_token_canonical)

subsection \<open>Header maps\<close>

lemma map_get_hdr_set: "map_get (hdr_set n v h) k = (if k = canonical_key n then Some [v] else map_get h k)"
  by (simp add: hdr_set_def)

lemma map_get_hdr_del: "map_get (hdr_del n h) k = (if k = canonical_key n then None else map_get h k)"
  by (simp add: hdr_del_def)

lemma hdr_get_set: "hdr_get (hdr_set n v h) m = (if canonical_key m = canonical_key n then v else hdr_get h m)"
  by (simp add: hdr_get_def map_get_hdr_set)

lemma hdr_ok [intro]: "go_map_ok h \<Longrightarrow> go_map_ok (hdr_set n v h)" "go_map_ok h \<Longrightarrow> go_map_ok (hdr_del n h)"
  by (auto simp: hdr_set_def hdr_del_def)

text \<open>Every key is a canonical token: what Go's server and client parsers produce.\<close>

definition canonical_headers :: "headers \<Rightarrow> bool" where
  "canonical_headers h \<longleftrightarrow> go_map_ok h \<and> list_all (\<lambda>k. is_token k \<and> canonical_key k = k) (map_keys h)"

lemma canonical_headersD: "canonical_headers h \<Longrightarrow> map_get h k = Some v \<Longrightarrow> is_token k \<and> canonical_key k = k"
  by (force simp: canonical_headers_def list_all_iff dest: map_of_SomeD)

lemma canonical_headers_set: "canonical_headers h \<Longrightarrow> is_token n \<Longrightarrow> canonical_headers (hdr_set n v h)"
  unfolding canonical_headers_def list_all_iff hdr_set_def by (auto simp: map_put_entries)

lemma canonical_headers_del: "canonical_headers h \<Longrightarrow> canonical_headers (map_del n h)"
  unfolding canonical_headers_def list_all_iff by (auto simp: map_del_entries)

subsection \<open>Base64\<close>

lemma b64_alphabet_len: "length b64_alphabet = 64"
  by (simp add: b64_alphabet_def)

lemma b64_val_char_table: "list_all (\<lambda>i. b64_val (b64_char i) = Some i \<and> b64_char i \<noteq> CHR ''='' \<and>
    b64_char i \<noteq> CHR 0x0A \<and> b64_char i \<noteq> CHR 0x0D) [0..<64]"
  by code_simp

lemma b64_char_facts:
  "i < 64 \<Longrightarrow> b64_val (b64_char i) = Some i" "i < 64 \<Longrightarrow> b64_char i \<noteq> CHR ''=''"
  "i < 64 \<Longrightarrow> b64_char i \<noteq> CHR 0x0A" "i < 64 \<Longrightarrow> b64_char i \<noteq> CHR 0x0D"
  using b64_val_char_table by (auto simp: list_all_iff)

lemma b64_recompose: "(((n :: nat) div 262144 * 64 + n div 4096 mod 64) * 64 + n div 64 mod 64) * 64 + n mod 64 = n"
proof -
  have "n div 262144 = n div 4096 div 64" "n div 4096 = n div 64 div 64"
    by (simp_all add: div_mult2_eq [symmetric])
  then have "n div 262144 * 64 + n div 4096 mod 64 = n div 4096"
      "n div 4096 * 64 + n div 64 mod 64 = n div 64"
    by (simp_all only: div_mult_mod_eq)
  then show ?thesis by (simp only: div_mult_mod_eq)
qed

lemma b64_quanta_step:
  assumes "x < 64" "y < 64" "z < 64" "w < 64"
  shows "b64_quanta (b64_char x # b64_char y # b64_char z # b64_char w # s) =
    (let n = ((x * 64 + y) * 64 + z) * 64 + w in
     map_option (\<lambda>r. char_of (n div 65536) # char_of (n div 256 mod 256) # char_of (n mod 256) # r) (b64_quanta s))"
  by (cases s) (use assms in \<open>simp_all add: b64_char_facts Let_def\<close>)

lemma of_char_le_255: "of_char c \<le> (255 :: nat)"
  using nat_of_char_less_256 [of c] by linarith

lemma two_bytes_bound: "1024 * of_char a + of_char b * 4 < (262144 :: nat)"
  using of_char_le_255 [of a] of_char_le_255 [of b] by linarith

lemma three_bytes_bound: "65536 * of_char a + of_char b * 256 + of_char c < (16777216 :: nat)"
  using of_char_le_255 [of a] of_char_le_255 [of b] of_char_le_255 [of c] by linarith

lemma b64_quanta_encode: "b64_quanta (b64_encode s) = Some s"
proof (induction s rule: b64_encode.induct)
  case (2 a)
  have lt: "of_char a < (256 :: nat)" by (rule nat_of_char_less_256)
  define n :: nat where "n = of_char a * 16"
  have "n div 64 < 64" using lt by (intro less_mult_imp_div_less) (simp add: n_def)
  moreover have "n div 64 * 64 + n mod 64 = n" by (rule div_mult_mod_eq)
  moreover have "n div 16 = of_char a" by (simp add: n_def)
  ultimately show ?case by (simp add: Let_def n_def [symmetric] b64_char_facts)
next
  case (3 a b)
  have lt: "of_char a < (256 :: nat)" "of_char b < (256 :: nat)" by (rule nat_of_char_less_256)+
  define n :: nat where "n = (of_char a * 256 + of_char b) * 4"
  have n': "1024 * of_char a + of_char b * 4 = n" by (simp add: n_def)
  have n: "n div 4096 = n div 64 div 64" by (simp add: div_mult2_eq [symmetric])
  then have "n div 4096 * 64 + n div 64 mod 64 = n div 64" by (simp only: div_mult_mod_eq)
  moreover have "n div 4096 < 64" by (rule less_mult_imp_div_less) (use two_bytes_bound [of a b] in \<open>simp add: n_def\<close>)
  moreover have "n div 4 = of_char a * 256 + of_char b" by (simp add: n_def)
  then have "n div 4 div 256 = of_char a" "n div 4 mod 256 = of_char b" using lt by simp_all
  moreover have "char_of (n div 4) = char_of (n div 4 mod 256)" by simp
  ultimately show ?case by (simp add: Let_def n' b64_char_facts div_mult_mod_eq )
next
  case (4 a b c s)
  have lt: "of_char a < (256 :: nat)" "of_char b < (256 :: nat)" "of_char c < (256 :: nat)"
    by (rule nat_of_char_less_256)+
  define n :: nat where "n = (of_char a * 256 + of_char b) * 256 + of_char c"
  have n': "65536 * of_char a + of_char b * 256 + of_char c = n" by (simp add: n_def)
  have "n div 262144 < 64" by (rule less_mult_imp_div_less) (use three_bytes_bound [of a b c] in \<open>simp add: n_def\<close>)
  moreover have "n div 65536 = of_char a \<and> n div 256 mod 256 = of_char b \<and> n mod 256 = of_char c"
  proof -
    have *: "(X * 256 + C) div 256 = X \<and> (X * 256 + C) mod 256 = C" if "C < 256" for X C :: nat
      using that by simp
    have "n div 65536 = n div 256 div 256" by (simp add: div_mult2_eq [symmetric])
    then show ?thesis unfolding n_def using * [OF lt(3), of "of_char a * 256 + of_char b"] * [OF lt(2), of "of_char a"]
      by (simp only:)
  qed
  moreover from this have "char_of (n div 256) = b \<and> char_of n = c"
    by (metis char_of_char char_of_mod_256)
  ultimately show ?case
    using 4 b64_recompose [of n] by (simp add: Let_def n' b64_quanta_step)
qed simp

lemma b64_encode_no_newline: "c \<in> set (b64_encode s) \<Longrightarrow> c \<noteq> CHR 0x0A \<and> c \<noteq> CHR 0x0D"
proof (induction s rule: b64_encode.induct)
  case (2 a)
  have lt: "of_char a < (256 :: nat)" by (rule nat_of_char_less_256)
  define n :: nat where "n = of_char a * 16"
  have "n div 64 < 64" using lt by (intro less_mult_imp_div_less) (simp add: n_def)
  with 2 show ?case by (auto simp: Let_def n_def [symmetric] b64_char_facts)
next
  case (3 a b)
  have lt: "of_char a < (256 :: nat)" "of_char b < (256 :: nat)" by (rule nat_of_char_less_256)+
  define n :: nat where "n = (of_char a * 256 + of_char b) * 4"
  have n': "1024 * of_char a + of_char b * 4 = n" by (simp add: n_def)
  have "n div 4096 < 64" by (rule less_mult_imp_div_less) (use two_bytes_bound [of a b] in \<open>simp add: n_def\<close>)
  with 3 show ?case by (auto simp: Let_def n' b64_char_facts)
next
  case (4 a b c s)
  have lt: "of_char a < (256 :: nat)" "of_char b < (256 :: nat)" "of_char c < (256 :: nat)"
    by (rule nat_of_char_less_256)+
  define n :: nat where "n = (of_char a * 256 + of_char b) * 256 + of_char c"
  have n': "65536 * of_char a + of_char b * 256 + of_char c = n" by (simp add: n_def)
  have "n div 262144 < 64" by (rule less_mult_imp_div_less) (use three_bytes_bound [of a b c] in \<open>simp add: n_def\<close>)
  with 4 show ?case by (auto simp: Let_def n' b64_char_facts)
qed simp

lemma b64_roundtrip: "b64_decode (b64_encode s) = Some s"
proof -
  have "filter (\<lambda>c. c \<noteq> CHR 0x0A \<and> c \<noteq> CHR 0x0D) (b64_encode s) = b64_encode s"
    using b64_encode_no_newline by (auto simp: filter_id_conv)
  then show ?thesis by (simp add: b64_decode_def b64_quanta_encode)
qed

end
