(* ===== verification/Auth.thy ===== *)
theory Auth
  imports Go_Http
begin

text \<open>
  \<open>internal/auth\<close>: header injection that replaces existing variants (\<open>headers_util.go\<close>), the
  bearer and custom-header strategies (\<open>bearer.go\<close>, \<open>header.go\<close>), the list of known
  authentication headers (\<open>known_headers.go\<close>) and the strategy registry (\<open>registry.go\<close>).
  \<open>Apply\<close> works on the request's header map. The locale \<open>auth_strategy\<close> is the \<open>AuthStrategy\<close>
  interface as the injection handler relies on it, interpreted on both strategies.
\<close>

subsection \<open>Setting a header\<close>

definition findHeaderVariants :: "headers \<Rightarrow> string \<Rightarrow> string list" where
  "findHeaderVariants h targetName =
     sort (filter (\<lambda>name. to_lower name = to_lower targetName) (map_keys h))"

definition setHeaderPreservingCapitalization :: "string \<Rightarrow> string \<Rightarrow> headers \<Rightarrow> bool \<times> headers" where
  "setHeaderPreservingCapitalization targetName value h =
     (case findHeaderVariants h targetName of
        [] \<Rightarrow> (False, hdr_set targetName value h)
      | preservedName # rest \<Rightarrow>
          (True, hdr_set preservedName value (foldl (\<lambda>h name. map_del name h) h (preservedName # rest))))"

subsection \<open>Strategies\<close>

definition bearerApply :: "string \<Rightarrow> headers \<Rightarrow> go_error option \<times> headers" where
  "bearerApply secret h =
     (if secret = '''' then (Some (Sentinel ErrSecretNotFound), h)
      else (None, snd (setHeaderPreservingCapitalization ''Authorization'' (''Bearer '' @ secret) h)))"

definition headerApply :: "string \<Rightarrow> string \<Rightarrow> headers \<Rightarrow> go_error option \<times> headers" where
  "headerApply name secret h =
     (if secret = '''' then (Some (Sentinel ErrSecretNotFound), h)
      else if name = '''' then (Some (Errorf ''header name not configured'' []), h)
      else (None, snd (setHeaderPreservingCapitalization name secret h)))"

datatype strategy = BearerStrategy | HeaderStrategy string

definition strategyApply :: "strategy \<Rightarrow> string \<Rightarrow> headers \<Rightarrow> go_error option \<times> headers" where
  "strategyApply st = (case st of BearerStrategy \<Rightarrow> bearerApply | HeaderStrategy n \<Rightarrow> headerApply n)"

subsection \<open>Known headers\<close>

definition knownAuthHeaders :: "string list" where
  "knownAuthHeaders = [''authorization'', ''x-api-key'', ''x-auth-token'', ''api-key'', ''apikey'',
     ''x-access-token'', ''x-token'', ''token'', ''bearer'', ''x-session-token'', ''x-csrf-token'', ''x-xsrf-token'']"

definition isKnownAuthHeader :: "string \<Rightarrow> bool" where
  "isKnownAuthHeader header = list_ex (\<lambda>known. to_lower header = known) knownAuthHeaders"

subsection \<open>The strategy registry\<close>

type_synonym auth_registry = "(string, strategy) gomap"

definition newAuthRegistry :: auth_registry where
  "newAuthRegistry = []"

definition authRegister :: "string \<Rightarrow> strategy \<Rightarrow> auth_registry \<Rightarrow> auth_registry" where
  "authRegister name st r = map_put name st r"

definition authGet :: "string \<Rightarrow> auth_registry \<Rightarrow> go_error + strategy" where
  "authGet name r = (case map_get r name of
     None \<Rightarrow> Inl (Errorf ''authentication strategy not found: %s'' [Str name])
   | Some st \<Rightarrow> Inr st)"

definition authHas :: "string \<Rightarrow> auth_registry \<Rightarrow> bool" where
  "authHas name r \<longleftrightarrow> map_get r name \<noteq> None"

subsection \<open>Lemmas\<close>

text \<open>Header maps whose keys are tokens, in any capitalization.\<close>

definition token_headers :: "headers \<Rightarrow> bool" where
  "token_headers h \<longleftrightarrow> list_all is_token (map_keys h)"

lemma canonical_token_headers: "canonical_headers h \<Longrightarrow> token_headers h"
  by (auto simp: canonical_headers_def token_headers_def list_all_iff)

lemma set_findHeaderVariants:
  "set (findHeaderVariants h t) = {n \<in> set (map_keys h). to_lower n = to_lower t}"
  by (auto simp: findHeaderVariants_def)

lemma foldl_del_get:
  "map_get (foldl (\<lambda>h name. map_del name h) h ns) k = (if k \<in> set ns then None else map_get h k)"
  by (induction ns arbitrary: h) auto

lemma setHeader_get:
  assumes "token_headers h" "is_token t" "setHeaderPreservingCapitalization t v h = (replaced, h')"
  shows "map_get h' k = (if k = canonical_key t then Some [v]
           else if to_lower k = to_lower t then None else map_get h k)"
    and "replaced \<longleftrightarrow> (\<exists>k \<in> set (map_keys h). to_lower k = to_lower t)"
proof -
  note var = set_findHeaderVariants [of h t]
  show "replaced \<longleftrightarrow> (\<exists>k \<in> set (map_keys h). to_lower k = to_lower t)"
  proof (cases "findHeaderVariants h t")
    case Nil
    then show ?thesis using assms(3) var by (auto simp: setHeaderPreservingCapitalization_def)
  next
    case (Cons p rest)
    then have "p \<in> set (findHeaderVariants h t)" by simp
    then have "\<exists>k \<in> set (map_keys h). to_lower k = to_lower t" unfolding var by blast
    then show ?thesis using assms(3) Cons by (simp add: setHeaderPreservingCapitalization_def)
  qed
  show "map_get h' k = (if k = canonical_key t then Some [v]
           else if to_lower k = to_lower t then None else map_get h k)"
  proof (cases "findHeaderVariants h t")
    case Nil
    then have "map_get h k = None" if "to_lower k = to_lower t"
      using that var by (auto simp: map_get_None_iff)
    then show ?thesis
      using assms(3) Nil by (auto simp: setHeaderPreservingCapitalization_def map_get_hdr_set)
  next
    case (Cons p rest)
    then have p: "p \<in> set (map_keys h)" "to_lower p = to_lower t" using var by auto
    then have "is_token p" using assms(1) by (auto simp: token_headers_def list_all_iff)
    then have key: "canonical_key p = canonical_key t"
      using p assms(2) by (simp add: canonical_key_eq_iff)
    have "h' = hdr_set p v (foldl (\<lambda>h name. map_del name h) h (p # rest))"
      using assms(3) Cons by (simp add: setHeaderPreservingCapitalization_def)
    then have "map_get h' k = (if k = canonical_key t then Some [v]
        else if k \<in> set (p # rest) then None else map_get h k)"
      by (simp add: map_get_hdr_set key foldl_del_get del: foldl_Cons)
    moreover have "k \<in> set (p # rest) \<longleftrightarrow> k \<in> set (map_keys h) \<and> to_lower k = to_lower t"
      using var Cons by auto
    ultimately show ?thesis using map_get_None_iff [of h k] by auto
  qed
qed

lemma foldl_del_ok: "go_map_ok h \<Longrightarrow> go_map_ok (foldl (\<lambda>h name. map_del name h) h ns)"
  by (induction ns arbitrary: h) auto

lemma setHeader_ok: "go_map_ok h \<Longrightarrow> go_map_ok (snd (setHeaderPreservingCapitalization t v h))"
  by (auto simp: setHeaderPreservingCapitalization_def intro!: hdr_ok foldl_del_ok split: list.splits)

subsection \<open>The strategy interface\<close>

text \<open>\<open>target\<close> is the header a strategy writes, \<open>render\<close> the value it writes for a secret.\<close>

locale auth_strategy =
  fixes apply_auth :: "string \<Rightarrow> headers \<Rightarrow> go_error option \<times> headers"
    and target :: string
    and render :: "string \<Rightarrow> string"
  assumes refuses_empty: "apply_auth '''' h = (Some (Sentinel ErrSecretNotFound), h)"
    and failure_unchanged: "apply_auth secret h = (Some e, h') \<Longrightarrow> h' = h"
    and success_sets: "token_headers h \<Longrightarrow> is_token target \<Longrightarrow> apply_auth secret h = (None, h') \<Longrightarrow>
        map_get h' k = (if k = canonical_key target then Some [render secret]
          else if to_lower k = to_lower target then None else map_get h k)"
    and success_ok: "go_map_ok h \<Longrightarrow> apply_auth secret h = (None, h') \<Longrightarrow> go_map_ok h'"
begin

lemma applied_value:
  "token_headers h \<Longrightarrow> is_token target \<Longrightarrow> apply_auth secret h = (None, h') \<Longrightarrow>
   hdr_get h' target = render secret"
  by (simp add: hdr_get_def success_sets)

lemma applied_frame:
  assumes "token_headers h" "is_token target" "apply_auth secret h = (res, h')" "to_lower k \<noteq> to_lower target"
  shows "map_get h' k = map_get h k"
proof (cases res)
  case None
  have "k \<noteq> canonical_key target" using assms(2,4) to_lower_canonical by blast
  then show ?thesis using success_sets [OF assms(1,2), of secret h' k] assms(3,4) None by simp
next
  case (Some e)
  then show ?thesis using failure_unchanged assms(3) by blast
qed

lemma applied_single:
  assumes "token_headers h" "is_token target" "apply_auth secret h = (None, h')" "k \<in> set (map_keys h')"
    "to_lower k = to_lower target"
  shows "k = canonical_key target"
  using success_sets [OF assms(1-3), of k] assms(4,5) map_get_None_iff [of h' k] by (auto split: if_splits)

end

lemmas setHeader_snd = setHeader_get(1) [OF _ _ prod.collapse [symmetric]]

interpretation bearer: auth_strategy bearerApply "''Authorization''" "\<lambda>s. ''Bearer '' @ s"
  by unfold_locales (auto simp: bearerApply_def setHeader_ok setHeader_snd split: if_splits)

interpretation custom: auth_strategy "headerApply n" n "\<lambda>s. s" for n
  by unfold_locales (auto simp: headerApply_def setHeader_ok setHeader_snd split: if_splits)

subsection \<open>Properties of injection\<close>

text \<open>setting a header leaves exactly one spelling of it. Whatever capitalization variants a
  request carries (any token keys), afterwards the only key that folds to the target is the
  target's canonical form, holding the new value alone; every other header is untouched, and
  the result says whether a variant was there. The capitalization of the variant is not what
  survives: \<open>Header.Set\<close> canonicalizes it.\<close>

theorem set_header_leaves_one_spelling:
  assumes "token_headers h" "is_token t" "setHeaderPreservingCapitalization t v h = (replaced, h')"
  shows "(\<forall>k. map_get h' k = (if k = canonical_key t then Some [v]
            else if to_lower k = to_lower t then None else map_get h k)) \<and>
    (replaced \<longleftrightarrow> (\<exists>k \<in> set (map_keys h). to_lower k = to_lower t))"
  using setHeader_get [OF assms] by blast

theorem set_header_leaves_one_spelling_witness:
  "\<exists>h'. setHeaderPreservingCapitalization ''x-api-key'' ''new'' [(''X-API-KEY'', [''a'']), (''Accept'', [''b'']), (''x-api-key'', [''c''])] =
      (True, h') \<and> map_get h' ''X-Api-Key'' = Some [''new''] \<and> map_get h' ''X-API-KEY'' = None \<and> map_get h' ''Accept'' = Some [''b'']"
proof -
  let ?h = "[(''X-API-KEY'', [''a'']), (''Accept'', [''b'']), (''x-api-key'', [''c''])]"
  obtain rep h' where e: "setHeaderPreservingCapitalization ''x-api-key'' ''new'' ?h = (rep, h')" by fastforce
  have t: "token_headers ?h" "is_token ''x-api-key''" by code_simp+
  have c: "canonical_key ''x-api-key'' = ''X-Api-Key''" "to_lower ''X-API-KEY'' = to_lower ''x-api-key''"
    "to_lower ''Accept'' \<noteq> to_lower ''x-api-key''" by code_simp+
  note s = set_header_leaves_one_spelling [OF t e]
  have "rep" using s c by auto
  then show ?thesis using s c e by auto
qed

definition strategyTarget :: "strategy \<Rightarrow> string" where
  "strategyTarget st = (case st of BearerStrategy \<Rightarrow> ''Authorization'' | HeaderStrategy n \<Rightarrow> n)"

definition strategyRender :: "strategy \<Rightarrow> string \<Rightarrow> string" where
  "strategyRender st s = (case st of BearerStrategy \<Rightarrow> ''Bearer '' @ s | HeaderStrategy _ \<Rightarrow> s)"

interpretation any_strategy: auth_strategy "strategyApply st" "strategyTarget st" "strategyRender st" for st
  using bearer.auth_strategy_axioms custom.auth_strategy_axioms
  by (cases st) (simp_all add: strategyApply_def strategyTarget_def strategyRender_def [abs_def])

text \<open>a strategy injects its credential or nothing. An empty secret is refused with the
  secret-not-found error; a failing application changes no header; a successful one makes the
  strategy's header carry exactly the rendered secret under a single key and leaves every
  other header as it was.\<close>

theorem strategy_injects_or_nothing:
  assumes "token_headers h" "is_token (strategyTarget st)" "strategyApply st secret h = (res, h')"
  shows "(secret = '''' \<longrightarrow> res = Some (Sentinel ErrSecretNotFound)) \<and>
    (res \<noteq> None \<longrightarrow> h' = h) \<and>
    (res = None \<longrightarrow> secret \<noteq> '''' \<and> hdr_get h' (strategyTarget st) = strategyRender st secret \<and>
       (\<forall>k \<in> set (map_keys h'). to_lower k = to_lower (strategyTarget st) \<longrightarrow> k = canonical_key (strategyTarget st))) \<and>
    (\<forall>k. to_lower k \<noteq> to_lower (strategyTarget st) \<longrightarrow> map_get h' k = map_get h k)"
proof (intro conjI impI allI ballI)
  show "res = Some (Sentinel ErrSecretNotFound)" if "secret = ''''"
    using that assms(3) any_strategy.refuses_empty [of st h] by simp
  show "h' = h" if "res \<noteq> None" using that assms(3) any_strategy.failure_unchanged by blast
  show "secret \<noteq> ''''" if "res = None"
    using that assms(3) any_strategy.refuses_empty [of st h] by auto
  show "hdr_get h' (strategyTarget st) = strategyRender st secret" if "res = None"
    using that assms any_strategy.applied_value by blast
  show "k = canonical_key (strategyTarget st)"
    if "res = None" "k \<in> set (map_keys h')" "to_lower k = to_lower (strategyTarget st)" for k
    using that assms any_strategy.applied_single by blast
  show "map_get h' k = map_get h k" if "to_lower k \<noteq> to_lower (strategyTarget st)" for k
    using that assms any_strategy.applied_frame by blast
qed

theorem strategy_injects_or_nothing_witness:
  "hdr_get (snd (strategyApply BearerStrategy ''tok'' [(''Authorization'', [''Bearer old''])])) ''Authorization'' = ''Bearer tok''"
proof -
  have r: "strategyApply BearerStrategy ''tok'' [(''Authorization'', [''Bearer old''])] =
      (None, [(''Authorization'', [''Bearer tok''])])" by code_simp
  have t: "token_headers [(''Authorization'', [''Bearer old''])]" "is_token (strategyTarget BearerStrategy)"
    by code_simp+
  from strategy_injects_or_nothing [OF t r] show ?thesis
    unfolding r by (simp add: strategyTarget_def strategyRender_def)
qed

end
