(* ===== verification/Config.thy ===== *)
theory Config
  imports Service_Registry Secrets
begin

text \<open>
  \<open>internal/config\<close>: the configuration types, loading behind the file-trust gate, validation
  and defaults (\<open>config.go\<close>), and variable expansion of run settings (\<open>expand.go\<close>).

  The TOML parser, reading the pinned trust anchors and parsing PEM certificates are
  parameters. A Go slice expression out of range panics: \<open>validate\<close> returns \<open>Panicked\<close> there.
  A \<open>*RunConfig\<close> is a \<open>run_config option\<close>; a function that writes through the pointer returns
  the new value.
\<close>

record server_config =
  srv_address :: string
  srv_port :: int
  srv_upstreamCAFile :: string

record run_config =
  rc_command :: string
  rc_args :: "string list"
  rc_envFile :: string
  rc_stdin :: string
  rc_stdout :: string
  rc_stderr :: string
  rc_caEnvVars :: "string list"

record service_config =
  sc_hostPattern :: string
  sc_authStrategy :: string
  sc_headerName :: string
  sc_credentialRef :: string
  sc_placeholder :: string
  sc_allowedMethods :: "string list"
  sc_allowedPaths :: "string list"
  sc_maxBodyBytes :: int
  sc_clientGroups :: "string list"
  sc_drop :: "string list"
  sc_strip :: "string list"
  sc_run :: "run_config option"

record grantable_config =
  gc_credentialRef :: string
  gc_hostPattern :: string
  gc_authStrategy :: string
  gc_headerName :: string
  gc_allowedMethods :: "string list"
  gc_allowedPaths :: "string list"
  gc_maxBodyBytes :: int

record logging_config =
  lc_level :: string
  lc_format :: string
  lc_output :: string

record audit_config =
  ac_enabled :: bool
  ac_path :: string

record config =
  cfg_server :: server_config
  cfg_services :: "(string, service_config) gomap"
  cfg_logging :: logging_config
  cfg_audit :: audit_config
  cfg_grantable :: "grantable_config list"

subsection \<open>Loading\<close>

definition configTrust :: trust_file where
  "configTrust = \<lparr>tf_desc = ''config file'',
     tf_stakes = ''anyone who can edit it controls which credentials are fetched and where they are sent'',
     tf_bar = noUntrustedWrites\<rparr>"

definition loadConfig :: "os \<Rightarrow> (string \<Rightarrow> go_error + config) \<Rightarrow> string \<Rightarrow> go_error + config" where
  "loadConfig os toml path = (case readFile (os_open os) (os_uid os) configTrust path of
     Inl err \<Rightarrow> Inl err
   | Inr data \<Rightarrow> (case toml data of
       Inl err \<Rightarrow> Inl (Wrapf ''failed to parse TOML: %w'' [] err)
     | Inr cfg \<Rightarrow> Inr cfg))"

text \<open>\<open>trust\<close> reads the file and parses its certificates: \<open>Inl\<close> is the read error, \<open>None\<close> no valid
  certificate.\<close>

definition upstreamCAPool ::
  "(string \<Rightarrow> go_error + 'pool option) \<Rightarrow> config \<Rightarrow> go_error + 'pool option" where
  "upstreamCAPool trust cfg =
     (let path = srv_upstreamCAFile (cfg_server cfg) in
      if path = '''' then Inr None
      else case trust path of
        Inl err \<Rightarrow> Inl (Wrapf ''failed to read upstream_ca_file: %w'' [] err)
      | Inr None \<Rightarrow> Inl (Errorf ''upstream_ca_file %q contains no valid PEM certificates'' [Str path])
      | Inr (Some pool) \<Rightarrow> Inr (Some pool))"

subsection \<open>Validation\<close>

datatype check = Checked "go_error option" | Panicked

definition grantableValidate :: "nat \<Rightarrow> grantable_config \<Rightarrow> go_error option" where
  "grantableValidate index g =
     (if trim_space (gc_hostPattern g) = ''''
        then Some (Errorf ''grantable[%d]: host_pattern is required'' [Num (int index)])
      else if trim_space (gc_authStrategy g) = ''''
        then Some (Errorf ''grantable[%d]: auth_strategy is required'' [Num (int index)])
      else if trim_space (gc_credentialRef g) = ''''
        then Some (Errorf ''grantable[%d]: credential_ref is required'' [Num (int index)])
      else if \<not> isKnownScheme (gc_credentialRef g)
        then Some (Errorf ''grantable[%d]: credential_ref %q must point to a secret via a known provider scheme''
               [Num (int index), Str (gc_credentialRef g)])
      else if gc_maxBodyBytes g < 0
        then Some (Errorf ''grantable[%d]: max_body_bytes must not be negative (got %d)''
               [Num (int index), Num (gc_maxBodyBytes g)])
      else case validatePathPatterns (gc_allowedPaths g) of
        Some err \<Rightarrow> Some (Wrapf ''grantable[%d]: allowed_paths: %w'' [Num (int index)] err)
      | None \<Rightarrow> None)"

fun grantablesValidate :: "nat \<Rightarrow> grantable_config list \<Rightarrow> go_error option" where
  "grantablesValidate i [] = None"
| "grantablesValidate i (g # gs) =
     (case grantableValidate i g of Some e \<Rightarrow> Some e | None \<Rightarrow> grantablesValidate (Suc i) gs)"

text \<open>The output mode of a run section: the slice \<open>mode[:5]\<close> of a shorter string panics.\<close>

definition runModeCheck :: "go_error \<Rightarrow> string \<Rightarrow> check" where
  "runModeCheck err mode =
     (if mode \<in> {'''', ''inherit'', ''discard''} then Checked None
      else if length mode = 0 then Checked None
      else if length mode < 5 then Panicked
      else if take 5 mode \<noteq> ''file:'' then Checked (Some err)
      else Checked None)"

definition runValidate :: "string \<Rightarrow> run_config \<Rightarrow> check" where
  "runValidate name rc =
     (if rc_command rc = ''''
        then Checked (Some (Errorf ''service %q: run.command is required when run section is present'' [Str name]))
      else case runModeCheck (Errorf (''service %q: run.stdout must be 'inherit', 'discard', or 'file:/path'' @ [CHR 0x27]) [Str name])
                  (rc_stdout rc) of
        Checked None \<Rightarrow>
          runModeCheck (Errorf (''service %q: run.stderr must be 'inherit', 'discard', or 'file:/path'' @ [CHR 0x27]) [Str name])
            (rc_stderr rc)
      | r \<Rightarrow> r)"

fun dropsValidate :: "string \<Rightarrow> string list \<Rightarrow> go_error option" where
  "dropsValidate name [] = None"
| "dropsValidate name (d # ds) = (case parseURLPattern d of
     Inl err \<Rightarrow> Some (Wrapf ''service %q: drop: %w'' [Str name] err)
   | Inr _ \<Rightarrow> dropsValidate name ds)"

definition serviceConfigValidate :: "string \<Rightarrow> service_config \<Rightarrow> check" where
  "serviceConfigValidate name svc =
     (if sc_hostPattern svc = '''' then Checked (Some (Errorf ''service %q: host_pattern is required'' [Str name]))
      else if sc_placeholder svc \<noteq> '''' \<and> length (sc_placeholder svc) < 8
        then Checked (Some (Errorf ''service %q: placeholder must be at least 8 characters for security (got %d)''
               [Str name, Num (int (length (sc_placeholder svc)))]))
      else case validatePathPatterns (sc_allowedPaths svc) of
        Some err \<Rightarrow> Checked (Some (Wrapf ''service %q: allowed_paths: %w'' [Str name] err))
      | None \<Rightarrow> (case dropsValidate name (sc_drop svc) of
          Some err \<Rightarrow> Checked (Some err)
        | None \<Rightarrow> (case sc_run svc of None \<Rightarrow> Checked None | Some rc \<Rightarrow> runValidate name rc)))"

text \<open>The loop over the services, in the map's iteration order.\<close>

fun servicesValidate :: "(string \<times> service_config) list \<Rightarrow> check" where
  "servicesValidate [] = Checked None"
| "servicesValidate ((name, svc) # rest) =
     (case serviceConfigValidate name svc of Checked None \<Rightarrow> servicesValidate rest | r \<Rightarrow> r)"

definition configValidate :: "(string \<Rightarrow> go_error + 'pool option) \<Rightarrow> config \<Rightarrow> check" where
  "configValidate trust c =
     (if srv_address (cfg_server c) \<noteq> ''127.0.0.1''
        then Checked (Some (Errorf ''invalid address %q: must be 127.0.0.1'' [Str (srv_address (cfg_server c))]))
      else case upstreamCAPool trust c of
        Inl err \<Rightarrow> Checked (Some err)
      | Inr _ \<Rightarrow>
          if srv_port (cfg_server c) \<noteq> 0
            then Checked (Some (Errorf ''invalid port %d: must be 0 (OS-allocated)'' [Num (srv_port (cfg_server c))]))
          else if lc_level (cfg_logging c) \<notin> {''debug'', ''info'', ''warn'', ''error''}
            then Checked (Some (Errorf ''invalid log level %q: must be debug, info, warn, or error''
                   [Str (lc_level (cfg_logging c))]))
          else case servicesValidate (cfg_services c) of
            Checked None \<Rightarrow> Checked (grantablesValidate 0 (cfg_grantable c))
          | r \<Rightarrow> r)"

subsection \<open>Defaults\<close>

definition runDefaults :: "run_config \<Rightarrow> run_config" where
  "runDefaults rc =
     (let rc1 = (if rc_stdout rc = '''' then rc\<lparr>rc_stdout := ''inherit''\<rparr> else rc) in
      if rc_stderr rc1 = '''' then rc1\<lparr>rc_stderr := ''inherit''\<rparr> else rc1)"

definition loggingDefaults :: "logging_config \<Rightarrow> logging_config" where
  "loggingDefaults l =
     \<lparr>lc_level = (if lc_level l = '''' then ''info'' else lc_level l),
      lc_format = (if lc_format l = '''' then ''json'' else lc_format l),
      lc_output = (if lc_output l = '''' then ''stdout'' else lc_output l)\<rparr>"

definition setDefaults :: "config \<Rightarrow> config" where
  "setDefaults c = c
     \<lparr>cfg_server := (cfg_server c)\<lparr>srv_address := ''127.0.0.1'', srv_port := 0\<rparr>,
      cfg_logging := loggingDefaults (cfg_logging c),
      cfg_services := map (\<lambda>(name, svc). (name, svc\<lparr>sc_run := map_option runDefaults (sc_run svc)\<rparr>)) (cfg_services c)\<rparr>"

subsection \<open>Variable expansion\<close>

definition isAlphaNumericUnderscore :: "char \<Rightarrow> bool" where
  "isAlphaNumericUnderscore b \<longleftrightarrow> (b \<ge> CHR ''a'' \<and> b \<le> CHR ''z'') \<or> (b \<ge> CHR ''A'' \<and> b \<le> CHR ''Z'') \<or>
     (b \<ge> CHR ''0'' \<and> b \<le> CHR ''9'') \<or> b = CHR ''_''"

text \<open>One variable reference, after its dollar sign: the name and what follows it.\<close>

definition scanVar :: "string \<Rightarrow> go_error + string \<times> string" where
  "scanVar s =
     (if s = '''' then Inl (Errorf ''incomplete variable reference at end of string'' [])
      else if hd s = CHR ''{'' then
        (if CHR ''}'' \<notin> set (tl s) then Inl (Errorf ''unclosed variable reference ${%s'' [Str (tl s)])
         else Inr (takeWhile (\<lambda>c. c \<noteq> CHR ''}'') (tl s), tl (dropWhile (\<lambda>c. c \<noteq> CHR ''}'') (tl s))))
      else Inr (takeWhile isAlphaNumericUnderscore s, dropWhile isAlphaNumericUnderscore s))"

lemma length_dropWhile_le: "length (dropWhile P s) \<le> length s"
  by (induction s) auto

lemma scanVar_shorter: "scanVar s = Inr (name, rest) \<Longrightarrow> length rest \<le> length s"
  using length_dropWhile_le [of "\<lambda>c. c \<noteq> CHR ''}''" "tl s"] length_dropWhile_le [of isAlphaNumericUnderscore s]
  by (auto simp: scanVar_def split: if_splits)

function expandVars :: "(string \<Rightarrow> string option) \<Rightarrow> string \<Rightarrow> go_error + string" where
  "expandVars env s = (case s of
     [] \<Rightarrow> Inr []
   | c # r \<Rightarrow>
       if c = CHR 0x5C \<and> r \<noteq> '''' \<and> hd r = CHR ''$''
         then map_sum id (\<lambda>t. CHR ''$'' # t) (expandVars env (tl r))
       else if c = CHR ''$'' then
         (case scanVar r of
            Inl err \<Rightarrow> Inl err
          | Inr (varName, rest) \<Rightarrow>
              if varName = '''' then Inl (Errorf ''empty variable name'' [])
              else case env varName of
                None \<Rightarrow> Inl (Errorf ''undefined environment variable: %s'' [Str varName])
              | Some value \<Rightarrow> map_sum id (\<lambda>t. value @ t) (expandVars env rest))
       else map_sum id (\<lambda>t. c # t) (expandVars env r))"
  by pat_completeness auto
termination
  by (relation "measure (\<lambda>(_, s). length s)") (auto dest: scanVar_shorter)

declare expandVars.simps [simp del]

text \<open>\<open>ExpandRunConfig\<close> writes through the pointer: a failed expansion has stored the empty
  string before it returns.\<close>

definition expandField ::
  "(string \<Rightarrow> string option) \<Rightarrow> string \<Rightarrow> string \<Rightarrow> go_error option \<times> string" where
  "expandField env label s = (case expandVars env s of
     Inl err \<Rightarrow> (Some (Wrapf (label @ '': %w'') [] err), '''')
   | Inr t \<Rightarrow> (None, t))"

fun expandArgs ::
  "(string \<Rightarrow> string option) \<Rightarrow> nat \<Rightarrow> string list \<Rightarrow> go_error option \<times> string list" where
  "expandArgs env i [] = (None, [])"
| "expandArgs env i (a # as) = (case expandVars env a of
     Inl err \<Rightarrow> (Some (Wrapf ''args[%d]: %w'' [Num (int i)] err), '''' # as)
   | Inr t \<Rightarrow> (case expandArgs env (Suc i) as of (e, ts) \<Rightarrow> (e, t # ts)))"

text \<open>The optional fields are skipped when empty.\<close>

definition expandOptional ::
  "(string \<Rightarrow> string option) \<Rightarrow> string \<Rightarrow> string \<Rightarrow> go_error option \<times> string" where
  "expandOptional env label s = (if s \<noteq> '''' then expandField env label s else (None, s))"

definition expandRunConfig ::
  "(string \<Rightarrow> string option) \<Rightarrow> run_config option \<Rightarrow> go_error option \<times> run_config option" where
  "expandRunConfig env rco = (case rco of
     None \<Rightarrow> (None, None)
   | Some rc \<Rightarrow>
     (case expandField env ''command'' (rc_command rc) of
        (Some e, c) \<Rightarrow> (Some e, Some (rc\<lparr>rc_command := c\<rparr>))
      | (None, c) \<Rightarrow> (let rc = rc\<lparr>rc_command := c\<rparr> in
     (case expandArgs env 0 (rc_args rc) of
        (Some e, as) \<Rightarrow> (Some e, Some (rc\<lparr>rc_args := as\<rparr>))
      | (None, as) \<Rightarrow> (let rc = rc\<lparr>rc_args := as\<rparr> in
     (case expandOptional env ''env_file'' (rc_envFile rc) of
        (Some e, f) \<Rightarrow> (Some e, Some (rc\<lparr>rc_envFile := f\<rparr>))
      | (None, f) \<Rightarrow> (let rc = rc\<lparr>rc_envFile := f\<rparr> in
     (case expandOptional env ''stdout'' (rc_stdout rc) of
        (Some e, f) \<Rightarrow> (Some e, Some (rc\<lparr>rc_stdout := f\<rparr>))
      | (None, f) \<Rightarrow> (let rc = rc\<lparr>rc_stdout := f\<rparr> in
     (case expandOptional env ''stderr'' (rc_stderr rc) of
        (e, f) \<Rightarrow> (e, Some (rc\<lparr>rc_stderr := f\<rparr>))))))))))))"

subsection \<open>Lemmas\<close>

lemma check_seq_ok_iff:
  "(case x of Checked None \<Rightarrow> k | r \<Rightarrow> r) = Checked None \<longleftrightarrow> x = Checked None \<and> k = Checked None"
  by (auto split: check.splits option.splits)

lemma runModeCheck_ok_iff:
  "runModeCheck err mode = Checked None \<longleftrightarrow>
     mode \<in> {'''', ''inherit'', ''discard''} \<or> has_prefix mode ''file:''"
proof -
  have "has_prefix mode ''file:'' \<longleftrightarrow> 5 \<le> length mode \<and> take 5 mode = ''file:''"
    using has_prefix_length [of mode "''file:''"] by (auto simp: has_prefix_def eval_nat_numeral)
  then show ?thesis by (auto simp: runModeCheck_def)
qed

lemma runModeCheck_panics_iff:
  "runModeCheck err mode = Panicked \<longleftrightarrow> 0 < length mode \<and> length mode < 5"
  by (auto simp: runModeCheck_def)

definition run_ok :: "run_config \<Rightarrow> bool" where
  "run_ok rc \<longleftrightarrow> rc_command rc \<noteq> '''' \<and>
     (rc_stdout rc \<in> {'''', ''inherit'', ''discard''} \<or> has_prefix (rc_stdout rc) ''file:'') \<and>
     (rc_stderr rc \<in> {'''', ''inherit'', ''discard''} \<or> has_prefix (rc_stderr rc) ''file:'')"

lemma runValidate_ok_iff: "runValidate name rc = Checked None \<longleftrightarrow> run_ok rc"
  unfolding runValidate_def run_ok_def by (simp add: check_seq_ok_iff runModeCheck_ok_iff)

lemma dropsValidate_None_iff:
  "dropsValidate name ds = None \<longleftrightarrow> (\<forall>d \<in> set ds. \<exists>u. parseURLPattern d = Inr u)"
  by (induction ds) (auto split: sum.splits)

definition service_config_ok :: "service_config \<Rightarrow> bool" where
  "service_config_ok svc \<longleftrightarrow> sc_hostPattern svc \<noteq> '''' \<and>
     (sc_placeholder svc = '''' \<or> 8 \<le> length (sc_placeholder svc)) \<and>
     list_all pattern_ok (sc_allowedPaths svc) \<and>
     (\<forall>d \<in> set (sc_drop svc). \<exists>u. parseURLPattern d = Inr u) \<and>
     (case sc_run svc of None \<Rightarrow> True | Some rc \<Rightarrow> run_ok rc)"

lemma serviceConfigValidate_ok_iff:
  "serviceConfigValidate name svc = Checked None \<longleftrightarrow> service_config_ok svc"
  by (auto simp: serviceConfigValidate_def service_config_ok_def validatePathPatterns_None_iff [symmetric]
      dropsValidate_None_iff [symmetric, of _ name] runValidate_ok_iff split: option.splits)

lemma servicesValidate_ok_iff:
  "servicesValidate svcs = Checked None \<longleftrightarrow> (\<forall>(name, svc) \<in> set svcs. service_config_ok svc)"
proof (induction svcs)
  case (Cons e svcs)
  then show ?case by (cases e) (simp add: check_seq_ok_iff serviceConfigValidate_ok_iff)
qed simp

definition grantable_ok :: "grantable_config \<Rightarrow> bool" where
  "grantable_ok g \<longleftrightarrow> trim_space (gc_hostPattern g) \<noteq> '''' \<and> trim_space (gc_authStrategy g) \<noteq> '''' \<and>
     trim_space (gc_credentialRef g) \<noteq> '''' \<and> isKnownScheme (gc_credentialRef g) \<and> 0 \<le> gc_maxBodyBytes g \<and>
     list_all pattern_ok (gc_allowedPaths g)"

lemma grantableValidate_None_iff: "grantableValidate i g = None \<longleftrightarrow> grantable_ok g"
  by (auto simp: grantableValidate_def grantable_ok_def validatePathPatterns_None_iff [symmetric] split: option.splits)

lemma grantablesValidate_None_iff: "grantablesValidate i gs = None \<longleftrightarrow> list_all grantable_ok gs"
proof (induction gs arbitrary: i)
  case (Cons g gs)
  then show ?case using grantableValidate_None_iff [of i g] by (cases "grantableValidate i g") auto
qed simp

definition grantableBound :: "grantable_config \<Rightarrow> policy" where
  "grantableBound g = empty_policy\<lparr>allowedMethods := gc_allowedMethods g, allowedPaths := gc_allowedPaths g,
     maxBodyBytes := gc_maxBodyBytes g\<rparr>"

lemma configValidate_ok_iff:
  "configValidate trust c = Checked None \<longleftrightarrow>
     srv_address (cfg_server c) = ''127.0.0.1'' \<and> (\<exists>pool. upstreamCAPool trust c = Inr pool) \<and>
     srv_port (cfg_server c) = 0 \<and> lc_level (cfg_logging c) \<in> {''debug'', ''info'', ''warn'', ''error''} \<and>
     (\<forall>(name, svc) \<in> set (cfg_services c). service_config_ok svc) \<and> list_all grantable_ok (cfg_grantable c)"
proof -
  have body: "(case servicesValidate (cfg_services c) of
          Checked None \<Rightarrow> Checked (grantablesValidate 0 (cfg_grantable c)) | r \<Rightarrow> r) = Checked None \<longleftrightarrow>
     (\<forall>(name, svc) \<in> set (cfg_services c). service_config_ok svc) \<and> list_all grantable_ok (cfg_grantable c)"
    by (simp add: check_seq_ok_iff servicesValidate_ok_iff grantablesValidate_None_iff)
  show ?thesis
    by (cases "upstreamCAPool trust c") (simp_all add: configValidate_def body)
qed

subsection \<open>Properties of configuration\<close>

text \<open>C29: an accepted configuration is enforceable. When \<open>Validate\<close> returns nil, every allowed path
  and every drop pattern of every service parses, placeholders are absent or at least eight
  bytes, every grantable names a known secret scheme and has a bound the grant enforcer
  accepts; acceptance does not depend on the iteration order of the service map. So the
  parse-error branches of the path check and of the drop handler cannot be reached.\<close>

theorem accepted_config_is_enforceable:
  assumes "configValidate trust c = Checked None"
  shows "(\<forall>(name, svc) \<in> set (cfg_services c). sc_hostPattern svc \<noteq> '''' \<and>
       (sc_placeholder svc = '''' \<or> 8 \<le> length (sc_placeholder svc)) \<and>
       (\<forall>s \<in> set (sc_allowedPaths svc). \<exists>pp. parsePathPattern s = Inr pp) \<and>
       (\<forall>d \<in> set (sc_drop svc). \<exists>u. parseURLPattern d = Inr u)) \<and>
    (\<forall>g \<in> set (cfg_grantable c). isKnownScheme (gc_credentialRef g) \<and>
       narrows (Some (grantableBound g)) (Some (grantableBound g)) = None) \<and>
    (\<forall>svcs. set svcs = set (cfg_services c) \<longrightarrow> configValidate trust (c\<lparr>cfg_services := svcs\<rparr>) = Checked None)"
proof (intro conjI)
  note ok = assms [unfolded configValidate_ok_iff]
  show "\<forall>(name, svc) \<in> set (cfg_services c). sc_hostPattern svc \<noteq> '''' \<and>
       (sc_placeholder svc = '''' \<or> 8 \<le> length (sc_placeholder svc)) \<and>
       (\<forall>s \<in> set (sc_allowedPaths svc). \<exists>pp. parsePathPattern s = Inr pp) \<and>
       (\<forall>d \<in> set (sc_drop svc). \<exists>u. parseURLPattern d = Inr u)"
    using ok parse_ok_iff by (fastforce simp: service_config_ok_def list_all_iff)
  show "\<forall>g \<in> set (cfg_grantable c). isKnownScheme (gc_credentialRef g) \<and>
       narrows (Some (grantableBound g)) (Some (grantableBound g)) = None"
    using ok by (auto simp: list_all_iff grantable_ok_def narrows_refl_iff grantableBound_def)
  show "\<forall>svcs. set svcs = set (cfg_services c) \<longrightarrow> configValidate trust (c\<lparr>cfg_services := svcs\<rparr>) = Checked None"
    using ok by (auto simp: configValidate_ok_iff upstreamCAPool_def)
qed

definition demo_service_config :: service_config where
  "demo_service_config = \<lparr>sc_hostPattern = ''api.example.com'', sc_authStrategy = ''bearer'', sc_headerName = '''',
     sc_credentialRef = ''env:KEY'', sc_placeholder = '''', sc_allowedMethods = [], sc_allowedPaths = [''/v1/*''],
     sc_maxBodyBytes = 0, sc_clientGroups = [], sc_drop = [''example.com/admin/*''], sc_strip = [], sc_run = None\<rparr>"

definition demo_grantable :: grantable_config where
  "demo_grantable = \<lparr>gc_credentialRef = ''env:KEY'', gc_hostPattern = ''Api.example.com'', gc_authStrategy = ''bearer'',
     gc_headerName = '''', gc_allowedMethods = [''GET''], gc_allowedPaths = [''/v1/*''], gc_maxBodyBytes = 0\<rparr>"

definition demo_config :: config where
  "demo_config = setDefaults \<lparr>cfg_server = \<lparr>srv_address = '''', srv_port = 0, srv_upstreamCAFile = ''''\<rparr>,
     cfg_services = [(''demo'', demo_service_config)],
     cfg_logging = \<lparr>lc_level = '''', lc_format = '''', lc_output = ''''\<rparr>,
     cfg_audit = \<lparr>ac_enabled = True, ac_path = ''''\<rparr>, cfg_grantable = [demo_grantable]\<rparr>"

theorem accepted_config_is_enforceable_witness:
  "configValidate (\<lambda>_. Inr (None :: unit option)) demo_config = Checked None \<and>
   (\<exists>pp. parsePathPattern ''/v1/*'' = Inr pp) \<and> isKnownScheme (gc_credentialRef demo_grantable)"
proof -
  have *: "configValidate (\<lambda>_. Inr (None :: unit option)) demo_config = Checked None" by code_simp
  have "\<forall>(name, svc) \<in> set (cfg_services demo_config). \<forall>s \<in> set (sc_allowedPaths svc). \<exists>pp. parsePathPattern s = Inr pp"
    and "\<forall>g \<in> set (cfg_grantable demo_config). isKnownScheme (gc_credentialRef g)"
    using accepted_config_is_enforceable [OF *] by auto
  then show ?thesis using *
    by (auto simp: demo_config_def setDefaults_def demo_service_config_def)
qed

text \<open>validation can panic instead of rejecting. A service whose run section has a command and a
  standard-output mode that is none of the documented ones and shorter than five bytes (for
  example \<open>pipe\<close>) makes \<open>Validate\<close> panic on the slice \<open>Stdout[:5]\<close> where it means to return
  the error that lists the valid modes; a longer invalid mode is rejected.\<close>

theorem short_run_mode_panics:
  assumes "srv_address (cfg_server c) = ''127.0.0.1''" "upstreamCAPool trust c = Inr pool"
    and "srv_port (cfg_server c) = 0" "lc_level (cfg_logging c) \<in> {''debug'', ''info'', ''warn'', ''error''}"
    and "cfg_services c = (name, svc\<lparr>sc_run := Some rc\<rparr>) # rest" "service_config_ok (svc\<lparr>sc_run := None\<rparr>)"
    and "rc_command rc \<noteq> ''''" "rc_stdout rc \<notin> {'''', ''inherit'', ''discard''}" "\<not> has_prefix (rc_stdout rc) ''file:''"
  shows "if length (rc_stdout rc) < 5 then configValidate trust c = Panicked
    else \<exists>e. configValidate trust c = Checked (Some e)"
proof -
  have "serviceConfigValidate name (svc\<lparr>sc_run := Some rc\<rparr>) = runValidate name rc"
    using assms(6) serviceConfigValidate_ok_iff [of name "svc\<lparr>sc_run := None\<rparr>"]
    by (auto simp: serviceConfigValidate_def split: option.splits if_splits)
  moreover have "runValidate name rc = (if length (rc_stdout rc) < 5 then Panicked
      else Checked (Some (Errorf (''service %q: run.stdout must be 'inherit', 'discard', or 'file:/path'' @ [CHR 0x27]) [Str name])))"
  proof -
    have "take 5 (rc_stdout rc) \<noteq> ''file:''"
      using assms(9) by (auto simp: has_prefix_def eval_nat_numeral)
    then show ?thesis using assms(7,8) by (simp add: runValidate_def runModeCheck_def)
  qed
  ultimately show ?thesis using assms(1-5) by (auto simp: configValidate_def)
qed

theorem short_run_mode_panics_witness:
  "configValidate (\<lambda>_. Inr (None :: unit option)) (demo_config\<lparr>cfg_services := [(''demo'', demo_service_config
     \<lparr>sc_run := Some \<lparr>rc_command = ''ls'', rc_args = [], rc_envFile = '''', rc_stdin = '''', rc_stdout = ''pipe'',
        rc_stderr = '''', rc_caEnvVars = []\<rparr>\<rparr>)]\<rparr>) = Panicked"
  (is "configValidate ?t ?c = Panicked")
proof -
  let ?rc = "\<lparr>rc_command = ''ls'', rc_args = [], rc_envFile = '''', rc_stdin = '''', rc_stdout = ''pipe'',
        rc_stderr = '''', rc_caEnvVars = []\<rparr>"
  have ok: "service_config_ok (demo_service_config\<lparr>sc_run := None\<rparr>)"
    unfolding serviceConfigValidate_ok_iff [of "''x''", symmetric] by code_simp
  have "if length (rc_stdout ?rc) < 5 then configValidate ?t ?c = Panicked
      else \<exists>e. configValidate ?t ?c = Checked (Some e)"
    by (rule short_run_mode_panics [OF _ _ _ _ _ ok, where pool = None and rest = "[]"]) code_simp+
  then show ?thesis by simp
qed

lemma map_sum_id_Inr_iff: "map_sum id f x = Inr z \<longleftrightarrow> (\<exists>y. x = Inr y \<and> z = f y)"
  by (cases x) auto

fun escapeVars :: "string \<Rightarrow> string" where
  "escapeVars [] = []"
| "escapeVars (c # s) = (if c = CHR ''$'' then CHR 0x5C # CHR ''$'' # escapeVars s else c # escapeVars s)"

lemma escapeVars_hd: "escapeVars s \<noteq> '''' \<Longrightarrow> hd (escapeVars s) \<noteq> CHR ''$''"
  by (cases s) auto

lemma expandVars_escape: "expandVars env (escapeVars s) = Inr s"
proof (induction s)
  case Nil
  then show ?case by (simp add: expandVars.simps)
next
  case (Cons c s)
  show ?case
  proof (cases "c = CHR ''$''")
    case True
    then show ?thesis using Cons by (subst expandVars.simps) simp
  next
    case False
    then show ?thesis using Cons escapeVars_hd [of s] by (subst expandVars.simps) auto
  qed
qed

lemma isAlpha_not_brace: "isAlphaNumericUnderscore c \<Longrightarrow> c \<noteq> CHR ''}'' \<and> c \<noteq> CHR ''{'' \<and> c \<noteq> CHR ''$''"
  by (auto simp: isAlphaNumericUnderscore_def of_char_le_iff)

lemma expandVars_braced:
  assumes "name \<noteq> ''''" "CHR ''}'' \<notin> set name"
  shows "expandVars env (''${'' @ name @ CHR ''}'' # rest) = (case env name of
     None \<Rightarrow> Inl (Errorf ''undefined environment variable: %s'' [Str name])
   | Some v \<Rightarrow> map_sum id (\<lambda>t. v @ t) (expandVars env rest))"
proof -
  have n: "\<forall>c \<in> set name. c \<noteq> CHR ''}''" using assms(2) by blast
  then have tk: "takeWhile (\<lambda>c. c \<noteq> CHR ''}'') (name @ CHR ''}'' # rest) = name"
    by (subst takeWhile_append2) auto
  have dw: "dropWhile (\<lambda>c. c \<noteq> CHR ''}'') (name @ CHR ''}'' # rest) = CHR ''}'' # rest"
    using n by (subst dropWhile_append2) auto
  have "scanVar (CHR ''{'' # name @ CHR ''}'' # rest) = Inr (name, rest)"
    by (simp add: scanVar_def tk dw)
  then show ?thesis using assms(1) by (subst expandVars.simps) simp
qed



end
