(* ===== verification/Grant.thy ===== *)
theory Grant
  imports Config
begin

text \<open>
  \<open>internal/grant/enforcer.go\<close>: the human-approved pairings and the single decision whether a
  proposed service is an authorized grant. The enforcer's state is its map from identity
  triples to pairings, built once from the configuration's grantable list.
\<close>

record triple_key =
  tk_credentialRef :: string
  tk_hostPattern :: string
  tk_authStrategy :: string

record pairing =
  pr_identity :: triple_key
  pr_maxBound :: policy

type_synonym enforcer = "(triple_key, pairing) gomap"

definition identityOf :: "string \<Rightarrow> string \<Rightarrow> string \<Rightarrow> string \<Rightarrow> triple_key" where
  "identityOf credential host strategy header =
     \<lparr>tk_credentialRef = credential, tk_hostPattern = to_lower (trim_space host),
      tk_authStrategy = canonicalAuthRef strategy header\<rparr>"

definition grantableIdentity :: "grantable_config \<Rightarrow> triple_key" where
  "grantableIdentity g = identityOf (gc_credentialRef g) (gc_hostPattern g) (gc_authStrategy g) (gc_headerName g)"

text \<open>The constructor's loop, from index \<open>i\<close> with the pairings accepted so far.\<close>

fun newEnforcerFrom :: "nat \<Rightarrow> enforcer \<Rightarrow> grantable_config list \<Rightarrow> go_error + enforcer" where
  "newEnforcerFrom i pairings [] = Inr pairings"
| "newEnforcerFrom i pairings (g # gs) =
     (let ident = grantableIdentity g; bound = grantableBound g in
      if map_get pairings ident \<noteq> None
        then Inl (Errorf ''grantable[%d]: duplicate pairing for credential_ref=%q host_pattern=%q auth_strategy=%q''
               [Num (int i), Str (gc_credentialRef g), Str (tk_hostPattern ident), Str (tk_authStrategy ident)])
      else case narrows (Some bound) (Some bound) of
        Some err \<Rightarrow> Inl (Wrapf ''grantable[%d]: invalid maximal bound: %w'' [Num (int i)] err)
      | None \<Rightarrow> newEnforcerFrom (Suc i)
          (map_put ident \<lparr>pr_identity = ident, pr_maxBound = bound\<rparr> pairings) gs)"

definition newEnforcer :: "grantable_config list \<Rightarrow> go_error + enforcer" where
  "newEnforcer gs = newEnforcerFrom 0 [] gs"

definition listPairings :: "enforcer \<Rightarrow> pairing list" where
  "listPairings e = map snd e"

definition operatorOnlyFieldsEmpty :: "service \<Rightarrow> go_error option" where
  "operatorOnlyFieldsEmpty s = (case svcPolicy s of None \<Rightarrow> None | Some p \<Rightarrow>
     if clientGroups p \<noteq> [] then Some (Errorf ''grant rejected: client_groups is operator-only and not grantable'' [])
     else if dropPatterns p \<noteq> [] then Some (Errorf ''grant rejected: drop is operator-only and not grantable'' [])
     else if stripHeaders p \<noteq> [] then Some (Errorf ''grant rejected: strip is operator-only and not grantable'' [])
     else None)"

definition serviceIdentity :: "service \<Rightarrow> triple_key" where
  "serviceIdentity s = identityOf (credentialRef s) (hostPattern s) (authStrategyRef s) (headerName s)"

definition authorize :: "enforcer \<Rightarrow> service option \<Rightarrow> go_error option" where
  "authorize e proposed = (case proposed of
     None \<Rightarrow> Some (Errorf ''grant rejected: no service proposed'' [])
   | Some s \<Rightarrow> (case operatorOnlyFieldsEmpty s of
       Some err \<Rightarrow> Some err
     | None \<Rightarrow> (case (case svcPolicy s of None \<Rightarrow> None | Some p \<Rightarrow> validatePathPatterns (allowedPaths p)) of
         Some err \<Rightarrow> Some (Wrapf ''grant rejected: allowed_paths: %w'' [] err)
       | None \<Rightarrow> (let ident = serviceIdentity s in
           case map_get e ident of
             None \<Rightarrow> Some (Errorf ''grant rejected: no approved pairing for credential_ref=%q host_pattern=%q auth_strategy=%q''
                       [Str (credentialRef s), Str (tk_hostPattern ident), Str (tk_authStrategy ident)])
           | Some pairing \<Rightarrow> (case narrows (svcPolicy s) (Some (pr_maxBound pairing)) of
               Some err \<Rightarrow> Some (Wrapf ''grant rejected: scope is not within the approved bound: %w'' [] err)
             | None \<Rightarrow> None)))))"

subsection \<open>Lemmas\<close>

definition enforcer_ok :: "grantable_config list \<Rightarrow> enforcer \<Rightarrow> bool" where
  "enforcer_ok gs e \<longleftrightarrow> go_map_ok e \<and>
     (\<forall>k p. map_get e k = Some p \<longrightarrow> pr_identity p = k \<and>
        (\<exists>g \<in> set gs. k = grantableIdentity g \<and> pr_maxBound p = grantableBound g))"

lemma newEnforcerFrom_ok:
  "newEnforcerFrom i e0 gs = Inr e \<Longrightarrow> enforcer_ok gs0 e0 \<Longrightarrow> enforcer_ok (gs0 @ gs) e"
proof (induction gs arbitrary: i e0 gs0)
  case (Cons g gs)
  let ?e1 = "map_put (grantableIdentity g) \<lparr>pr_identity = grantableIdentity g, pr_maxBound = grantableBound g\<rparr> e0"
  from Cons.prems(1) have 1: "newEnforcerFrom (Suc i) ?e1 gs = Inr e"
    by (auto simp: Let_def split: if_splits option.splits)
  have "enforcer_ok (gs0 @ [g]) ?e1"
    using Cons.prems(2) unfolding enforcer_ok_def by (auto split: if_splits)
  from Cons.IH [OF 1 this] show ?case by simp
qed simp

lemma newEnforcer_ok: "newEnforcer gs = Inr e \<Longrightarrow> enforcer_ok gs e"
  using newEnforcerFrom_ok [of 0 "[]" gs e "[]"] by (simp add: newEnforcer_def enforcer_ok_def)

lemma newEnforcerFrom_keys:
  "newEnforcerFrom i e0 gs = Inr e \<Longrightarrow>
     distinct (map grantableIdentity gs) \<and> set (map grantableIdentity gs) \<inter> set (map_keys e0) = {} \<and>
     (\<forall>g \<in> set gs. list_all pattern_ok (gc_allowedPaths g)) \<and>
     (\<forall>k. map_get e0 k \<noteq> None \<longrightarrow> map_get e k = map_get e0 k) \<and>
     (\<forall>g \<in> set gs. map_get e (grantableIdentity g) =
        Some \<lparr>pr_identity = grantableIdentity g, pr_maxBound = grantableBound g\<rparr>)"
proof (induction gs arbitrary: i e0)
  case (Cons g gs)
  let ?e1 = "map_put (grantableIdentity g) \<lparr>pr_identity = grantableIdentity g, pr_maxBound = grantableBound g\<rparr> e0"
  from Cons.prems have 1: "newEnforcerFrom (Suc i) ?e1 gs = Inr e"
    and fresh: "map_get e0 (grantableIdentity g) = None"
    and pats: "list_all pattern_ok (gc_allowedPaths g)"
    using narrows_refl_iff [of "grantableBound g"]
    by (auto simp: Let_def grantableBound_def split: if_splits option.splits)
  note IH = Cons.IH [OF 1]
  have keys: "set (map_keys ?e1) = insert (grantableIdentity g) (set (map_keys e0))" by (rule map_keys_put)
  have "grantableIdentity g \<notin> set (map_keys e0)" using fresh by (simp add: map_get_None_iff)
  moreover have "grantableIdentity g \<notin> set (map grantableIdentity gs)"
    using IH keys by blast
  moreover have "map_get e (grantableIdentity g) =
      Some \<lparr>pr_identity = grantableIdentity g, pr_maxBound = grantableBound g\<rparr>"
    using IH by simp
  moreover have "map_get e k = map_get e0 k" if "map_get e0 k \<noteq> None" for k
  proof -
    have "k \<noteq> grantableIdentity g" using that fresh by auto
    then show ?thesis using IH that by simp
  qed
  ultimately show ?case using IH keys pats by auto
qed simp

lemma newEnforcer_complete:
  "newEnforcer gs = Inr e \<Longrightarrow> g \<in> set gs \<Longrightarrow> map_get e (grantableIdentity g) =
     Some \<lparr>pr_identity = grantableIdentity g, pr_maxBound = grantableBound g\<rparr>"
  using newEnforcerFrom_keys [of 0 "[]" gs e] by (simp add: newEnforcer_def)

definition operator_fields_empty :: "policy option \<Rightarrow> bool" where
  "operator_fields_empty p \<longleftrightarrow> (case p of None \<Rightarrow> True
     | Some p \<Rightarrow> clientGroups p = [] \<and> dropPatterns p = [] \<and> stripHeaders p = [])"

lemma authorize_None_iff:
  "authorize e (Some s) = None \<longleftrightarrow> operator_fields_empty (svcPolicy s) \<and>
     (\<forall>p. svcPolicy s = Some p \<longrightarrow> list_all pattern_ok (allowedPaths p)) \<and>
     (\<exists>pairing. map_get e (serviceIdentity s) = Some pairing \<and>
        narrows (svcPolicy s) (Some (pr_maxBound pairing)) = None)"
  by (auto simp: authorize_def operatorOnlyFieldsEmpty_def operator_fields_empty_def Let_def
      validatePathPatterns_None_iff [symmetric] split: option.splits if_splits)

end
