(* ===== verification/Audit_Log.thy ===== *)
theory Audit_Log
  imports Errors
begin

text \<open>
  \<open>internal/audit/logger.go\<close>: the audit trail. A logger's state is the list of entries its
  writer has accepted; the writer is a parameter, the error (if any) of the n-th write. The
  time stamp \<open>Log\<close> adds is the wall clock's and is not modelled. \<open>logAudit\<close> (of the proxy and
  the control plane) discards the error of \<open>Log\<close> after reporting it on the operational log.
\<close>

datatype event =
    EventCredentialInjected | EventAuthFailure | EventPolicyDenied | EventRequestDropped
  | EventAuthHeaderStripped | EventPlaceholderMismatch
  | EventGrantApplied | EventGrantRevoked | EventGrantRejected

record entry =
  en_event :: event
  en_service :: string
  en_host :: string
  en_path :: string
  en_method :: string
  en_authStrategy :: string
  en_requestID :: string
  en_clientIP :: string
  en_outcome :: string
  en_statusCode :: int
  en_error :: "go_error option"
  en_detail :: "fmt_arg list"

definition blank_entry :: "event \<Rightarrow> entry" where
  "blank_entry ev = \<lparr>en_event = ev, en_service = '''', en_host = '''', en_path = '''', en_method = '''',
     en_authStrategy = '''', en_requestID = '''', en_clientIP = '''', en_outcome = '''', en_statusCode = 0,
     en_error = None, en_detail = []\<rparr>"

record audit_logger =
  al_enabled :: bool
  al_writer :: "nat \<Rightarrow> go_error option"
  al_attempts :: nat
  al_entries :: "entry list"

text \<open>\<open>NewLogger\<close>: opening the file may fail; \<open>writer\<close> is the writer the path leads to.\<close>

definition newAuditLogger ::
  "(string \<Rightarrow> go_error + (nat \<Rightarrow> go_error option)) \<Rightarrow> (nat \<Rightarrow> go_error option) \<Rightarrow> bool \<Rightarrow> string
   \<Rightarrow> go_error + audit_logger" where
  "newAuditLogger openFile stdout enabled path =
     (if \<not> enabled then Inr \<lparr>al_enabled = False, al_writer = (\<lambda>_. None), al_attempts = 0, al_entries = []\<rparr>
      else if path = '''' \<or> path = ''stdout''
        then Inr \<lparr>al_enabled = True, al_writer = stdout, al_attempts = 0, al_entries = []\<rparr>
      else case openFile path of
        Inl err \<Rightarrow> Inl err
      | Inr w \<Rightarrow> Inr \<lparr>al_enabled = True, al_writer = w, al_attempts = 0, al_entries = []\<rparr>)"

definition auditLog :: "entry \<Rightarrow> audit_logger \<Rightarrow> go_error option \<times> audit_logger" where
  "auditLog e l =
     (if \<not> al_enabled l then (None, l)
      else case al_writer l (al_attempts l) of
        Some err \<Rightarrow> (Some err, l\<lparr>al_attempts := Suc (al_attempts l)\<rparr>)
      | None \<Rightarrow> (None, l\<lparr>al_attempts := Suc (al_attempts l), al_entries := al_entries l @ [e]\<rparr>))"

definition logAudit :: "entry \<Rightarrow> audit_logger \<Rightarrow> audit_logger" where
  "logAudit e l = snd (auditLog e l)"

text \<open>A logger that records everything: enabled, with a writer that does not fail.\<close>

definition audit_reliable :: "audit_logger \<Rightarrow> bool" where
  "audit_reliable l \<longleftrightarrow> al_enabled l \<and> (\<forall>n. al_writer l n = None)"

lemma logAudit_reliable:
  "audit_reliable l \<Longrightarrow> audit_reliable (logAudit e l) \<and> al_entries (logAudit e l) = al_entries l @ [e]"
  by (simp add: audit_reliable_def logAudit_def auditLog_def)

lemma logAudit_appends: "al_entries (logAudit e l) = al_entries l \<or> al_entries (logAudit e l) = al_entries l @ [e]"
  by (auto simp: logAudit_def auditLog_def split: option.splits)

lemma logAudit_disabled: "\<not> al_enabled l \<Longrightarrow> logAudit e l = l"
  by (simp add: logAudit_def auditLog_def)

end
