(* ===== verification/Control.thy ===== *)
theory Control
  imports Grant Audit_Log
begin

text \<open>
  \<open>internal/control\<close>: the wire types (\<open>protocol.go\<close>), the four operations on the live registry
  (\<open>api.go\<close>) and the HTTP handlers with their outcome contract (\<open>server.go\<close>).

  The state of the control plane is the live service registry and the audit trail; the
  enforcer is fixed at startup. Decoding a JSON body is a parameter (with unknown fields
  rejected, it yields one of the request types or an error); a response body is kept as the
  value that is encoded.
\<close>

record grant_request =
  gr_name :: string
  gr_hostPattern :: string
  gr_credentialRef :: string
  gr_authStrategy :: string
  gr_headerName :: string
  gr_placeholder :: string
  gr_allowedMethods :: "string list"
  gr_allowedPaths :: "string list"
  gr_maxBodyBytes :: int

definition toService :: "grant_request \<Rightarrow> service" where
  "toService g =
     \<lparr>svcName = (if gr_name g = '''' then gr_hostPattern g else gr_name g),
      hostPattern = gr_hostPattern g,
      authStrategyRef = canonicalAuthRef (gr_authStrategy g) (gr_headerName g),
      headerName = gr_headerName g,
      credentialRef = gr_credentialRef g,
      placeholder = gr_placeholder g,
      svcPolicy = Some \<lparr>allowedMethods = gr_allowedMethods g, allowedPaths = gr_allowedPaths g,
        maxBodyBytes = gr_maxBodyBytes g, clientGroups = [], dropPatterns = [], stripHeaders = []\<rparr>\<rparr>"

record policy_view =
  pv_allowedMethods :: "string list"
  pv_allowedPaths :: "string list"
  pv_maxBodyBytes :: int

definition policyView :: "policy option \<Rightarrow> policy_view" where
  "policyView po = (case po of
     None \<Rightarrow> \<lparr>pv_allowedMethods = [], pv_allowedPaths = [], pv_maxBodyBytes = 0\<rparr>
   | Some p \<Rightarrow> \<lparr>pv_allowedMethods = allowedMethods p, pv_allowedPaths = allowedPaths p,
                pv_maxBodyBytes = maxBodyBytes p\<rparr>)"

record service_view =
  sv_name :: string
  sv_hostPattern :: string
  sv_credentialRef :: string
  sv_authStrategy :: string
  sv_headerName :: string
  sv_placeholder :: string
  sv_scope :: policy_view

record pairing_view =
  pw_credentialRef :: string
  pw_hostPattern :: string
  pw_authStrategy :: string
  pw_maxBound :: policy_view

definition serviceView :: "service \<Rightarrow> service_view" where
  "serviceView s = \<lparr>sv_name = svcName s, sv_hostPattern = hostPattern s, sv_credentialRef = credentialRef s,
     sv_authStrategy = authStrategyRef s, sv_headerName = headerName s, sv_placeholder = placeholder s,
     sv_scope = policyView (svcPolicy s)\<rparr>"

definition pairingView :: "pairing \<Rightarrow> pairing_view" where
  "pairingView p = \<lparr>pw_credentialRef = tk_credentialRef (pr_identity p), pw_hostPattern = tk_hostPattern (pr_identity p),
     pw_authStrategy = tk_authStrategy (pr_identity p), pw_maxBound = policyView (Some (pr_maxBound p))\<rparr>"

subsection \<open>The operations\<close>

datatype err_kind = KindRejected | KindBadRequest | KindInternal

datatype api_error = ApiError err_kind go_error

record control_state =
  cs_registry :: registry
  cs_audit :: audit_logger

definition grantDetail :: "service \<Rightarrow> fmt_arg list" where
  "grantDetail s = (case svcPolicy s of
     None \<Rightarrow> [Str ''credential_ref=%s scope=unrestricted'', Str (credentialRef s)]
   | Some p \<Rightarrow> [Str ''credential_ref=%s methods=%v paths=%v max_body_bytes=%d'', Str (credentialRef s),
       Strs (allowedMethods p), Strs (allowedPaths p), Num (maxBodyBytes p)])"

definition grantEntry :: "event \<Rightarrow> service \<Rightarrow> string \<Rightarrow> go_error option \<Rightarrow> entry" where
  "grantEntry ev s outcome err = (blank_entry ev)
     \<lparr>en_service := svcName s, en_host := hostPattern s, en_authStrategy := authStrategyRef s,
      en_clientIP := ''unix-socket'', en_outcome := outcome, en_error := err, en_detail := grantDetail s\<rparr>"

definition apiGrant ::
  "enforcer \<Rightarrow> grant_request \<Rightarrow> control_state \<Rightarrow> (api_error + service_view) \<times> control_state" where
  "apiGrant e req st = (let svc = toService req in
     case authorize e (Some svc) of
       Some err \<Rightarrow> (Inl (ApiError KindRejected err),
         st\<lparr>cs_audit := logAudit (grantEntry EventGrantRejected svc ''blocked'' (Some err)) (cs_audit st)\<rparr>)
     | None \<Rightarrow> (let svc = svc\<lparr>svcPolicy := applyDefaults (svcPolicy svc)\<rparr> in
         case reg_upsert (Some svc) (cs_registry st) of
           (Some err, r) \<Rightarrow> (Inl (ApiError KindInternal (Wrapf ''apply grant: %w'' [] err)), st\<lparr>cs_registry := r\<rparr>)
         | (None, r) \<Rightarrow> (Inr (serviceView svc),
             st\<lparr>cs_registry := r,
                cs_audit := logAudit (grantEntry EventGrantApplied svc ''success'' None) (cs_audit st)\<rparr>)))"

definition revokeEntry :: "string \<Rightarrow> bool \<Rightarrow> entry" where
  "revokeEntry host revoked = (blank_entry EventGrantRevoked)
     \<lparr>en_host := host, en_clientIP := ''unix-socket'', en_outcome := ''success'',
      en_detail := [Str (if revoked then ''grant revoked'' else ''no active grant for host'')]\<rparr>"

definition apiRevoke :: "string \<Rightarrow> control_state \<Rightarrow> (api_error + string \<times> bool) \<times> control_state" where
  "apiRevoke host st =
     (if host = '''' then (Inl (ApiError KindBadRequest (Errorf ''revoke: host_pattern is required'' [])), st)
      else case reg_unregister host (cs_registry st) of (err, r) \<Rightarrow>
        (let revoked = (err = None) in
         (Inr (host, revoked),
          st\<lparr>cs_registry := r, cs_audit := logAudit (revokeEntry host revoked) (cs_audit st)\<rparr>)))"

definition apiList :: "control_state \<Rightarrow> service_view list" where
  "apiList st = map serviceView (reg_listAll (cs_registry st))"

definition apiListGrantable :: "enforcer \<Rightarrow> pairing_view list" where
  "apiListGrantable e = map pairingView (listPairings e)"

subsection \<open>The HTTP handlers\<close>

datatype control_body =
    GrantBody service_view | RevokeBody string bool | ListBody "service_view list"
  | ListGrantableBody "pairing_view list" | ErrorBody go_error | NotFoundPage

definition statusFor :: "api_error \<Rightarrow> int" where
  "statusFor err = (case err of
     ApiError KindRejected _ \<Rightarrow> 403 | ApiError KindBadRequest _ \<Rightarrow> 400 | ApiError KindInternal _ \<Rightarrow> 500)"

definition api_message :: "api_error \<Rightarrow> go_error" where
  "api_message err = (case err of ApiError _ e \<Rightarrow> e)"

record decoders =
  dec_grant :: "string \<Rightarrow> go_error + grant_request"
  dec_revoke :: "string \<Rightarrow> go_error + string"

definition handleGrant ::
  "decoders \<Rightarrow> enforcer \<Rightarrow> string \<Rightarrow> string \<Rightarrow> control_state \<Rightarrow> (int \<times> control_body) \<times> control_state" where
  "handleGrant d e method body st =
     (if method \<noteq> ''POST'' then ((405, ErrorBody (Errorf ''use POST'' [])), st)
      else case dec_grant d body of
        Inl err \<Rightarrow> ((400, ErrorBody (Wrapf ''invalid request body: %w'' [] err)), st)
      | Inr req \<Rightarrow> (case apiGrant e req st of
          (Inl err, st') \<Rightarrow> ((statusFor err, ErrorBody (api_message err)), st')
        | (Inr v, st') \<Rightarrow> ((200, GrantBody v), st')))"

definition handleRevoke ::
  "decoders \<Rightarrow> string \<Rightarrow> string \<Rightarrow> control_state \<Rightarrow> (int \<times> control_body) \<times> control_state" where
  "handleRevoke d method body st =
     (if method \<noteq> ''POST'' then ((405, ErrorBody (Errorf ''use POST'' [])), st)
      else case dec_revoke d body of
        Inl err \<Rightarrow> ((400, ErrorBody (Wrapf ''invalid request body: %w'' [] err)), st)
      | Inr host \<Rightarrow> (case apiRevoke host st of
          (Inl err, st') \<Rightarrow> ((statusFor err, ErrorBody (api_message err)), st')
        | (Inr (h, b), st') \<Rightarrow> ((200, RevokeBody h b), st')))"

definition handleList :: "string \<Rightarrow> control_state \<Rightarrow> (int \<times> control_body) \<times> control_state" where
  "handleList method st =
     (if method \<noteq> ''GET'' then ((405, ErrorBody (Errorf ''use GET'' [])), st)
      else ((200, ListBody (apiList st)), st))"

definition handleListGrantable ::
  "enforcer \<Rightarrow> string \<Rightarrow> control_state \<Rightarrow> (int \<times> control_body) \<times> control_state" where
  "handleListGrantable e method st =
     (if method \<noteq> ''GET'' then ((405, ErrorBody (Errorf ''use GET'' [])), st)
      else ((200, ListGrantableBody (apiListGrantable e)), st))"

text \<open>The routes; \<open>ServeMux\<close> answers any other path with 404.\<close>

definition serveControl ::
  "decoders \<Rightarrow> enforcer \<Rightarrow> string \<Rightarrow> string \<Rightarrow> string \<Rightarrow> control_state \<Rightarrow> (int \<times> control_body) \<times> control_state" where
  "serveControl d e path method body st =
     (if path = ''/grant'' then handleGrant d e method body st
      else if path = ''/revoke'' then handleRevoke d method body st
      else if path = ''/list'' then handleList method st
      else if path = ''/list-grantable'' then handleListGrantable e method st
      else ((404, NotFoundPage), st))"

subsection \<open>What a grant does\<close>

definition grantedService :: "grant_request \<Rightarrow> service" where
  "grantedService req = (toService req)\<lparr>svcPolicy := applyDefaults (svcPolicy (toService req))\<rparr>"

lemma toService_identity:
  "serviceIdentity (toService req) =
     identityOf (gr_credentialRef req) (gr_hostPattern req) (gr_authStrategy req) (gr_headerName req)"
  by (simp add: serviceIdentity_def toService_def identityOf_def canonicalAuthRef_idem)

lemma granted_same_fields:
  "hostPattern (grantedService req) = hostPattern (toService req)"
  "serviceIdentity (grantedService req) = serviceIdentity (toService req)"
  "placeholder (grantedService req) = gr_placeholder req"
  by (simp_all add: grantedService_def toService_def serviceIdentity_def)

lemma apiGrant_cases:
  assumes "apiGrant e req st = (res, st')"
  obtains (rejected) err where "authorize e (Some (toService req)) = Some err" "res = Inl (ApiError KindRejected err)"
      "cs_registry st' = cs_registry st"
      "cs_audit st' = logAudit (grantEntry EventGrantRejected (toService req) ''blocked'' (Some err)) (cs_audit st)"
  | (failed) err where "authorize e (Some (toService req)) = None"
      "reg_upsert (Some (grantedService req)) (cs_registry st) = (Some err, cs_registry st')"
      "res = Inl (ApiError KindInternal (Wrapf ''apply grant: %w'' [] err))" "cs_audit st' = cs_audit st"
  | (applied) "authorize e (Some (toService req)) = None"
      "reg_upsert (Some (grantedService req)) (cs_registry st) = (None, cs_registry st')"
      "res = Inr (serviceView (grantedService req))"
      "cs_audit st' = logAudit (grantEntry EventGrantApplied (grantedService req) ''success'' None) (cs_audit st)"
proof (cases "authorize e (Some (toService req))")
  case (Some err)
  then show thesis using assms by (intro rejected) (auto simp: apiGrant_def Let_def)
next
  case None
  obtain eo r where r: "reg_upsert (Some (grantedService req)) (cs_registry st) = (eo, r)" by fastforce
  then show thesis
    using assms None failed applied
    by (cases eo) (auto simp: apiGrant_def Let_def grantedService_def)
qed

lemma granted_policy:
  "svcPolicy (grantedService req) = applyDefaults (svcPolicy (toService req))"
  by (simp add: grantedService_def)

definition within_grantable :: "grantable_config \<Rightarrow> service \<Rightarrow> bool" where
  "within_grantable g s \<longleftrightarrow> serviceIdentity s = grantableIdentity g \<and> credentialRef s = gc_credentialRef g \<and>
     serviceKey (hostPattern s) = serviceKey (gc_hostPattern g) \<and>
     (\<forall>m r n. permits (svcPolicy s) m r n \<longrightarrow> permits (Some (grantableBound g)) m r n)"

lemma authorized_within:
  assumes "enforcer_ok gs e" "authorize e (Some (toService req)) = None"
  shows "\<exists>g \<in> set gs. within_grantable g (grantedService req)"
proof -
  let ?s = "toService req"
  obtain p where p: "map_get e (serviceIdentity ?s) = Some p" "narrows (svcPolicy ?s) (Some (pr_maxBound p)) = None"
    using assms(2) by (auto simp: authorize_None_iff)
  then obtain g where g: "g \<in> set gs" "serviceIdentity ?s = grantableIdentity g" "pr_maxBound p = grantableBound g"
    using assms(1) unfolding enforcer_ok_def by blast
  have "permits (Some (grantableBound g)) m r n" if "permits (svcPolicy (grantedService req)) m r n" for m r n
    using that applyDefaults_permits p(2) g(3) narrows_sound unfolding granted_policy by metis
  moreover have "serviceIdentity (grantedService req) = grantableIdentity g" using g(2) granted_same_fields by simp
  moreover from this have "credentialRef (grantedService req) = gc_credentialRef g"
      "serviceKey (hostPattern (grantedService req)) = serviceKey (gc_hostPattern g)"
    by (simp_all add: serviceIdentity_def grantableIdentity_def identityOf_def serviceKey_def)
  ultimately show ?thesis using g(1) unfolding within_grantable_def by blast
qed

lemma reg_upsert_exec: "reg_upsert so r = reg_exec (Upsert so) r"
  by (simp add: reg_exec_def)

lemma reg_unregister_exec: "reg_unregister h r = reg_exec (Unregister h) r"
  by (simp add: reg_exec_def)

text \<open>Every step of the control plane is at most one store operation.\<close>

lemma apiGrant_store:
  "apiGrant e req st = (res, st') \<Longrightarrow> cs_registry st' = cs_registry st \<or>
     (authorize e (Some (toService req)) = None \<and>
      cs_registry st' = snd (reg_exec (Upsert (Some (grantedService req))) (cs_registry st)))"
  by (erule apiGrant_cases) (auto simp: reg_upsert_exec)

lemma apiRevoke_store:
  "apiRevoke h st = (res, st') \<Longrightarrow> cs_registry st' = cs_registry st \<or>
     cs_registry st' = snd (reg_exec (Unregister h) (cs_registry st))"
  by (auto simp: apiRevoke_def Let_def reg_unregister_exec split: prod.splits if_splits)

subsection \<open>The reachable states\<close>

inductive control_reachable :: "decoders \<Rightarrow> enforcer \<Rightarrow> control_state \<Rightarrow> control_state \<Rightarrow> bool"
  for d e st0 where
  control_init: "control_reachable d e st0 st0"
| control_serve: "control_reachable d e st0 st \<Longrightarrow>
     control_reachable d e st0 (snd (serveControl d e path mth body st))"

inductive_cases control_reachableE: "control_reachable d e st0 st"

lemma serveControl_cases:
  "(\<exists>req res. apiGrant e req st = (res, snd (serveControl d e path mth body st))) \<or>
   (\<exists>h res. apiRevoke h st = (res, snd (serveControl d e path mth body st))) \<or>
   snd (serveControl d e path mth body st) = st"
proof -
  have "(\<exists>req res. apiGrant e req st = (res, snd (handleGrant d e mth body st))) \<or> snd (handleGrant d e mth body st) = st"
    by (auto simp: handleGrant_def split: sum.splits prod.splits)
  moreover have "(\<exists>h res. apiRevoke h st = (res, snd (handleRevoke d mth body st))) \<or> snd (handleRevoke d mth body st) = st"
    by (auto simp: handleRevoke_def split: sum.splits prod.splits)
  ultimately show ?thesis
    by (auto simp: serveControl_def handleList_def handleListGrantable_def)
qed

definition control_inv :: "enforcer \<Rightarrow> registry \<Rightarrow> control_state \<Rightarrow> bool" where
  "control_inv e r0 st \<longleftrightarrow> registry_ok (cs_registry st) \<and>
     (\<forall>k s. map_get (cs_registry st) k = Some s \<longrightarrow> map_get r0 k = Some s \<or>
        (\<exists>req. authorize e (Some (toService req)) = None \<and> s = grantedService req))"

lemma control_inv_step:
  assumes "control_inv e r0 st"
  shows "control_inv e r0 (snd (serveControl d e path mth body st))" (is "control_inv e r0 ?st'")
proof -
  have ok: "registry_ok (cs_registry st)" using assms by (simp add: control_inv_def)
  have op: "control_inv e r0 st'" if st': "cs_registry st' = snd (reg_exec op (cs_registry st))"
    and new: "\<And>s. op \<in> {Register (Some s), Upsert (Some s)} \<Longrightarrow>
        \<exists>req. authorize e (Some (toService req)) = None \<and> s = grantedService req" for st' op
  proof -
    obtain eo r' where r': "reg_exec op (cs_registry st) = (eo, r')" by fastforce
    have "map_get (cs_registry st) k = Some s \<or> op \<in> {Register (Some s), Upsert (Some s)}"
      if "map_get r' k = Some s" for k s
      using that reg.exec_slot [OF ok, of op r' k s] reg.exec_error_unchanged [OF ok, of op _ r'] r'
      by (cases eo) auto
    then show ?thesis
      using assms new st' r' reg.exec_inv [OF ok, of op] unfolding control_inv_def by (metis snd_conv)
  qed
  have same: "control_inv e r0 st'" if "cs_registry st' = cs_registry st" for st'
    using assms that by (simp add: control_inv_def)
  from serveControl_cases [of e st d path mth body] consider
      (grant) req res where "apiGrant e req st = (res, ?st')"
    | (revoke) h res where "apiRevoke h st = (res, ?st')" | (none) "?st' = st" by blast
  then show ?thesis
  proof cases
    case grant
    from apiGrant_store [OF grant] show ?thesis using same op [of ?st'] by blast
  next
    case revoke
    from apiRevoke_store [OF revoke] show ?thesis using same op [of ?st'] by blast
  next
    case none
    then show ?thesis using assms by simp
  qed
qed

lemma control_inv_reachable:
  "control_reachable d e st0 st \<Longrightarrow> registry_ok (cs_registry st0) \<Longrightarrow> control_inv e (cs_registry st0) st"
proof (induction rule: control_reachable.induct)
  case control_init
  then show ?case by (simp add: control_inv_def)
next
  case (control_serve st path mth body)
  then show ?case using control_inv_step by blast
qed

lemma control_reachable_approved:
  assumes "newEnforcer gs = Inr e" "registry_ok (cs_registry st0)" "control_reachable d e st0 st"
    and "reg_lookup h (cs_registry st) = Inr s"
  shows "(\<exists>k. map_get (cs_registry st0) k = Some s) \<or> (\<exists>g \<in> set gs. within_grantable g s)"
proof -
  have inv: "control_inv e (cs_registry st0) st"
    using assms(2,3) control_inv_reachable by blast
  then obtain k where "map_get (cs_registry st) k = Some s"
    using reg.look_is_slot [of "cs_registry st" h s] assms(4) by (auto simp: control_inv_def)
  then show ?thesis
    using inv authorized_within [OF newEnforcer_ok [OF assms(1)]] unfolding control_inv_def by metis
qed

subsection \<open>Properties of the control plane\<close>

definition demo_enforcer :: enforcer where
  "demo_enforcer = projr (newEnforcer [demo_grantable])"

definition demo_state :: control_state where
  "demo_state = \<lparr>cs_registry = [], cs_audit = \<lparr>al_enabled = True, al_writer = (\<lambda>_. None), al_attempts = 0, al_entries = []\<rparr>\<rparr>"

definition demo_grant :: grant_request where
  "demo_grant = \<lparr>gr_name = '''', gr_hostPattern = ''API.example.com'', gr_credentialRef = ''env:KEY'',
     gr_authStrategy = ''bearer'', gr_headerName = '''', gr_placeholder = '''', gr_allowedMethods = [''GET''],
     gr_allowedPaths = [''/v1/chat''], gr_maxBodyBytes = 0\<rparr>"

lemma demo_enforcer_eq: "newEnforcer [demo_grantable] = Inr demo_enforcer"
proof -
  have "\<exists>e. newEnforcer [demo_grantable] = Inr e"
  proof (cases "newEnforcer [demo_grantable]")
    case (Inl err)
    moreover have "(case newEnforcer [demo_grantable] of Inl _ \<Rightarrow> False | Inr _ \<Rightarrow> True)" by code_simp
    ultimately show ?thesis by simp
  qed simp
  then show ?thesis by (auto simp: demo_enforcer_def)
qed

text \<open>C7: whatever a control client does, only approved credentials become usable. In every state
  the control plane can reach by serving any sequence of requests, any service a lookup finds
  either was registered under the same key at startup or belongs to a configured grantable:
  same credential, same host, same strategy, and every request its policy permits is permitted
  by the grantable's bound.\<close>

theorem reachable_services_are_approved:
  assumes "newEnforcer gs = Inr e" "registry_ok (cs_registry st0)" "control_reachable d e st0 st"
    and "reg_lookup h (cs_registry st) = Inr s"
  shows "(\<exists>k. map_get (cs_registry st0) k = Some s) \<or> (\<exists>g \<in> set gs. within_grantable g s)"
  using control_reachable_approved [OF assms] .

theorem reachable_services_are_approved_witness:
  "\<exists>g \<in> set [demo_grantable]. within_grantable g (grantedService demo_grant)"
proof -
  let ?d = "\<lparr>dec_grant = (\<lambda>_. Inr demo_grant), dec_revoke = (\<lambda>_. Inl (Sentinel ErrTimeout))\<rparr>"
  let ?st = "snd (serveControl ?d demo_enforcer ''/grant'' ''POST'' ''{}'' demo_state)"
  have "control_reachable ?d demo_enforcer demo_state ?st"
    by (intro control_serve control_init)
  moreover have "reg_lookup ''api.example.com:443'' (cs_registry ?st) = Inr (grantedService demo_grant)"
    by code_simp
  moreover have "registry_ok (cs_registry demo_state)" "cs_registry demo_state = []" by code_simp+
  ultimately show ?thesis
    using reachable_services_are_approved [OF demo_enforcer_eq, of demo_state ?d ?st] by fastforce
qed

text \<open>C13: the exact condition for a grant. \<open>Authorize\<close> accepts a proposed service if and only if
  it sets no operator-only field, its path patterns are in the vocabulary, some approved
  pairing has exactly its identity (credential, folded host, canonical strategy), and its
  scope narrows within that pairing's bound.\<close>

theorem authorize_exactly:
  assumes "newEnforcer gs = Inr e"
  shows "authorize e (Some s) = None \<longleftrightarrow>
    operator_fields_empty (svcPolicy s) \<and>
    (\<forall>p. svcPolicy s = Some p \<longrightarrow> (\<forall>pat \<in> set (allowedPaths p). \<exists>pp. parsePathPattern pat = Inr pp)) \<and>
    (\<exists>g \<in> set gs. serviceIdentity s = grantableIdentity g \<and> narrows (svcPolicy s) (Some (grantableBound g)) = None)"
proof -
  have "(\<exists>p. map_get e k = Some p \<and> narrows x (Some (pr_maxBound p)) = None) \<longleftrightarrow>
      (\<exists>g \<in> set gs. k = grantableIdentity g \<and> narrows x (Some (grantableBound g)) = None)" for k x
    using newEnforcer_ok [OF assms] newEnforcer_complete [OF assms] unfolding enforcer_ok_def by fastforce
  then show ?thesis
    unfolding authorize_None_iff list_all_iff parse_ok_iff [symmetric] by simp
qed

theorem authorize_exactly_witness:
  "authorize demo_enforcer (Some (toService demo_grant)) = None \<longleftrightarrow>
    operator_fields_empty (svcPolicy (toService demo_grant)) \<and>
    (\<forall>p. svcPolicy (toService demo_grant) = Some p \<longrightarrow>
       (\<forall>pat \<in> set (allowedPaths p). \<exists>pp. parsePathPattern pat = Inr pp)) \<and>
    (\<exists>g \<in> set [demo_grantable]. serviceIdentity (toService demo_grant) = grantableIdentity g \<and>
       narrows (svcPolicy (toService demo_grant)) (Some (grantableBound g)) = None)"
  by (rule authorize_exactly [OF demo_enforcer_eq])

text \<open>a rejected grant changes nothing and is on record. If the enforcer refuses, the caller
  gets the verbatim reason as a rejection, the live registry is unchanged, and (with a
  reliable trail) exactly one rejected-grant entry carrying the reason is appended.\<close>

theorem rejected_grant_is_recorded:
  assumes "authorize e (Some (toService req)) = Some err" "apiGrant e req st = (res, st')"
  shows "res = Inl (ApiError KindRejected err) \<and> cs_registry st' = cs_registry st \<and>
    (audit_reliable (cs_audit st) \<longrightarrow> (\<exists>en. al_entries (cs_audit st') = al_entries (cs_audit st) @ [en] \<and>
       en_event en = EventGrantRejected \<and> en_error en = Some err \<and> en_host en = gr_hostPattern req))"
  using assms(2)
proof (cases rule: apiGrant_cases)
  case (rejected err')
  then show ?thesis using assms(1) logAudit_reliable
    by (auto simp: grantEntry_def toService_def blank_entry_def)
qed (use assms(1) in auto)

theorem rejected_grant_is_recorded_witness:
  "\<exists>err. fst (apiGrant demo_enforcer (demo_grant\<lparr>gr_allowedPaths := [''/admin'']\<rparr>) demo_state) = Inl (ApiError KindRejected err)"
proof -
  have "authorize demo_enforcer (Some (toService (demo_grant\<lparr>gr_allowedPaths := [''/admin'']\<rparr>))) =
      Some (Wrapf ''grant rejected: scope is not within the approved bound: %w'' []
        (Errorf ''paths widen: requested path %q is not within bound %v'' [Str ''/admin'', Strs [''/v1/*'']]))"
    by code_simp
  from rejected_grant_is_recorded [OF this prod.collapse [symmetric], of demo_state] show ?thesis by auto
qed

text \<open>an accepted grant is live, defaulted and inside its bound. After a successful grant a
  lookup of any name that normalizes to the granted host returns the granted service with the
  default body limit filled in, whose policy permits no request the configured bound does
  not; the applied grant is on record.\<close>

theorem accepted_grant_is_live:
  assumes "newEnforcer gs = Inr e" "registry_ok (cs_registry st)" "apiGrant e req st = (Inr v, st')"
    and "normalizeHostname h = serviceKey (gr_hostPattern req)"
  shows "reg_lookup h (cs_registry st') = Inr (grantedService req) \<and> v = serviceView (grantedService req) \<and>
    (\<exists>p. svcPolicy (grantedService req) = Some p \<and>
       maxBodyBytes p = (if gr_maxBodyBytes req = 0 then DefaultMaxBodyBytes else gr_maxBodyBytes req)) \<and>
    (\<exists>g \<in> set gs. within_grantable g (grantedService req)) \<and>
    (audit_reliable (cs_audit st) \<longrightarrow> (\<exists>en. al_entries (cs_audit st') = al_entries (cs_audit st) @ [en] \<and>
       en_event en = EventGrantApplied \<and> en_host en = gr_hostPattern req))"
  using assms(3)
proof (cases rule: apiGrant_cases)
  case applied
  have host: "hostPattern (grantedService req) = gr_hostPattern req" by (simp add: grantedService_def toService_def)
  have "reg_lookup h (cs_registry st') = Inr (grantedService req)"
    using reg.upsert_look [OF assms(2) applied(2) [unfolded reg_upsert_exec]] assms(4) host by simp
  moreover have "\<exists>g \<in> set gs. within_grantable g (grantedService req)"
    by (rule authorized_within [OF newEnforcer_ok [OF assms(1)] applied(1)])
  moreover have "\<exists>p. svcPolicy (grantedService req) = Some p \<and>
       maxBodyBytes p = (if gr_maxBodyBytes req = 0 then DefaultMaxBodyBytes else gr_maxBodyBytes req)"
    by (simp add: grantedService_def toService_def applyDefaults_def)
  moreover have "\<exists>en. al_entries (cs_audit st') = al_entries (cs_audit st) @ [en] \<and>
       en_event en = EventGrantApplied \<and> en_host en = gr_hostPattern req" if "audit_reliable (cs_audit st)"
    using logAudit_reliable [OF that] applied(4) host by (simp add: grantEntry_def blank_entry_def)
  ultimately show ?thesis using applied(3) by blast
qed auto

lemma demo_grant_ok: "\<exists>v. apiGrant demo_enforcer demo_grant demo_state = (Inr v, snd (apiGrant demo_enforcer demo_grant demo_state))"
proof -
  have "(case fst (apiGrant demo_enforcer demo_grant demo_state) of Inr v \<Rightarrow> True | Inl _ \<Rightarrow> False)" by code_simp
  then show ?thesis by (cases "apiGrant demo_enforcer demo_grant demo_state") (auto split: sum.splits)
qed

theorem accepted_grant_is_live_witness:
  "reg_lookup ''api.EXAMPLE.com'' (cs_registry (snd (apiGrant demo_enforcer demo_grant demo_state))) =
     Inr (grantedService demo_grant)"
proof -
  have ok: "registry_ok (cs_registry demo_state)" by code_simp
  have "normalizeHostname ''api.EXAMPLE.com'' = serviceKey (gr_hostPattern demo_grant)" by code_simp
  then show ?thesis using accepted_grant_is_live [OF demo_enforcer_eq ok] demo_grant_ok by blast
qed

text \<open>a negative body limit slips through authorization and fails later, off the record. A grant
  whose scope is acceptable but for a negative \<open>max_body_bytes\<close> is authorized (narrowing
  accepts any value up to the bound), then refused by the registry: the client gets an internal
  failure (status 500) for its own bad input, the registry is unchanged and no audit entry
  is written, although every grant outcome is documented to be audited.\<close>

theorem negative_limit_is_unaudited:
  assumes "authorize e (Some (toService req)) = None" "gr_maxBodyBytes req < 0"
    and "trim_space (gr_hostPattern req) \<noteq> ''''" "trim_space (gr_credentialRef req) \<noteq> ''''"
    and "trim_space (canonicalAuthRef (gr_authStrategy req) (gr_headerName req)) \<noteq> ''''"
  shows "\<exists>err. apiGrant e req st = (Inl (ApiError KindInternal (Wrapf ''apply grant: %w'' [] err)), st) \<and>
    statusFor (ApiError KindInternal (Wrapf ''apply grant: %w'' [] err)) = 500"
proof -
  have pol: "svcPolicy (grantedService req) = svcPolicy (toService req)"
    using assms(2) by (simp add: grantedService_def toService_def applyDefaults_def)
  have "serviceValidate (Some (grantedService req)) =
      Some (ConfigError ''MaxBodyBytes'' (Some (Num (gr_maxBodyBytes req))) (Some (Sentinel ErrInvalidConfig)))"
    using assms(2-5) unfolding serviceValidate_def
    by (simp add: pol) (simp add: grantedService_def toService_def policyValidate_def)
  then show ?thesis
    using assms(1) by (simp add: apiGrant_def Let_def reg_upsert_def grantedService_def statusFor_def)
qed

theorem negative_limit_is_unaudited_witness:
  "\<exists>err. apiGrant demo_enforcer (demo_grant\<lparr>gr_maxBodyBytes := -1\<rparr>) demo_state =
     (Inl (ApiError KindInternal (Wrapf ''apply grant: %w'' [] err)), demo_state)"
proof -
  have "authorize demo_enforcer (Some (toService (demo_grant\<lparr>gr_maxBodyBytes := -1\<rparr>))) = None"
    "gr_maxBodyBytes (demo_grant\<lparr>gr_maxBodyBytes := -1\<rparr>) < 0"
    "trim_space (gr_hostPattern (demo_grant\<lparr>gr_maxBodyBytes := -1\<rparr>)) \<noteq> ''''"
    "trim_space (gr_credentialRef (demo_grant\<lparr>gr_maxBodyBytes := -1\<rparr>)) \<noteq> ''''"
    "trim_space (canonicalAuthRef (gr_authStrategy (demo_grant\<lparr>gr_maxBodyBytes := -1\<rparr>))
       (gr_headerName (demo_grant\<lparr>gr_maxBodyBytes := -1\<rparr>))) \<noteq> ''''"
    by code_simp+
  from negative_limit_is_unaudited [OF this, of demo_state] show ?thesis by blast
qed

text \<open>a grant for a statically configured host discards the operator's rules. When the host of
  an accepted grant already has a service, its drop patterns, strip list and placeholder are
  gone from the live registry afterwards: what is stored has no drop pattern and no strip
  header, and the placeholder the request chose, possibly none.\<close>

theorem grant_replaces_static_rules:
  assumes "registry_ok (cs_registry st)" "apiGrant e req st = (Inr v, st')"
    and "map_get (cs_registry st) (serviceKey (gr_hostPattern req)) = Some old"
  shows "\<exists>new p. map_get (cs_registry st') (serviceKey (gr_hostPattern req)) = Some new \<and>
    svcPolicy new = Some p \<and> dropPatterns p = [] \<and> stripHeaders p = [] \<and> placeholder new = gr_placeholder req"
  using assms(2)
proof (cases rule: apiGrant_cases)
  case applied
  have host: "hostPattern (grantedService req) = gr_hostPattern req" by (simp add: grantedService_def toService_def)
  have "map_get (cs_registry st') = (map_get (cs_registry st))(serviceKey (gr_hostPattern req) \<mapsto> grantedService req)"
    using reg.upsert_slot [OF assms(1) applied(2) [unfolded reg_upsert_exec]] host by simp
  then show ?thesis by (simp add: grantedService_def toService_def applyDefaults_def)
qed auto

definition demo_static :: service where
  "demo_static = \<lparr>svcName = ''static'', hostPattern = ''api.example.com'', authStrategyRef = ''bearer'', headerName = '''',
     credentialRef = ''env:KEY'', placeholder = ''chap_12345'', svcPolicy = Some (empty_policy\<lparr>dropPatterns := [''/admin/*'']\<rparr>)\<rparr>"

definition demo_static_state :: control_state where
  "demo_static_state = demo_state\<lparr>cs_registry := [(''api.example.com'', demo_static)]\<rparr>"

theorem grant_replaces_static_rules_witness:
  "\<exists>new p. map_get (cs_registry (snd (apiGrant demo_enforcer demo_grant demo_static_state))) ''api.example.com'' = Some new \<and>
     svcPolicy new = Some p \<and> dropPatterns p = [] \<and> placeholder new = ''''"
proof -
  have ok: "registry_ok (cs_registry demo_static_state)" by code_simp
  have "(case fst (apiGrant demo_enforcer demo_grant demo_static_state) of Inr v \<Rightarrow> True | Inl _ \<Rightarrow> False)" by code_simp
  then obtain v where v: "apiGrant demo_enforcer demo_grant demo_static_state =
      (Inr v, snd (apiGrant demo_enforcer demo_grant demo_static_state))"
    by (cases "apiGrant demo_enforcer demo_grant demo_static_state") (auto split: sum.splits)
  have k: "serviceKey (gr_hostPattern demo_grant) = ''api.example.com''" "gr_placeholder demo_grant = ''''" by code_simp+
  have "map_get (cs_registry demo_static_state) (serviceKey (gr_hostPattern demo_grant)) = Some demo_static" by code_simp
  from grant_replaces_static_rules [OF ok v this] show ?thesis unfolding k by blast
qed

text \<open>revoking is idempotent and always recorded. A revoke with a host succeeds whether or not
  a grant is there and reports which; afterwards nothing is registered under that key, a second
  revoke reports that nothing was removed and leaves the registry alone, and each call appends
  one entry to a reliable trail. Without a host it is a bad request that changes nothing.\<close>

theorem revoke_is_idempotent:
  assumes "registry_ok (cs_registry st)"
  shows "(h = '''' \<longrightarrow> apiRevoke h st = (Inl (ApiError KindBadRequest (Errorf ''revoke: host_pattern is required'' [])), st)) \<and>
    (h \<noteq> '''' \<longrightarrow> (\<exists>st' st''.
       apiRevoke h st = (Inr (h, map_get (cs_registry st) (serviceKey h) \<noteq> None), st') \<and>
       map_get (cs_registry st') = (map_get (cs_registry st))(serviceKey h := None) \<and>
       apiRevoke h st' = (Inr (h, False), st'') \<and> cs_registry st'' = cs_registry st' \<and>
       (audit_reliable (cs_audit st) \<longrightarrow> length (al_entries (cs_audit st'')) = length (al_entries (cs_audit st)) + 2)))"
proof (intro conjI impI)
  assume h: "h \<noteq> ''''"
  define st' where "st' = snd (apiRevoke h st)"
  have 1: "apiRevoke h st = (Inr (h, map_get (cs_registry st) (serviceKey h) \<noteq> None), st')"
    using h by (auto simp: st'_def apiRevoke_def reg_unregister_def Let_def)
  have 2: "map_get (cs_registry st') = (map_get (cs_registry st))(serviceKey h := None)"
    using h by (auto simp: st'_def apiRevoke_def reg_unregister_def Let_def fun_eq_iff)
  have 3: "cs_audit st' = logAudit (revokeEntry h (map_get (cs_registry st) (serviceKey h) \<noteq> None)) (cs_audit st)"
    using h by (auto simp: st'_def apiRevoke_def reg_unregister_def Let_def)
  let ?st'' = "st'\<lparr>cs_audit := logAudit (revokeEntry h False) (cs_audit st')\<rparr>"
  have 4: "apiRevoke h st' = (Inr (h, False), ?st'')"
    using h 2 by (simp add: apiRevoke_def reg_unregister_def Let_def)
  have 5: "length (al_entries (cs_audit ?st'')) = length (al_entries (cs_audit st)) + 2"
    if "audit_reliable (cs_audit st)"
    using logAudit_reliable [OF that] 3 logAudit_reliable [of "cs_audit st'"] by simp
  show "\<exists>st' st''. apiRevoke h st = (Inr (h, map_get (cs_registry st) (serviceKey h) \<noteq> None), st') \<and>
       map_get (cs_registry st') = (map_get (cs_registry st))(serviceKey h := None) \<and>
       apiRevoke h st' = (Inr (h, False), st'') \<and> cs_registry st'' = cs_registry st' \<and>
       (audit_reliable (cs_audit st) \<longrightarrow> length (al_entries (cs_audit st'')) = length (al_entries (cs_audit st)) + 2)"
    using 1 2 4 5 by (intro exI [of _ st'] exI [of _ ?st'']) simp
qed (simp add: apiRevoke_def)

theorem revoke_is_idempotent_witness:
  "\<exists>st' st''. apiRevoke ''API.example.com'' demo_static_state = (Inr (''API.example.com'', True), st') \<and>
     apiRevoke ''API.example.com'' st' = (Inr (''API.example.com'', False), st'')"
proof -
  have ok: "registry_ok (cs_registry demo_static_state)" by code_simp
  have "map_get (cs_registry demo_static_state) (serviceKey ''API.example.com'') \<noteq> None" by code_simp
  then show ?thesis using revoke_is_idempotent [OF ok, of "''API.example.com''"] by auto
qed



end
