(* ===== verification/Redact.thy ===== *)
theory Redact
  imports Auth
begin

text \<open>
  \<open>internal/redact/redact.go\<close>: the redaction policy of everything that is recorded. A redactor is
  the list of its value sources; a source is what it reports when it is consulted, so the
  values are an argument of each operation. \<open>sort.Slice\<close> is not stable: the order of values of
  equal length is unspecified, and the no-leak theorem holds for every order.
\<close>

definition placeholderText :: string where
  "placeholderText = ''[REDACTED]''"

definition recordedCredentialPositions :: "string set" where
  "recordedCredentialPositions =
     {''proxy-authorization'', ''cookie'', ''set-cookie''} \<union> set knownAuthHeaders"

text \<open>\<open>strings.ReplaceAll\<close> for a non-empty old string: leftmost, non-overlapping. (The empty string
  never gets here, \<open>knownValues\<close> drops it.)\<close>

function replaceAll :: "string \<Rightarrow> string \<Rightarrow> string \<Rightarrow> string" where
  "replaceAll old new s =
     (if old = '''' then s
      else case str_index s old of
        None \<Rightarrow> s
      | Some i \<Rightarrow> take i s @ new @ replaceAll old new (drop (i + length old) s))"
  by pat_completeness auto
termination
proof (relation "measure (\<lambda>(_, _, s). length s)", goal_cases)
  case (2 old new s i)
  then have "s \<noteq> ''''" by (cases s) auto
  then show ?case using 2 by simp
qed simp

declare replaceAll.simps [simp del]

fun scrub :: "string \<Rightarrow> string list \<Rightarrow> string" where
  "scrub s [] = s"
| "scrub s (v # vs) = scrub (replaceAll v placeholderText s) vs"

definition knownValues :: "string list list \<Rightarrow> string list" where
  "knownValues sources = sort_key (\<lambda>v. - int (length v)) (filter (\<lambda>v. v \<noteq> '''') (concat sources))"

definition redactHeaders :: "string list list \<Rightarrow> headers \<Rightarrow> headers" where
  "redactHeaders sources h = (let values = knownValues sources in
     map (\<lambda>(name, vals). (name,
       if to_lower name \<in> recordedCredentialPositions then [placeholderText]
       else map (\<lambda>v. scrub v values) vals)) h)"

definition redactValue :: "string list list \<Rightarrow> string \<Rightarrow> string" where
  "redactValue sources s = scrub s (knownValues sources)"

definition redactBytes :: "string list list \<Rightarrow> string \<Rightarrow> string" where
  "redactBytes sources b = (if b = '''' then b else scrub b (knownValues sources))"

subsection \<open>Nothing leaks\<close>

text \<open>A value that redaction is sure to remove: it shares no character with the brackets of the
  placeholder and is not part of the word inside them.\<close>

definition scrubbable :: "string \<Rightarrow> bool" where
  "scrubbable v \<longleftrightarrow> v \<noteq> '''' \<and> CHR ''['' \<notin> set v \<and> CHR '']'' \<notin> set v \<and> \<not> str_contains ''REDACTED'' v"

lemma str_contains_append: "str_contains a w \<Longrightarrow> str_contains (x @ a @ y) w"
  by (auto simp: str_contains_iff) (metis append.assoc)

lemma infix_sep:
  assumes "a @ w @ b = x @ c # y" "c \<notin> set w"
  shows "(\<exists>b'. x = a @ w @ b') \<or> (\<exists>a'. y = a' @ w @ b)"
proof -
  from assms(1) consider us where "x = a @ us" "w @ b = us @ c # y" | us where "a = x @ us" "us @ w @ b = c # y"
    by (auto simp: append_eq_append_conv2)
  then show ?thesis
  proof cases
    case 1
    from 1(2) consider vs where "us = w @ vs" | vs where "w = us @ vs" "vs @ b = c # y"
      by (auto simp: append_eq_append_conv2)
    then show ?thesis
    proof cases
      case 1
      then show ?thesis using \<open>x = a @ us\<close> by auto
    next
      case 2
      then show ?thesis using assms(2) by (cases vs) (auto simp: \<open>x = a @ us\<close>)
    qed
  next
    case 2
    then show ?thesis
      by (cases us; cases w) (use assms(2) in \<open>auto simp: Cons_eq_append_conv\<close>)
  qed
qed

lemma contains_sep:
  assumes "c \<notin> set w"
  shows "str_contains (x @ c # y) w \<longleftrightarrow> str_contains x w \<or> str_contains y w"
proof
  assume "str_contains (x @ c # y) w"
  then obtain a b where "a @ w @ b = x @ c # y" by (auto simp: str_contains_iff)
  from infix_sep [OF this assms] show "str_contains x w \<or> str_contains y w"
    by (auto simp: str_contains_iff)
next
  assume "str_contains x w \<or> str_contains y w"
  then show "str_contains (x @ c # y) w"
    using str_contains_append [of x w "[]" "c # y"] str_contains_append [of y w "x @ [c]" "[]"] by auto
qed

lemma contains_redacted:
  "scrubbable w \<Longrightarrow> str_contains (x @ placeholderText @ y) w \<longleftrightarrow> str_contains x w \<or> str_contains y w"
proof -
  assume w: "scrubbable w"
  have "x @ placeholderText @ y = x @ CHR ''['' # (''REDACTED'' @ CHR '']'' # y)"
    by (simp add: placeholderText_def)
  then show ?thesis
    using w contains_sep [of "CHR ''[''" w x "''REDACTED'' @ CHR '']'' # y"]
      contains_sep [of "CHR '']''" w "''REDACTED''" y]
    unfolding scrubbable_def by metis
qed

text \<open>Replacing one value removes it and introduces no other.\<close>

lemma replaceAll_no_new:
  "scrubbable w \<Longrightarrow> str_contains (replaceAll old placeholderText s) w \<Longrightarrow> str_contains s w"
proof (induction old placeholderText s rule: replaceAll.induct)
  case (1 old s)
  show ?case
  proof (cases "old = '''' \<or> str_index s old = None")
    case True
    then show ?thesis using 1(3) by (subst (asm) replaceAll.simps) (auto split: if_splits)
  next
    case False
    then obtain i where i: "str_index s old = Some i" by auto
    have "str_contains (take i s @ placeholderText @ replaceAll old placeholderText (drop (i + length old) s)) w"
      using 1(3) False i by (subst (asm) replaceAll.simps) simp
    then consider "str_contains (take i s) w" | "str_contains (drop (i + length old) s) w"
      using contains_redacted [OF 1(2)] 1(1) [OF _ i] 1(2) False by blast
    then show ?thesis
    proof cases
      case 1
      then show ?thesis using str_contains_append [of "take i s" w "[]" "drop i s"] by simp
    next
      case 2
      then show ?thesis
        using str_contains_append [of "drop (i + length old) s" w "take (i + length old) s" "[]"] by simp
    qed
  qed
qed

lemma replaceAll_removes:
  "scrubbable v \<Longrightarrow> \<not> str_contains (replaceAll v placeholderText s) v"
proof (induction v placeholderText s rule: replaceAll.induct)
  case (1 old s)
  have ne: "old \<noteq> ''''" using 1(2) by (simp add: scrubbable_def)
  show ?case
  proof (cases "str_index s old")
    case None
    then show ?thesis using ne by (subst replaceAll.simps) (simp add: str_contains_def)
  next
    case (Some i)
    have first: "\<not> str_contains (take i s) old"
    proof
      assume "str_contains (take i s) old"
      then obtain a b where ab: "take i s = a @ old @ b" by (auto simp: str_contains_iff)
      then have "s = a @ old @ b @ drop i s" by (metis append_assoc append_take_drop_id)
      then have "has_prefix (drop (length a) s) old" by (metis append_eq_conv_conj has_prefix_append)
      moreover have "length a < i"
        using ne arg_cong [OF ab, of length] by (cases old) auto
      ultimately show False using Some by (auto simp: str_index_Some_iff)
    qed
    have "replaceAll old placeholderText s =
        take i s @ placeholderText @ replaceAll old placeholderText (drop (i + length old) s)"
      using ne Some by (subst replaceAll.simps) simp
    then show ?thesis
      using contains_redacted [OF 1(2)] first 1(1) [OF ne Some 1(2)] by metis
  qed
qed

lemma scrub_no_new: "scrubbable w \<Longrightarrow> str_contains (scrub s vs) w \<Longrightarrow> str_contains s w"
  by (induction vs arbitrary: s) (auto dest: replaceAll_no_new)

lemma scrub_removes: "scrubbable v \<Longrightarrow> v \<in> set vs \<Longrightarrow> \<not> str_contains (scrub s vs) v"
  by (induction vs arbitrary: s) (auto dest: scrub_no_new replaceAll_removes)

lemma scrub_unchanged: "(\<And>v. v \<in> set vs \<Longrightarrow> \<not> str_contains s v) \<Longrightarrow> scrub s vs = s"
proof (induction vs)
  case (Cons v vs)
  then have "replaceAll v placeholderText s = s"
    by (subst replaceAll.simps) (auto simp: str_contains_def)
  then show ?case using Cons by simp
qed simp

lemma knownValues_set: "set (knownValues sources) = set (concat sources) - {''''}"
  by (auto simp: knownValues_def)

lemma knownValues_longest_first:
  "sorted_wrt (\<lambda>v w. length v \<ge> length w) (knownValues sources)"
proof -
  have "sorted (map (\<lambda>v. - int (length v)) (knownValues sources))"
    by (simp add: knownValues_def)
  then show ?thesis by (simp add: sorted_wrt_map)
qed


definition demo_values :: "string list list" where
  "demo_values = [[''sk-12'', ''''], [''sk-1234'']]"


text \<open>Redaction changes nothing else: a string is recorded as it is exactly when it contains no
  known value.\<close>

theorem redaction_is_exact:
  assumes "list_all scrubbable (knownValues sources)"
  shows "redactValue sources s = s \<longleftrightarrow> \<not> list_ex (str_contains s) (knownValues sources)"
proof
  assume eq: "redactValue sources s = s"
  show "\<not> list_ex (str_contains s) (knownValues sources)"
  proof
    assume "list_ex (str_contains s) (knownValues sources)"
    then obtain v where v: "v \<in> set (knownValues sources)" "str_contains s v"
      by (auto simp: list_ex_iff)
    then have "\<not> str_contains (scrub s (knownValues sources)) v"
      using assms by (intro scrub_removes) (auto simp: list_all_iff)
    then show False using v eq by (simp add: redactValue_def)
  qed
next
  assume "\<not> list_ex (str_contains s) (knownValues sources)"
  then show "redactValue sources s = s"
    unfolding redactValue_def by (intro scrub_unchanged) (auto simp: list_ex_iff)
qed

theorem redaction_is_exact_witness:
  "redactValue demo_values ''GET /v1'' = ''GET /v1'' \<and> redactValue demo_values ''sk-12'' \<noteq> ''sk-12''"
proof -
  have "list_all scrubbable (knownValues demo_values)" by code_simp
  note iff = redaction_is_exact [OF this]
  have "\<not> list_ex (str_contains ''GET /v1'') (knownValues demo_values)"
    "list_ex (str_contains ''sk-12'') (knownValues demo_values)" by code_simp+
  then show ?thesis using iff by blast
qed

text \<open>Whatever the capitalization of its name, the value of a credential header (the known auth
  headers, \<open>Proxy-Authorization\<close>, the cookies) is never recorded, even when no source knows it; and
  every header is recorded under its own name.\<close>

theorem credential_headers_are_blanked:
  "map_keys (redactHeaders sources h) = map_keys h \<and>
   (map_get h name = Some vals \<longrightarrow>
    to_lower name \<in> set ([''proxy-authorization'', ''cookie'', ''set-cookie''] @ knownAuthHeaders) \<longrightarrow>
    map_get (redactHeaders sources h) name = Some [''[REDACTED]''])"
proof (intro conjI impI)
  show "map_keys (redactHeaders sources h) = map_keys h"
    by (simp add: redactHeaders_def Let_def case_prod_beta comp_def)
  assume a: "map_get h name = Some vals"
    "to_lower name \<in> set ([''proxy-authorization'', ''cookie'', ''set-cookie''] @ knownAuthHeaders)"
  have "to_lower name \<in> recordedCredentialPositions"
    using a(2) by (auto simp: recordedCredentialPositions_def)
  then show "map_get (redactHeaders sources h) name = Some [''[REDACTED]'']"
    using a(1) by (induction h) (auto simp: redactHeaders_def Let_def placeholderText_def)
qed

definition demo_recorded :: headers where
  "demo_recorded = [(''COOKIE'', [''session=1'']), (''Accept'', [''*/*''])]"

theorem credential_headers_are_blanked_witness:
  "map_get (redactHeaders [] demo_recorded) ''COOKIE'' = Some [''[REDACTED]'']"
proof -
  have "map_get demo_recorded ''COOKIE'' = Some [''session=1'']" by code_simp
  moreover have "to_lower ''COOKIE'' = ''cookie''" by code_simp
  ultimately show ?thesis
    using credential_headers_are_blanked [of "[]" demo_recorded "''COOKIE''" "[''session=1'']"] by simp
qed

end
