(* ===== verification/Capture.thy ===== *)
theory Capture
  imports Go_Http
begin

text \<open>
  \<open>internal/capture\<close>: what a recording takes of a request or a response. \<open>detection.go\<close> decides
  which bodies are left alone and how a body is classified; \<open>engine.go\<close> reads the other bodies
  to their end and puts them back for the proxy. A capture returns the captured data, the error
  of reading and the message as it is left. Times are nanoseconds since the epoch.
\<close>

type_synonym go_time = int

datatype body_type = BodyTypeJSON | BodyTypeJSONInvalid | BodyTypeText | BodyTypeStreaming
  | BodyTypeBinary | BodyTypeEmpty

definition body_type_name :: "body_type \<Rightarrow> string" where
  "body_type_name t = (case t of BodyTypeJSON \<Rightarrow> ''json'' | BodyTypeJSONInvalid \<Rightarrow> ''json_invalid''
     | BodyTypeText \<Rightarrow> ''text'' | BodyTypeStreaming \<Rightarrow> ''streaming'' | BodyTypeBinary \<Rightarrow> ''binary''
     | BodyTypeEmpty \<Rightarrow> ''empty'')"

record captured_request =
  cq_method :: string
  cq_url :: string
  cq_host :: string
  cq_path :: string
  cq_headers :: headers
  cq_body :: string
  cq_bodyType :: body_type
  cq_bodyInfo :: string
  cq_bodyError :: string
  cq_startTime :: go_time

record captured_response =
  cs_status :: int
  cs_statusText :: string
  cs_headers :: headers
  cs_body :: string
  cs_bodyType :: body_type
  cs_bodyInfo :: string
  cs_bodyError :: string
  cs_endTime :: go_time
  cs_durationMS :: int
  cs_contentType :: string

record captured_entry =
  ce_request :: captured_request
  ce_response :: captured_response

subsection \<open>Detection\<close>

definition maxNonStreamingBodySize :: int where
  "maxNonStreamingBodySize = 10 * 1024 * 1024"

definition isStreamingResponse :: "response \<Rightarrow> bool" where
  "isStreamingResponse resp =
     (let contentType = hdr_get (rs_header resp) ''Content-Type'';
          transferEncoding = hdr_get (rs_header resp) ''Transfer-Encoding'';
          contentLength = rs_contentLength resp in
      if contentType = ''text/event-stream'' then True
      else if transferEncoding = ''chunked'' then True
      else if contentLength < 0 then True
      else if contentLength > maxNonStreamingBodySize then True
      else False)"

definition isStreamingRequest :: "request \<Rightarrow> bool" where
  "isStreamingRequest req =
     (let contentType = hdr_get (rq_header req) ''Content-Type'';
          transferEncoding = hdr_get (rq_header req) ''Transfer-Encoding'';
          contentLength = rq_contentLength req in
      if transferEncoding = ''chunked'' then True
      else if contentLength < 0 then True
      else if contentLength > maxNonStreamingBodySize then True
      else if has_prefix contentType ''multipart/'' \<and> contentLength > 1024 * 1024 then True
      else False)"

definition isJSONContentType :: "string \<Rightarrow> bool" where
  "isJSONContentType contentType \<longleftrightarrow>
     str_contains contentType ''application/json'' \<or> str_contains contentType ''application/ld+json'' \<or>
     str_contains contentType ''application/vnd.api+json'' \<or> has_suffix contentType ''+json''"

definition isBinaryContentType :: "string \<Rightarrow> bool" where
  "isBinaryContentType contentType \<longleftrightarrow>
     list_ex (has_prefix contentType) [''image/'', ''video/'', ''audio/'', ''application/octet-stream'',
       ''application/pdf'', ''application/zip'', ''application/gzip'']"

definition detectBodyType :: "string \<Rightarrow> string \<Rightarrow> body_type" where
  "detectBodyType b contentType =
     (if b = '''' then BodyTypeEmpty
      else if isJSONContentType contentType then BodyTypeJSON
      else if isBinaryContentType contentType then BodyTypeBinary
      else BodyTypeText)"

subsection \<open>The engine\<close>

text \<open>\<open>NewEngine\<close>: the size it keeps is read by nothing.\<close>

definition newEngine :: "int \<Rightarrow> int" where
  "newEngine maxBodySize = (if maxBodySize \<le> 0 then 1024 * 1024 else maxBodySize)"

text \<open>\<open>http.StatusText\<close>, for the codes it names.\<close>

definition status_text :: "int \<Rightarrow> string" where
  "status_text code = (case map_of
     [(100, ''Continue''), (101, ''Switching Protocols''), (102, ''Processing''), (103, ''Early Hints''),
      (200, ''OK''), (201, ''Created''), (202, ''Accepted''), (203, ''Non-Authoritative Information''),
      (204, ''No Content''), (205, ''Reset Content''), (206, ''Partial Content''), (207, ''Multi-Status''),
      (208, ''Already Reported''), (226, ''IM Used''),
      (300, ''Multiple Choices''), (301, ''Moved Permanently''), (302, ''Found''), (303, ''See Other''),
      (304, ''Not Modified''), (305, ''Use Proxy''), (307, ''Temporary Redirect''), (308, ''Permanent Redirect''),
      (400, ''Bad Request''), (401, ''Unauthorized''), (402, ''Payment Required''), (403, ''Forbidden''),
      (404, ''Not Found''), (405, ''Method Not Allowed''), (406, ''Not Acceptable''),
      (407, ''Proxy Authentication Required''), (408, ''Request Timeout''), (409, ''Conflict''), (410, ''Gone''),
      (411, ''Length Required''), (412, ''Precondition Failed''), (413, ''Request Entity Too Large''),
      (414, ''Request URI Too Long''), (415, ''Unsupported Media Type''), (416, ''Requested Range Not Satisfiable''),
      (417, ''Expectation Failed''), (418, ''I'' @ CHR 0x27 # ''m a teapot''), (421, ''Misdirected Request''),
      (422, ''Unprocessable Entity''), (423, ''Locked''), (424, ''Failed Dependency''), (425, ''Too Early''),
      (426, ''Upgrade Required''), (428, ''Precondition Required''), (429, ''Too Many Requests''),
      (431, ''Request Header Fields Too Large''), (451, ''Unavailable For Legal Reasons''),
      (500, ''Internal Server Error''), (501, ''Not Implemented''), (502, ''Bad Gateway''),
      (503, ''Service Unavailable''), (504, ''Gateway Timeout''), (505, ''HTTP Version Not Supported''),
      (506, ''Variant Also Negotiates''), (507, ''Insufficient Storage''), (508, ''Loop Detected''),
      (510, ''Not Extended''), (511, ''Network Authentication Required'')] code of
     Some t \<Rightarrow> t | None \<Rightarrow> '''')"

text \<open>\<open>io.ReadAll\<close> over a tee: the bytes up to the end of file or the error. On success the buffer
  takes the body's place; on an error an empty body does.\<close>

definition captureRequest ::
  "request \<Rightarrow> go_time \<Rightarrow> captured_request \<times> go_error option \<times> request" where
  "captureRequest req startTime =
     (let captured = \<lparr>cq_method = rq_method req, cq_url = rq_url req, cq_host = rq_host req, cq_path = rq_path req,
            cq_headers = rq_header req, cq_body = '''', cq_bodyType = BodyTypeEmpty, cq_bodyInfo = '''',
            cq_bodyError = '''', cq_startTime = startTime\<rparr> in
      case rq_body req of
        NilBody \<Rightarrow> (captured, None, req)
      | Body bytes readErr \<Rightarrow>
          if isStreamingRequest req then
            (captured\<lparr>cq_bodyType := BodyTypeStreaming,
                cq_bodyInfo := sprintf ''streaming request (%s, Content-Length: %d)''
                  [hdr_get (rq_header req) ''Content-Type'', show_int (rq_contentLength req)]\<rparr>, None, req)
          else case readErr of
            Some err \<Rightarrow> (captured\<lparr>cq_bodyError := error_text err\<rparr>, Some err, req\<lparr>rq_body := Body '''' None\<rparr>)
          | None \<Rightarrow> (captured\<lparr>cq_body := bytes,
                cq_bodyType := detectBodyType bytes (hdr_get (rq_header req) ''Content-Type'')\<rparr>, None,
              req\<lparr>rq_body := Body bytes None\<rparr>))"

definition streamingInfo :: "response \<Rightarrow> string" where
  "streamingInfo resp =
     (if hdr_get (rs_header resp) ''Content-Type'' = ''text/event-stream'' then ''text/event-stream (SSE), not captured''
      else if hdr_get (rs_header resp) ''Transfer-Encoding'' = ''chunked'' then ''chunked transfer encoding, not captured''
      else if rs_contentLength resp < 0 then ''unknown content length, not captured''
      else if rs_contentLength resp > maxNonStreamingBodySize
        then sprintf ''large response (%d bytes), not captured'' [show_int (rs_contentLength resp)]
      else ''streaming response, not captured'')"

definition captureResponse ::
  "response \<Rightarrow> go_time \<Rightarrow> captured_response \<times> go_error option \<times> response" where
  "captureResponse resp endTime =
     (let captured = \<lparr>cs_status = rs_status resp, cs_statusText = status_text (rs_status resp),
            cs_headers = rs_header resp, cs_body = '''', cs_bodyType = BodyTypeEmpty, cs_bodyInfo = '''',
            cs_bodyError = '''', cs_endTime = endTime, cs_durationMS = 0,
            cs_contentType = hdr_get (rs_header resp) ''Content-Type''\<rparr> in
      case rs_body resp of
        NilBody \<Rightarrow> (captured, None, resp)
      | Body bytes readErr \<Rightarrow>
          if isStreamingResponse resp then
            (captured\<lparr>cs_bodyType := BodyTypeStreaming, cs_bodyInfo := streamingInfo resp\<rparr>, None, resp)
          else case readErr of
            Some err \<Rightarrow> (captured\<lparr>cs_bodyError := error_text err\<rparr>, Some err, resp\<lparr>rs_body := Body '''' None\<rparr>)
          | None \<Rightarrow> (captured\<lparr>cs_body := bytes,
                cs_bodyType := detectBodyType bytes (hdr_get (rs_header resp) ''Content-Type'')\<rparr>, None,
              resp\<lparr>rs_body := Body bytes None\<rparr>))"

text \<open>\<open>Duration.Milliseconds\<close> truncates towards zero.\<close>

definition milliseconds :: "int \<Rightarrow> int" where
  "milliseconds d = (if d < 0 then - ((- d) div 1000000) else d div 1000000)"

definition captureEntry ::
  "request \<Rightarrow> response \<Rightarrow> go_time \<Rightarrow> go_time
   \<Rightarrow> captured_entry \<times> go_error option \<times> request \<times> response" where
  "captureEntry req resp startTime endTime =
     (case captureRequest req startTime of (capturedReq, reqErr, req') \<Rightarrow>
      case captureResponse resp endTime of (capturedResp, respErr, resp') \<Rightarrow>
        (\<lparr>ce_request = capturedReq,
           ce_response = capturedResp\<lparr>cs_durationMS := milliseconds (endTime - startTime)\<rparr>\<rparr>,
         (case reqErr of Some e \<Rightarrow> Some e | None \<Rightarrow> respErr), req', resp'))"

subsection \<open>Properties\<close>

lemma captureRequest_cases:
  "captureRequest req t = (c, err, req') \<Longrightarrow>
     (err = None \<longrightarrow> req' = req) \<and>
     (\<forall>e. err = Some e \<longrightarrow> (\<exists>s. rq_body req = Body s (Some e)) \<and> req' = req\<lparr>rq_body := Body '''' None\<rparr>) \<and>
     (cq_body c \<noteq> '''' \<longrightarrow> rq_body req = Body (cq_body c) None \<and> \<not> isStreamingRequest req) \<and>
     (rq_body req = Body s None \<longrightarrow> \<not> isStreamingRequest req \<longrightarrow> cq_body c = s) \<and>
     cq_headers c = rq_header req \<and> cq_url c = rq_url req"
  by (auto simp: captureRequest_def Let_def split: body.splits option.splits if_splits)

text \<open>Capturing is transparent: unless reading the body fails, the request and the response go
  on exactly as they came, and a body that is recorded is the whole body, never one of a streaming
  message.\<close>

theorem capture_is_transparent:
  assumes "captureEntry req resp t t' = (entry, None, req', resp')"
  shows "req' = req \<and> resp' = resp \<and>
    (cq_body (ce_request entry) \<noteq> '''' \<longrightarrow>
       rq_body req = Body (cq_body (ce_request entry)) None \<and> \<not> isStreamingRequest req) \<and>
    (cs_body (ce_response entry) \<noteq> '''' \<longrightarrow>
       rs_body resp = Body (cs_body (ce_response entry)) None \<and> \<not> isStreamingResponse resp) \<and>
    cs_durationMS (ce_response entry) = milliseconds (t' - t)"
  using assms
  by (auto simp: captureEntry_def captureRequest_def captureResponse_def Let_def
      split: body.splits option.splits if_splits)

definition demo_request :: request where
  "demo_request = \<lparr>rq_method = ''GET'', rq_url = ''https://api.example.com/v1/chat'', rq_host = ''api.example.com'',
     rq_path = ''/v1/chat'', rq_header = [(''Content-Type'', [''application/json''])], rq_contentLength = 2,
     rq_proto = (1, 1), rq_body = Body ''{}'' None, rq_remoteAddr = ''127.0.0.1:5000'', rq_ctxErr = None,
     rq_requestID = '''', rq_color = (0, 0, 0)\<rparr>"

definition demo_response :: response where
  "demo_response = \<lparr>rs_status = 200, rs_header = [(''Content-Type'', [''text/plain''])], rs_contentLength = 2,
     rs_proto = (1, 1), rs_body = Body ''ok'' None\<rparr>"

theorem capture_is_transparent_witness:
  "\<exists>entry. captureEntry demo_request demo_response 0 2500000 = (entry, None, demo_request, demo_response) \<and>
     cs_durationMS (ce_response entry) = 2"
proof -
  obtain entry req' resp' where c:
    "captureEntry demo_request demo_response 0 2500000 = (entry, None, req', resp')"
  proof -
    have "fst (snd (captureEntry demo_request demo_response 0 2500000)) = None" by code_simp
    then show ?thesis using that by (cases "captureEntry demo_request demo_response 0 2500000") auto
  qed
  from capture_is_transparent [OF c] c show ?thesis by (auto simp: milliseconds_def)
qed

text \<open>When reading a request body fails, the request still goes on, with a body that reads as
  empty without any error: the failure is in the returned error alone, which the recorder drops.\<close>

theorem failed_capture_empties_body:
  assumes "rq_body req = Body bytes (Some err)" "\<not> isStreamingRequest req"
  shows "\<exists>c. captureRequest req t = (c, Some err, req\<lparr>rq_body := Body '''' None\<rparr>) \<and> cq_body c = ''''"
  using assms by (simp add: captureRequest_def Let_def)

theorem failed_capture_empties_body_witness:
  "\<exists>c. captureRequest (demo_request\<lparr>rq_body := Body ''{'' (Some (Sentinel ErrCanceled))\<rparr>) 0 =
     (c, Some (Sentinel ErrCanceled), demo_request\<lparr>rq_body := Body '''' None\<rparr>) \<and> cq_body c = ''''"
proof -
  have "\<not> isStreamingRequest (demo_request\<lparr>rq_body := Body ''{'' (Some (Sentinel ErrCanceled))\<rparr>)" by code_simp
  from failed_capture_empties_body [OF _ this, of "''{''" "Sentinel ErrCanceled" 0] show ?thesis
    by (simp add: demo_request_def)
qed

end
