(* ===== verification/Recorder.thy ===== *)
theory Recorder
  imports Capture Redact
begin

text \<open>
  \<open>internal/recorder\<close>: the HAR recorder (\<open>har.go\<close>), the JSON-lines recorder (\<open>jsonl.go\<close>) and the
  recorder that drives both (\<open>multi.go\<close>). A recorder's callback is a second operation that takes
  what the first one built. The redactor's sources are consulted by each operation, so each
  takes the values they report then. Records carry the fields the code assigns; the others of
  the HAR types (cookies, query string, post data, pages) stay at their zero values. Times are
  kept as times; the text of an archive and of an entry is in \<open>Record_Text\<close>. Decoding a JSON body is the parameter \<open>parse\<close>.
\<close>

subsection \<open>HAR\<close>

text \<open>A slice of headers that was never made is \<open>None\<close>.\<close>

record har_request =
  hq_method :: string
  hq_url :: string
  hq_httpVersion :: string
  hq_headers :: "(string \<times> string) list"
  hq_headersSize :: int
  hq_bodySize :: int

record har_content =
  hc_size :: int
  hc_mimeType :: string
  hc_text :: string

record har_response =
  hr_status :: int
  hr_statusText :: string
  hr_httpVersion :: string
  hr_headers :: "(string \<times> string) list option"
  hr_content :: har_content
  hr_headersSize :: int
  hr_bodySize :: int

record har_timings =
  ht_send :: int
  ht_wait :: int
  ht_receive :: int

record har_entry =
  he_started :: go_time
  he_time :: int
  he_request :: har_request
  he_response :: har_response
  he_timings :: har_timings

type_synonym har_recorder = "har_entry list"

definition newRecorder :: har_recorder where
  "newRecorder = []"

definition httpVersion :: "int \<times> int \<Rightarrow> string" where
  "httpVersion p = sprintf ''HTTP/%d.%d'' [show_int (fst p), show_int (snd p)]"

definition harHeaders :: "headers \<Rightarrow> (string \<times> string) list" where
  "harHeaders h = concat (map (\<lambda>(name, values). map (\<lambda>v. (name, v)) values) h)"

definition recordRequest :: "string list list \<Rightarrow> request \<Rightarrow> har_request" where
  "recordRequest sources req =
     \<lparr>hq_method = rq_method req, hq_url = redactValue sources (rq_url req),
      hq_httpVersion = httpVersion (rq_proto req),
      hq_headers = harHeaders (redactHeaders sources (rq_header req)),
      hq_headersSize = -1, hq_bodySize = -1\<rparr>"

definition emptyHARResponse :: har_response where
  "emptyHARResponse = \<lparr>hr_status = 0, hr_statusText = '''', hr_httpVersion = '''', hr_headers = None,
     hr_content = \<lparr>hc_size = 0, hc_mimeType = '''', hc_text = ''''\<rparr>, hr_headersSize = 0, hr_bodySize = 0\<rparr>"

definition errorResponse :: "string list list \<Rightarrow> request \<Rightarrow> go_error \<Rightarrow> har_response" where
  "errorResponse sources req err =
     \<lparr>hr_status = 0, hr_statusText = redactValue sources (error_text err),
      hr_httpVersion = httpVersion (rq_proto req), hr_headers = None,
      hr_content = \<lparr>hc_size = 0, hc_mimeType = ''text/plain'', hc_text = redactValue sources (error_text err)\<rparr>,
      hr_headersSize = 0, hr_bodySize = -1\<rparr>"

definition successResponse :: "string list list \<Rightarrow> response \<Rightarrow> har_response" where
  "successResponse sources resp =
     \<lparr>hr_status = rs_status resp, hr_statusText = status_text (rs_status resp),
      hr_httpVersion = httpVersion (rs_proto resp),
      hr_headers = Some (harHeaders (redactHeaders sources (rs_header resp))),
      hr_content = \<lparr>hc_size = (if rs_contentLength resp > 0 then rs_contentLength resp else 0),
        hc_mimeType = hdr_get (rs_header resp) ''Content-Type'', hc_text = ''''\<rparr>,
      hr_headersSize = -1, hr_bodySize = rs_contentLength resp\<rparr>"

text \<open>The callback \<open>RecordRequest\<close> returns: the entry it appends.\<close>

definition recordResponse ::
  "string list list \<Rightarrow> har_request \<Rightarrow> request \<Rightarrow> go_time \<Rightarrow> response option \<Rightarrow> go_error option \<Rightarrow> go_time
   \<Rightarrow> har_recorder \<Rightarrow> har_recorder" where
  "recordResponse sources harReq req started resp err end_time entries =
     entries @ [\<lparr>he_started = started, he_time = milliseconds (end_time - started), he_request = harReq,
       he_response = (case err of
           Some e \<Rightarrow> errorResponse sources req e
         | None \<Rightarrow> (case resp of Some r \<Rightarrow> successResponse sources r | None \<Rightarrow> emptyHARResponse)),
       he_timings = \<lparr>ht_send = -1, ht_wait = milliseconds (end_time - started), ht_receive = -1\<rparr>\<rparr>]"

text \<open>\<open>ToJSON\<close>: the archive that is encoded.\<close>

record har_archive =
  ha_version :: string
  ha_creatorName :: string
  ha_creatorVersion :: string
  ha_entries :: "har_entry list"

definition toHAR :: "har_recorder \<Rightarrow> har_archive" where
  "toHAR r = \<lparr>ha_version = ''1.2'', ha_creatorName = ''Chaperone Auth Gateway'', ha_creatorVersion = ''1.0'',
     ha_entries = r\<rparr>"

subsection \<open>JSON lines\<close>

datatype 'j jsonl_body = JParsed 'j | JText string | JBinary nat

record 'j jsonl_entry =
  je_timestamp :: go_time
  je_requestID :: string
  je_type :: string
  je_method :: string
  je_url :: string
  je_host :: string
  je_path :: string
  je_status :: int
  je_statusText :: string
  je_headers :: "(string, string) gomap"
  je_body :: "'j jsonl_body option"
  je_bodyType :: string
  je_bodyInfo :: string
  je_bodyError :: string
  je_durationMS :: int

text \<open>A writer is the error of its n-th write; an owned file adds its mode and close errors.\<close>

record out_file =
  of_write :: "nat \<Rightarrow> go_error option"
  of_chmod :: "go_error option"
  of_close :: "go_error option"

record 'j jsonl_recorder =
  jr_writer :: "nat \<Rightarrow> go_error option"
  jr_file :: "out_file option"
  jr_writes :: nat
  jr_lines :: "'j jsonl_entry list"
  jr_writeErr :: "go_error option"

definition newJSONLRecorder :: "(nat \<Rightarrow> go_error option) \<Rightarrow> 'j jsonl_recorder" where
  "newJSONLRecorder writer = \<lparr>jr_writer = writer, jr_file = None, jr_writes = 0, jr_lines = [], jr_writeErr = None\<rparr>"

definition newJSONLFileRecorder ::
  "(string \<Rightarrow> go_error + out_file) \<Rightarrow> string \<Rightarrow> go_error + 'j jsonl_recorder" where
  "newJSONLFileRecorder create path = (case create path of
     Inl err \<Rightarrow> Inl (Wrapf ''failed to create JSONL file: %w'' [] err)
   | Inr f \<Rightarrow> (case of_chmod f of
       Some err \<Rightarrow> Inl (Wrapf ''failed to set file permissions: %w'' [] err)
     | None \<Rightarrow> Inr \<lparr>jr_writer = of_write f, jr_file = Some f, jr_writes = 0, jr_lines = [], jr_writeErr = None\<rparr>))"

definition flattenHeaders :: "headers \<Rightarrow> (string, string) gomap" where
  "flattenHeaders h = concat (map (\<lambda>(key, values). case values of [] \<Rightarrow> [] | v # _ \<Rightarrow> [(key, v)]) h)"

definition formatBody :: "(string \<Rightarrow> 'j option) \<Rightarrow> string \<Rightarrow> body_type \<Rightarrow> 'j jsonl_body" where
  "formatBody parse b t = (case t of
     BodyTypeJSON \<Rightarrow> (case parse b of Some j \<Rightarrow> JParsed j | None \<Rightarrow> JText b)
   | BodyTypeBinary \<Rightarrow> JBinary (length b)
   | _ \<Rightarrow> JText b)"

definition writeEntry :: "'j jsonl_entry \<Rightarrow> 'j jsonl_recorder \<Rightarrow> 'j jsonl_recorder" where
  "writeEntry e r = (case jr_writer r (jr_writes r) of
     None \<Rightarrow> r\<lparr>jr_writes := Suc (jr_writes r), jr_lines := jr_lines r @ [e]\<rparr>
   | Some err \<Rightarrow> r\<lparr>jr_writes := Suc (jr_writes r),
       jr_writeErr := (if jr_writeErr r = None then Some err else jr_writeErr r)\<rparr>)"

definition requestEntry ::
  "(string \<Rightarrow> 'j option) \<Rightarrow> string list list \<Rightarrow> captured_request \<Rightarrow> string \<Rightarrow> 'j jsonl_entry" where
  "requestEntry parse sources req requestID =
     \<lparr>je_timestamp = cq_startTime req, je_requestID = requestID, je_type = ''request'',
      je_method = cq_method req, je_url = redactValue sources (cq_url req),
      je_host = cq_host req, je_path = cq_path req, je_status = 0, je_statusText = '''',
      je_headers = flattenHeaders (redactHeaders sources (cq_headers req)),
      je_body = (if cq_body req \<noteq> ''''
        then Some (formatBody parse (redactBytes sources (cq_body req)) (cq_bodyType req)) else None),
      je_bodyType = body_type_name (cq_bodyType req),
      je_bodyInfo = redactValue sources (cq_bodyInfo req),
      je_bodyError = redactValue sources (cq_bodyError req), je_durationMS = 0\<rparr>"

definition writeRequestEntry ::
  "(string \<Rightarrow> 'j option) \<Rightarrow> string list list \<Rightarrow> captured_request \<Rightarrow> string \<Rightarrow> 'j jsonl_recorder
   \<Rightarrow> 'j jsonl_recorder" where
  "writeRequestEntry parse sources req requestID r = writeEntry (requestEntry parse sources req requestID) r"

definition responseEntry ::
  "(string \<Rightarrow> 'j option) \<Rightarrow> string list list \<Rightarrow> captured_response \<Rightarrow> string \<Rightarrow> 'j jsonl_entry" where
  "responseEntry parse sources resp requestID =
     \<lparr>je_timestamp = cs_endTime resp, je_requestID = requestID, je_type = ''response'',
      je_method = '''', je_url = '''', je_host = '''', je_path = '''',
      je_status = cs_status resp, je_statusText = cs_statusText resp,
      je_headers = flattenHeaders (redactHeaders sources (cs_headers resp)),
      je_body = (if cs_body resp \<noteq> ''''
        then Some (formatBody parse (redactBytes sources (cs_body resp)) (cs_bodyType resp)) else None),
      je_bodyType = body_type_name (cs_bodyType resp),
      je_bodyInfo = redactValue sources (cs_bodyInfo resp),
      je_bodyError = redactValue sources (cs_bodyError resp), je_durationMS = cs_durationMS resp\<rparr>"

definition writeResponseEntry ::
  "(string \<Rightarrow> 'j option) \<Rightarrow> string list list \<Rightarrow> captured_response \<Rightarrow> string \<Rightarrow> 'j jsonl_recorder
   \<Rightarrow> 'j jsonl_recorder" where
  "writeResponseEntry parse sources resp requestID r = writeEntry (responseEntry parse sources resp requestID) r"

text \<open>\<open>Close\<close>: the errors \<open>errors.Join\<close> joins; the empty list is the nil error.\<close>

definition jsonlClose :: "'j jsonl_recorder \<Rightarrow> go_error list" where
  "jsonlClose r = List.map_filter (\<lambda>e. e) (case jr_file r of
     Some f \<Rightarrow> [jr_writeErr r, of_close f] | None \<Rightarrow> [jr_writeErr r])"

subsection \<open>Both\<close>

record 'j multi_recorder =
  mr_har :: "har_recorder option"
  mr_jsonl :: "'j jsonl_recorder option"

text \<open>\<open>RecordRequest\<close> captures the request; its callback takes the captured data and the request as
  the capture left it. The request id is the constant of \<open>getRequestIDFromContext\<close>.\<close>

definition multiRequest :: "request \<Rightarrow> go_time \<Rightarrow> captured_request \<times> request" where
  "multiRequest req started = (case captureRequest req started of (c, _, req') \<Rightarrow> (c, req'))"

definition getRequestIDFromContext :: string where
  "getRequestIDFromContext = ''''"

definition multiResponse ::
  "(string \<Rightarrow> 'j option) \<Rightarrow> string list list \<Rightarrow> captured_request \<Rightarrow> request \<Rightarrow> go_time
   \<Rightarrow> response \<Rightarrow> go_error option \<Rightarrow> go_time \<Rightarrow> 'j multi_recorder \<Rightarrow> 'j multi_recorder \<times> response" where
  "multiResponse parse sources capturedReq req started resp err end_time m = (case err of
     Some e \<Rightarrow> (m\<lparr>mr_har := map_option
         (recordResponse sources (recordRequest sources req) req started (Some resp) (Some e) end_time) (mr_har m)\<rparr>,
       resp)
   | None \<Rightarrow> (case captureResponse resp end_time of (capturedResp, _, resp') \<Rightarrow>
       (let capturedResp = capturedResp\<lparr>cs_durationMS := milliseconds (end_time - started)\<rparr> in
        (\<lparr>mr_har = map_option
            (recordResponse sources (recordRequest sources req) req started (Some resp') None end_time) (mr_har m),
          mr_jsonl = map_option (\<lambda>j. writeResponseEntry parse sources capturedResp getRequestIDFromContext
            (writeRequestEntry parse sources capturedReq getRequestIDFromContext j)) (mr_jsonl m)\<rparr>, resp'))))"

definition multiClose :: "'j multi_recorder \<Rightarrow> go_error list" where
  "multiClose m = (case mr_jsonl m of Some j \<Rightarrow> jsonlClose j | None \<Rightarrow> [])"

subsection \<open>Properties\<close>

lemma redactHeaders_clean:
  assumes "scrubbable v" "v \<in> set (concat sources)" "(name, x) \<in> set (harHeaders (redactHeaders sources h))"
  shows "\<not> str_contains x v"
proof -
  have known: "v \<in> set (knownValues sources)"
    using assms by (auto simp: knownValues_set scrubbable_def)
  have "\<not> str_contains placeholderText v"
    using contains_redacted [OF assms(1), of "[]" "[]"] assms(1) by (auto simp: str_contains_iff scrubbable_def)
  then show ?thesis
    using assms(3) scrub_removes [OF assms(1) known]
    by (auto simp: harHeaders_def redactHeaders_def Let_def split: if_splits)
qed

lemma redactValue_clean:
  "scrubbable v \<Longrightarrow> v \<in> set (concat sources) \<Longrightarrow> \<not> str_contains (redactValue sources s) v"
  unfolding redactValue_def by (rule scrub_removes) (auto simp: knownValues_set scrubbable_def)

text \<open>No secret value known when a request is recorded and when its response arrives reaches a
  HAR entry through the URL, a request or response header, or the text of an error. (The response's
  MIME type is the one string taken from the message as it is.)\<close>

theorem har_entry_leaks_no_secret:
  assumes "scrubbable v" "v \<in> set (concat s1)" "v \<in> set (concat s2)"
    and "recordResponse s2 (recordRequest s1 req) req started resp err end_time [] = [e]"
  shows "\<not> str_contains (hq_url (he_request e)) v \<and>
    \<not> list_ex (\<lambda>(n, x). str_contains x v) (hq_headers (he_request e) @ (case hr_headers (he_response e) of None \<Rightarrow> [] | Some hs \<Rightarrow> hs)) \<and>
    (err \<noteq> None \<longrightarrow> \<not> str_contains (hr_statusText (he_response e)) v \<and>
       \<not> str_contains (hc_text (hr_content (he_response e))) v)"
  using assms(4) redactHeaders_clean [OF assms(1,2)] redactHeaders_clean [OF assms(1,3)]
    redactValue_clean [OF assms(1,2)] redactValue_clean [OF assms(1,3)]
  by (auto simp: recordResponse_def recordRequest_def errorResponse_def successResponse_def emptyHARResponse_def
      list_ex_iff split: option.splits)

definition demo_leaky :: request where
  "demo_leaky = demo_request\<lparr>rq_url := ''https://api.example.com/bot-sk-12/send'', rq_path := ''/bot-sk-12/send''\<rparr>"

theorem har_entry_leaks_no_secret_witness:
  "hq_url (recordRequest demo_values demo_leaky) = ''https://api.example.com/bot-[REDACTED]/send'' \<and>
   \<not> str_contains (hq_url (recordRequest demo_values demo_leaky)) ''sk-12''"
proof -
  obtain e where e: "recordResponse demo_values (recordRequest demo_values demo_leaky) demo_leaky 0 None None 0 [] = [e]"
    by (simp add: recordResponse_def)
  have "scrubbable ''sk-12''" "''sk-12'' \<in> set (concat demo_values)" by code_simp+
  from har_entry_leaks_no_secret [OF this this(2) e] e
  have "\<not> str_contains (hq_url (recordRequest demo_values demo_leaky)) ''sk-12''"
    by (auto simp: recordResponse_def)
  moreover have "hq_url (recordRequest demo_values demo_leaky) = ''https://api.example.com/bot-[REDACTED]/send''"
    by code_simp
  ultimately show ?thesis by blast
qed

text \<open>A JSON-lines entry records the same request twice: the URL is scrubbed, but its path and
  the host are written as they are, so a secret in the path of a request is in the recording.\<close>

theorem jsonl_path_is_not_scrubbed:
  assumes "scrubbable v" "v \<in> set (concat sources)" "str_contains (cq_path c) v"
  shows "\<not> str_contains (je_url (requestEntry parse sources c requestID)) v \<and>
    str_contains (je_path (requestEntry parse sources c requestID)) v"
  using assms redactValue_clean by (auto simp: requestEntry_def)

theorem jsonl_path_is_not_scrubbed_witness:
  "str_contains (je_path (requestEntry (\<lambda>_. None :: unit option) demo_values
     (fst (captureRequest demo_leaky 0)) '''')) ''sk-12''"
proof -
  have "scrubbable ''sk-12''" "''sk-12'' \<in> set (concat demo_values)"
    "str_contains (cq_path (fst (captureRequest demo_leaky 0))) ''sk-12''" by code_simp+
  from jsonl_path_is_not_scrubbed [OF this] show ?thesis by blast
qed

text \<open>A body is scrubbed as bytes and decoded afterwards, so a secret that the body spells with
  JSON escapes is recorded in clear: the decoder undoes the escapes.\<close>

theorem escaped_secret_is_decoded:
  assumes "cq_bodyType c = BodyTypeJSON" "parse (cq_body c) = Some j" "cq_body c \<noteq> ''''"
    and "\<not> list_ex (str_contains (cq_body c)) (knownValues sources)"
  shows "je_body (requestEntry parse sources c requestID) = Some (JParsed j)"
proof -
  have "scrub (cq_body c) (knownValues sources) = cq_body c"
    using assms(4) by (intro scrub_unchanged) (auto simp: list_ex_iff)
  then show ?thesis using assms by (simp add: requestEntry_def redactBytes_def formatBody_def)
qed

text \<open>A decoder that knows one document: the string \<open>sk-12\<close> with its first letter escaped.\<close>

definition escaped_doc :: string where
  "escaped_doc = CHR 0x22 # CHR 0x5C # ''u0073k-12'' @ [CHR 0x22]"

definition doc_decoder :: "string \<Rightarrow> string option" where
  "doc_decoder s = (if s = escaped_doc then Some ''sk-12'' else None)"

theorem escaped_secret_is_decoded_witness:
  "je_body (requestEntry doc_decoder demo_values
     (fst (captureRequest (demo_request\<lparr>rq_body := Body escaped_doc None\<rparr>) 0)) '''') = Some (JParsed ''sk-12'')"
proof (rule escaped_secret_is_decoded)
  let ?c = "fst (captureRequest (demo_request\<lparr>rq_body := Body escaped_doc None\<rparr>) 0)"
  show "cq_bodyType ?c = BodyTypeJSON" by code_simp
  show "doc_decoder (cq_body ?c) = Some ''sk-12''" by code_simp
  show "cq_body ?c \<noteq> ''''" by code_simp
  show "\<not> list_ex (str_contains (cq_body ?c)) (knownValues demo_values)" by code_simp
qed

lemma writeEntry_err: "jr_writeErr r = Some e \<Longrightarrow> jr_writeErr (foldl (\<lambda>r x. writeEntry x r) r es) = Some e"
  by (induction es arbitrary: r) (auto simp: writeEntry_def split: option.splits)

lemma writeEntry_counts: "jr_writes (foldl (\<lambda>r x. writeEntry x r) r es) = jr_writes r + length es"
  by (induction es arbitrary: r) (auto simp: writeEntry_def split: option.splits)

lemma writeEntry_frame [simp]: "jr_writer (writeEntry e r) = jr_writer r" "jr_file (writeEntry e r) = jr_file r"
  by (auto simp: writeEntry_def split: option.splits)

lemma writeEntry_frames:
  "jr_writer (foldl (\<lambda>r x. writeEntry x r) r es) = jr_writer r"
  "jr_file (foldl (\<lambda>r x. writeEntry x r) r es) = jr_file r"
  by (induction es arbitrary: r) simp_all

lemma writeEntry_first:
  "jr_writeErr r = None \<Longrightarrow>
   jr_writeErr (foldl (\<lambda>r x. writeEntry x r) r es) =
     (case find (\<lambda>i. jr_writer r i \<noteq> None) [jr_writes r ..< jr_writes r + length es] of
        None \<Rightarrow> None | Some i \<Rightarrow> jr_writer r i)"
proof (induction es arbitrary: r)
  case (Cons x es)
  have range: "[jr_writes r ..< jr_writes r + length (x # es)] =
      jr_writes r # [Suc (jr_writes r) ..< Suc (jr_writes r) + length es]"
    by (simp only: upt_conv_Cons length_Cons add_Suc_right add_Suc less_add_Suc1)
  show ?case
  proof (cases "jr_writer r (jr_writes r)")
    case None
    then have "jr_writes (writeEntry x r) = Suc (jr_writes r)" "jr_writeErr (writeEntry x r) = None"
      using Cons.prems by (auto simp: writeEntry_def)
    then show ?thesis using Cons.IH [of "writeEntry x r"] None unfolding range
      by (simp cong: option.case_cong del: upt_Suc)
  next
    case (Some e)
    then have "jr_writeErr (writeEntry x r) = Some e" using Cons.prems by (simp add: writeEntry_def)
    then show ?thesis using Some writeEntry_err unfolding range by simp
  qed
qed simp

text \<open>A truncated recording is never silent: after any sequence of writes, closing reports the
  first write that failed, and reports nothing only when every write and the close succeeded.\<close>

theorem first_write_failure_surfaces:
  assumes "newJSONLFileRecorder create path = Inr r" "create path = Inr f"
  shows "jsonlClose (foldl (\<lambda>r x. writeEntry x r) r es) =
    List.map_filter (\<lambda>e. e)
      [(case find (\<lambda>i. of_write f i \<noteq> None) [0 ..< length es] of None \<Rightarrow> None | Some i \<Rightarrow> of_write f i), of_close f]"
proof -
  have r: "jr_writer r = of_write f" "jr_file r = Some f" "jr_writes r = 0" "jr_writeErr r = None"
    using assms by (auto simp: newJSONLFileRecorder_def split: option.splits)
  show ?thesis
    unfolding jsonlClose_def writeEntry_frames writeEntry_first [OF r(4)] by (simp add: r cong: option.case_cong)
qed

definition full_disk :: out_file where
  "full_disk = \<lparr>of_write = (\<lambda>i. if i < 2 then None else Some (Errorf ''no space left on device'' [])),
     of_chmod = None, of_close = None\<rparr>"

theorem first_write_failure_surfaces_witness:
  "\<exists>r. newJSONLFileRecorder (\<lambda>_. Inr full_disk) ''out.jsonl'' = Inr r \<and>
     (\<forall>e :: unit jsonl_entry. jsonlClose (foldl (\<lambda>r x. writeEntry x r) r [e, e, e, e]) =
        [Errorf ''no space left on device'' []])"
proof -
  obtain r :: "unit jsonl_recorder" where r: "newJSONLFileRecorder (\<lambda>_. Inr full_disk) ''out.jsonl'' = Inr r"
    by (simp add: newJSONLFileRecorder_def full_disk_def)
  have "jsonlClose (foldl (\<lambda>r x. writeEntry x r) r [e, e, e, e]) = [Errorf ''no space left on device'' []]" for e
    unfolding first_write_failure_surfaces [OF r refl]
    by (simp add: full_disk_def List.map_filter_def upt_rec numeral_eq_Suc)
  then show ?thesis using r by blast
qed

end
