(* ===== verification/Log.thy ===== *)
theory Log
  imports Go_Strings "HOL-Library.Word"
begin

text \<open>
  \<open>internal/log/logger.go\<close>: the parts of the operational log that decide something: which
  arguments are redacted before they are logged, and the color a connection is tagged with. A
  logged argument is a string or a value of another type (\<open>LAny\<close>); the color
  counter is an unsigned 64-bit integer that wraps around.
\<close>

type_synonym color = "int \<times> int \<times> int"

definition colorPalette :: "color list" where
  "colorPalette =
     [(255, 85, 85), (85, 255, 255), (255, 200, 85), (85, 85, 255), (85, 255, 85), (255, 85, 255),
      (255, 150, 85), (85, 200, 255), (200, 255, 85), (200, 85, 255), (85, 255, 150), (255, 85, 150),
      (255, 255, 85), (85, 150, 255), (150, 255, 85), (255, 85, 200), (85, 255, 200), (255, 150, 150),
      (150, 200, 255), (255, 200, 150)]"

definition nextCorrelationColor :: "64 word \<Rightarrow> color \<times> 64 word" where
  "nextCorrelationColor colorIndex =
     (let i = colorIndex + 1 in (colorPalette ! unat (i mod of_nat (length colorPalette)), i))"

definition redactSensitive :: "string \<Rightarrow> string" where
  "redactSensitive v = (if v = '''' then '''' else ''[REDACTED]'')"

definition isSensitiveKey :: "string \<Rightarrow> bool" where
  "isSensitiveKey key = list_ex (str_contains (to_lower key))
     [''authorization'', ''secret'', ''password'', ''token'', ''api_key'', ''apikey'', ''credential'']"

text \<open>A floating-point value carries its text and its conversion to \<open>int\<close>; a value of any other type is
  the text of \<open>%v\<close>.\<close>

datatype attr_val = VStr string | VInt int | VFloat string int | VBool bool | VStrs "string list" | VAny string

datatype log_arg = LStr string | LAny attr_val

fun redactSensitiveArgs :: "log_arg list \<Rightarrow> log_arg list" where
  "redactSensitiveArgs (LStr key # v # rest) =
     LStr key # (case v of LStr _ \<Rightarrow> if isSensitiveKey key then LStr ''[REDACTED]'' else v | LAny _ \<Rightarrow> v)
     # redactSensitiveArgs rest"
| "redactSensitiveArgs (k # v # rest) = k # v # redactSensitiveArgs rest"
| "redactSensitiveArgs args = args"

lemma redactSensitiveArgs_length: "length (redactSensitiveArgs args) = length args"
  by (induction args rule: redactSensitiveArgs.induct) auto

lemma redactSensitiveArgs_pair:
  "2 * i + 1 < length args \<Longrightarrow>
   redactSensitiveArgs args ! (2 * i) = args ! (2 * i) \<and>
   redactSensitiveArgs args ! (2 * i + 1) =
     (case (args ! (2 * i), args ! (2 * i + 1)) of
        (LStr key, LStr v) \<Rightarrow> if isSensitiveKey key then LStr ''[REDACTED]'' else LStr v
      | (_, v) \<Rightarrow> v)"
proof (induction args arbitrary: i rule: redactSensitiveArgs.induct)
  case (1 key v rest)
  show ?case
  proof (cases i)
    case 0
    then show ?thesis by (cases v) auto
  next
    case (Suc j)
    then show ?thesis using 1(1) [of j] 1(2) by simp
  qed
next
  case (2 k v rest)
  show ?case
  proof (cases i)
    case (Suc j)
    then show ?thesis using 2(1) [of j] 2(2) by simp
  qed simp
qed auto

text \<open>A string logged under a sensitive key, in whatever case the key is written, never reaches the
  log, and no other argument is changed. (A value of another type, as a list of strings, is logged
  as it is.)\<close>

theorem sensitive_strings_are_never_logged:
  assumes "2 * i + 1 < length args" "args ! (2 * i) = LStr key" "args ! (2 * i + 1) = v"
  shows "length (redactSensitiveArgs args) = length args \<and> redactSensitiveArgs args ! (2 * i) = LStr key \<and>
    (isSensitiveKey key \<longrightarrow> redactSensitiveArgs args ! (2 * i + 1) = (case v of LStr _ \<Rightarrow> LStr ''[REDACTED]'' | LAny s \<Rightarrow> LAny s)) \<and>
    (\<not> isSensitiveKey key \<longrightarrow> redactSensitiveArgs args ! (2 * i + 1) = v)"
  using redactSensitiveArgs_pair [OF assms(1)] assms(2,3)
  by (auto simp: redactSensitiveArgs_length split: log_arg.splits)

theorem sensitive_strings_are_never_logged_witness:
  "redactSensitiveArgs [LStr ''host'', LStr ''h'', LStr ''X-API_Key'', LStr ''sk-12''] ! 3 = LStr ''[REDACTED]''"
proof -
  have "isSensitiveKey ''X-API_Key''" by code_simp
  then show ?thesis
    using sensitive_strings_are_never_logged
      [of 1 "[LStr ''host'', LStr ''h'', LStr ''X-API_Key'', LStr ''sk-12'']" "''X-API_Key''" "LStr ''sk-12''"]
    by (simp add: numeral_eq_Suc)
qed

end
