(* ===== verification/Proxy_Auth.thy ===== *)
theory Proxy_Auth
  imports Recorder Secrets Audit_Log Service_Registry Log
begin

text \<open>
  \<open>internal/proxy/proxy_auth.go\<close>: the gate that every path into the proxy passes, and the state the
  proxy's handlers work on.

  A handler takes a flow, the server's shared state, the user data of the goproxy context and
  the request, and returns the flow with a reply when it answers the request itself. A reply made
  with goproxy's \<open>NewResponse\<close> is the call's status and text (the content type is always
  \<open>ContentTypeText\<close>); the 407 challenge is built in this file.
  The user data is a pointer to a \<open>requestMetadata\<close>, and goproxy gives the user data of a CONNECT to
  every request decrypted from its tunnel: the flows of one tunnel take their user data from each
  other. What is not the program's own (a fresh request id, the clock, the operating system) is the
  record \<open>env\<close> of the request.
\<close>

record metadata =
  md_startTime :: "go_time option"
  md_request :: "request option"
  md_strippedHeaders :: "string list"
  md_requestID :: string
  md_color :: color
  md_proxyAuthenticated :: bool

definition blank_metadata :: metadata where
  "blank_metadata = \<lparr>md_startTime = None, md_request = None, md_strippedHeaders = [], md_requestID = '''',
     md_color = (0, 0, 0), md_proxyAuthenticated = False\<rparr>"

record env =
  ev_os :: os
  ev_freshID :: string
  ev_now :: go_time

record px =
  px_registry :: registry
  px_secrets :: "secret_registry option"
  px_auths :: "auth_registry option"
  px_audit :: audit_logger
  px_warned :: "string list"
  px_colorIndex :: "64 word"

record flow =
  fl_px :: px
  fl_meta :: "metadata option"
  fl_req :: request

datatype reply = NewResponse int string | Challenge response

type_synonym handler = "flow \<Rightarrow> flow \<times> reply option"

definition reply_status :: "reply \<Rightarrow> int" where
  "reply_status r = (case r of NewResponse status _ \<Rightarrow> status | Challenge resp \<Rightarrow> rs_status resp)"

definition proxyAuthUser :: string where
  "proxyAuthUser = ''chaperone''"

definition proxyAuthRealm :: string where
  "proxyAuthRealm = ''chaperone-proxy''"

definition proxyAuthChallenge :: response where
  "proxyAuthChallenge = \<lparr>rs_status = 407,
     rs_header = [(''Proxy-Authenticate'', [''Basic realm='' @ CHR 0x22 # proxyAuthRealm @ [CHR 0x22]]),
       (''Content-Length'', [''0''])],
     rs_contentLength = 0, rs_proto = (1, 1), rs_body = Body '''' None\<rparr>"

definition validateProxyAuth :: "request \<Rightarrow> string \<Rightarrow> bool" where
  "validateProxyAuth r secret =
     (let auth = hdr_get (rq_header r) ''Proxy-Authorization'' in
      if auth = '''' then False
      else if \<not> has_prefix auth ''Basic '' then False
      else case b64_decode (trim_prefix auth ''Basic '') of
        None \<Rightarrow> False
      | Some decoded \<Rightarrow> (case cut_byte (CHR '':'') decoded of
          None \<Rightarrow> False
        | Some (user, password) \<Rightarrow> password = secret))"

definition proxyAuthHandler :: "string \<Rightarrow> handler" where
  "proxyAuthHandler secret fl =
     (if (case fl_meta fl of Some meta \<Rightarrow> md_proxyAuthenticated meta | None \<Rightarrow> False) then (fl, None)
      else if \<not> validateProxyAuth (fl_req fl) secret then (fl, Some (Challenge proxyAuthChallenge))
      else (fl\<lparr>fl_req := (fl_req fl)\<lparr>rq_header := hdr_del ''Proxy-Authorization'' (rq_header (fl_req fl))\<rparr>\<rparr>, None))"

subsection \<open>CONNECT\<close>

datatype connect_action = ConnectMitm | OkConnect | RejectConnect

type_synonym connect_handler = "string \<Rightarrow> flow \<Rightarrow> flow \<times> connect_action \<times> reply option"

definition proxyAuthConnectHandler :: "string \<Rightarrow> connect_handler \<Rightarrow> connect_handler" where
  "proxyAuthConnectHandler secret next_handler host fl =
     (if \<not> validateProxyAuth (fl_req fl) secret
      then (fl, RejectConnect, Some (Challenge proxyAuthChallenge))
      else (case next_handler host
              (fl\<lparr>fl_req := (fl_req fl)\<lparr>rq_header := hdr_del ''Proxy-Authorization'' (rq_header (fl_req fl))\<rparr>\<rparr>) of
          (fl', action, resp) \<Rightarrow>
            (fl'\<lparr>fl_meta := (case fl_meta fl' of
                 Some meta \<Rightarrow> Some (meta\<lparr>md_proxyAuthenticated := True\<rparr>)
               | None \<Rightarrow> Some (blank_metadata\<lparr>md_proxyAuthenticated := True\<rparr>))\<rparr>, action, resp)))"

text \<open>\<open>connect_handler.go\<close>: intercept the hosts of the registry, tunnel the others.\<close>

definition connectHandler :: "env \<Rightarrow> connect_handler" where
  "connectHandler ev host fl =
     (case nextCorrelationColor (px_colorIndex (fl_px fl)) of (color, idx) \<Rightarrow>
       (let fl' = fl\<lparr>fl_px := (fl_px fl)\<lparr>px_colorIndex := idx\<rparr>,
              fl_meta := Some (blank_metadata\<lparr>md_requestID := ev_freshID ev, md_color := color\<rparr>),
              fl_req := (fl_req fl)\<lparr>rq_requestID := ev_freshID ev\<rparr>\<rparr> in
        (fl', if shouldMITM (Some (px_registry (fl_px fl))) host then ConnectMitm else OkConnect, None)))"

text \<open>The secret a new proxy is given: 32 random bytes in URL-safe base64 without padding.\<close>

definition urlsafe :: "string \<Rightarrow> string" where
  "urlsafe s = map (\<lambda>c. if c = CHR ''+'' then CHR ''-'' else if c = CHR ''/'' then CHR ''_'' else c)
     (filter (\<lambda>c. c \<noteq> CHR ''='') s)"

definition generateProxySecret :: "go_error + string \<Rightarrow> go_error + string" where
  "generateProxySecret random = (case random of Inl err \<Rightarrow> Inl err | Inr bytes \<Rightarrow> Inr (urlsafe (b64_encode bytes)))"

subsection \<open>Properties\<close>

lemma validateProxyAuth_iff:
  "validateProxyAuth r secret \<longleftrightarrow>
     (\<exists>e user. hdr_get (rq_header r) ''Proxy-Authorization'' = ''Basic '' @ e \<and>
        b64_decode e = Some (user @ CHR '':'' # secret) \<and> CHR '':'' \<notin> set user)"
proof
  assume v: "validateProxyAuth r secret"
  then obtain e where e: "hdr_get (rq_header r) ''Proxy-Authorization'' = ''Basic '' @ e"
    by (auto simp: validateProxyAuth_def Let_def has_prefix_iff split: if_splits)
  then obtain u where "b64_decode e = Some (u @ CHR '':'' # secret)" "CHR '':'' \<notin> set u"
    using v trim_prefix_append [of "''Basic ''" e]
    by (auto simp: validateProxyAuth_def Let_def cut_byte_Some_iff split: option.splits if_splits)
  with e show "\<exists>e user. hdr_get (rq_header r) ''Proxy-Authorization'' = ''Basic '' @ e \<and>
        b64_decode e = Some (user @ CHR '':'' # secret) \<and> CHR '':'' \<notin> set user" by blast
next
  assume "\<exists>e user. hdr_get (rq_header r) ''Proxy-Authorization'' = ''Basic '' @ e \<and>
        b64_decode e = Some (user @ CHR '':'' # secret) \<and> CHR '':'' \<notin> set user"
  then obtain e u where eu: "hdr_get (rq_header r) ''Proxy-Authorization'' = ''Basic '' @ e"
      "b64_decode e = Some (u @ CHR '':'' # secret)" "CHR '':'' \<notin> set u" by blast
  then have "cut_byte (CHR '':'') (u @ CHR '':'' # secret) = Some (u, secret)"
    by (simp add: cut_byte_Some_iff)
  then show "validateProxyAuth r secret"
    using eu trim_prefix_append [of "''Basic ''" e] has_prefix_append [of "''Basic ''" e]
    by (simp add: validateProxyAuth_def Let_def)
qed

lemma validateProxyAuth_encoded:
  "hdr_get (rq_header r) ''Proxy-Authorization'' = ''Basic '' @ b64_encode (user @ CHR '':'' # secret) \<Longrightarrow>
   CHR '':'' \<notin> set user \<Longrightarrow> validateProxyAuth r secret"
  by (auto simp: validateProxyAuth_iff b64_roundtrip)

lemma proxy_authorization_canonical: "canonical_key ''Proxy-Authorization'' = ''Proxy-Authorization''"
  by code_simp

lemma hdr_get_proxy: "map_get h ''Proxy-Authorization'' = Some (v # vs) \<Longrightarrow> hdr_get h ''Proxy-Authorization'' = v"
  by (simp add: hdr_get_def proxy_authorization_canonical)



end
