(* ===== verification/Proxy_Handlers.thy ===== *)
theory Proxy_Handlers
  imports Proxy_Auth Auth
begin

text \<open>
  \<open>internal/proxy\<close>: the request handlers of the injecting proxy (\<open>util.go\<close>, \<open>policy_handler.go\<close>,
  \<open>auth_handler.go\<close>, \<open>recording_handler.go\<close>) and its response handler. A handler that panics is
  the value \<open>Panicking\<close>. Operational log messages are not part of the flow.
\<close>

definition extractClientIP :: "request \<Rightarrow> string" where
  "extractClientIP r = (case split_host_port (rq_remoteAddr r) of
     None \<Rightarrow> rq_remoteAddr r | Some (host, _) \<Rightarrow> host)"

text \<open>The fields of an audit entry that every handler fills from the service and the request.\<close>

definition requestEvent :: "event \<Rightarrow> service \<Rightarrow> request \<Rightarrow> string \<Rightarrow> entry" where
  "requestEvent ev svc r outcome = (blank_entry ev)\<lparr>en_service := svcName svc, en_host := rq_host r,
     en_path := rq_path r, en_method := rq_method r, en_requestID := rq_requestID r,
     en_clientIP := extractClientIP r, en_outcome := outcome\<rparr>"

definition fl_audit :: "entry \<Rightarrow> flow \<Rightarrow> flow" where
  "fl_audit e fl = fl\<lparr>fl_px := (fl_px fl)\<lparr>px_audit := logAudit e (px_audit (fl_px fl))\<rparr>\<rparr>"

definition fl_header :: "headers \<Rightarrow> flow \<Rightarrow> flow" where
  "fl_header h fl = fl\<lparr>fl_req := (fl_req fl)\<lparr>rq_header := h\<rparr>\<rparr>"

subsection \<open>Request id\<close>

definition requestIDHandler :: "env \<Rightarrow> handler" where
  "requestIDHandler ev fl =
     (let requestID0 = (case fl_meta fl of Some meta \<Rightarrow> md_requestID meta | None \<Rightarrow> '''');
          color0 = (case fl_meta fl of Some meta \<Rightarrow> md_color meta | None \<Rightarrow> (0, 0, 0));
          requestID = (if requestID0 = '''' then ev_freshID ev else requestID0) in
      case (if color0 = (0, 0, 0) then nextCorrelationColor (px_colorIndex (fl_px fl))
            else (color0, px_colorIndex (fl_px fl))) of (color, idx) \<Rightarrow>
        (fl\<lparr>fl_px := (fl_px fl)\<lparr>px_colorIndex := idx\<rparr>,
            fl_meta := Some ((case fl_meta fl of Some meta \<Rightarrow> meta | None \<Rightarrow> blank_metadata)
              \<lparr>md_requestID := requestID, md_color := color\<rparr>),
            fl_req := (fl_req fl)\<lparr>rq_requestID := requestID, rq_color := color\<rparr>\<rparr>, None))"

subsection \<open>Drop rules and policy\<close>

text \<open>The first drop pattern that ends the loop: one that cannot be parsed, or one that matches.\<close>

fun firstDrop :: "string list \<Rightarrow> string \<Rightarrow> string \<Rightarrow> (string \<times> string) option" where
  "firstDrop [] hostname p = None"
| "firstDrop (pattern # patterns) hostname p = (case parseURLPattern pattern of
     Inl err \<Rightarrow> Some (''unenforceable drop pattern: %s'', pattern)
   | Inr urlPattern \<Rightarrow> if up_matches urlPattern hostname p then Some (''matched drop pattern: %s'', pattern)
       else firstDrop patterns hostname p)"

definition dropHostname :: "string \<Rightarrow> string" where
  "dropHostname host = (case split_host_port host of Some (h, _) \<Rightarrow> h | None \<Rightarrow> host)"

definition dropHandler :: handler where
  "dropHandler fl = (let r = fl_req fl in
     case reg_lookup (rq_host r) (px_registry (fl_px fl)) of
       Inl _ \<Rightarrow> (fl, None)
     | Inr svc \<Rightarrow> (case svcPolicy svc of
         None \<Rightarrow> (fl, None)
       | Some policy \<Rightarrow>
           if dropPatterns policy = [] then (fl, None)
           else case firstDrop (dropPatterns policy) (dropHostname (rq_host r)) (rq_path r) of
             None \<Rightarrow> (fl, None)
           | Some (detail, pattern) \<Rightarrow>
               (fl_audit ((requestEvent EventRequestDropped svc r ''blocked'')
                  \<lparr>en_statusCode := 403, en_detail := [Str (sprintf detail [pattern])]\<rparr>) fl,
                Some (NewResponse 403 ''Request blocked by drop policy''))))"

definition policyDenied :: "service \<Rightarrow> request \<Rightarrow> int \<Rightarrow> string \<Rightarrow> go_error \<Rightarrow> flow \<Rightarrow> flow \<times> reply option" where
  "policyDenied svc r status detail err fl =
     (fl_audit ((requestEvent EventPolicyDenied svc r ''blocked'')
        \<lparr>en_statusCode := status, en_detail := [Str detail]\<rparr>) fl,
      Some (NewResponse status (error_text err)))"

definition policyHandler :: handler where
  "policyHandler fl = (let r = fl_req fl in
     case reg_lookup (rq_host r) (px_registry (fl_px fl)) of
       Inl _ \<Rightarrow> (fl, None)
     | Inr svc \<Rightarrow> (case svcPolicy svc of
         None \<Rightarrow> (fl, None)
       | Some policy \<Rightarrow> (case checkMethod (rq_method r) (Some policy) of
           Some err \<Rightarrow> policyDenied svc r (if str_contains (error_text err) ''too large'' then 413 else 403)
               (sprintf ''method %s not allowed'' [rq_method r]) err fl
         | None \<Rightarrow> (case checkPath (rq_path r) (Some policy) of
             Some err \<Rightarrow> policyDenied svc r 403 (sprintf ''path %s not allowed'' [rq_path r]) err fl
           | None \<Rightarrow> (case checkBodySize (rq_contentLength r) (Some policy) of
               Some err \<Rightarrow> policyDenied svc r 413
                 (sprintf ''body size %d exceeds limit'' [show_int (rq_contentLength r)]) err fl
             | None \<Rightarrow> (fl, None))))))"

text \<open>Deleting while iterating: the keys are those present when the loop starts, in its order; one that
  has been removed before it is reached is not produced.\<close>

fun stripNamed :: "string \<Rightarrow> string list \<Rightarrow> headers \<Rightarrow> headers" where
  "stripNamed lower [] h = h"
| "stripNamed lower (actual # ks) h =
     (if map_get h actual = None then stripNamed lower ks h
      else if to_lower actual = lower then stripNamed lower ks (hdr_del actual h)
      else stripNamed lower ks h)"

definition stripAll :: "string list \<Rightarrow> headers \<Rightarrow> headers" where
  "stripAll names h = foldl (\<lambda>h name. stripNamed (to_lower name) (map_keys h) h) h names"

definition stripHandler :: handler where
  "stripHandler fl = (let r = fl_req fl in
     case reg_lookup (rq_host r) (px_registry (fl_px fl)) of
       Inl _ \<Rightarrow> (fl, None)
     | Inr svc \<Rightarrow> (case svcPolicy svc of
         None \<Rightarrow> (fl, None)
       | Some policy \<Rightarrow> if stripHeaders policy = [] then (fl, None)
           else (fl_header (stripAll (stripHeaders policy) (rq_header r)) fl, None)))"

subsection \<open>Stripping the client's credentials\<close>

definition bearerToken :: "string \<Rightarrow> string \<Rightarrow> string" where
  "bearerToken authStrategy v =
     (if has_prefix authStrategy ''bearer'' then trim_space (trim_prefix v ''Bearer '') else v)"

definition headerContainsPlaceholder :: "string \<Rightarrow> string \<Rightarrow> string \<Rightarrow> bool" where
  "headerContainsPlaceholder headerValue ph authStrategy \<longleftrightarrow> bearerToken authStrategy headerValue = ph"

definition redactCredential :: "string \<Rightarrow> string" where
  "redactCredential v = (if length v \<le> 8 then ''[REDACTED]''
     else take 4 v @ ''...'' @ drop (length v - 4) v)"

fun stripKnown :: "service \<Rightarrow> string \<Rightarrow> string list \<Rightarrow> headers \<times> string list \<Rightarrow> headers \<times> string list" where
  "stripKnown svc known [] acc = acc"
| "stripKnown svc known (actual # ks) (h, stripped) =
     (if map_get h actual = None \<or> to_lower actual \<noteq> known then stripKnown svc known ks (h, stripped)
      else let v = hdr_get h actual in
        if placeholder svc \<noteq> '''' \<and> headerContainsPlaceholder v (placeholder svc) (authStrategyRef svc)
        then stripKnown svc known ks (h, stripped)
        else stripKnown svc known ks (hdr_del actual h, stripped @ [actual @ ''='' @ redactCredential v]))"

definition stripCredentials :: "service \<Rightarrow> headers \<Rightarrow> headers \<times> string list" where
  "stripCredentials svc h =
     foldl (\<lambda>(h, stripped) known. stripKnown svc known (map_keys h) (h, stripped)) (h, []) knownAuthHeaders"

definition securityStripAuthHandler :: "env \<Rightarrow> handler" where
  "securityStripAuthHandler ev fl = (let r = fl_req fl in
     case reg_lookup (rq_host r) (px_registry (fl_px fl)) of
       Inl _ \<Rightarrow> (fl, None)
     | Inr svc \<Rightarrow> (case stripCredentials svc (rq_header r) of (h, stripped) \<Rightarrow>
         (let fl' = fl_header h fl in
          if stripped = [] then (fl', None)
          else (fl_audit ((requestEvent EventAuthHeaderStripped svc r ''success'')
                 \<lparr>en_detail := [Str (sprintf ''stripped headers: %s'' [str_join '', '' stripped])]\<rparr>)
               (fl'\<lparr>fl_meta := Some (case fl_meta fl of
                   Some meta \<Rightarrow> meta\<lparr>md_strippedHeaders := stripped\<rparr>
                 | None \<Rightarrow> blank_metadata\<lparr>md_startTime := Some (ev_now ev), md_request := Some (fl_req fl'),
                     md_strippedHeaders := stripped\<rparr>)\<rparr>), None))))"

subsection \<open>Injecting the credential\<close>

definition placeholderHeader :: "service \<Rightarrow> string" where
  "placeholderHeader svc = (if headerName svc \<noteq> '''' then headerName svc else ''Authorization'')"

definition placeholderMatches :: "service \<Rightarrow> headers \<Rightarrow> bool" where
  "placeholderMatches svc h \<longleftrightarrow>
     bearerToken (authStrategyRef svc) (hdr_get h (placeholderHeader svc)) = placeholder svc"

definition authFailed :: "service \<Rightarrow> request \<Rightarrow> int \<Rightarrow> go_error \<Rightarrow> string \<Rightarrow> flow \<Rightarrow> flow \<times> reply option" where
  "authFailed svc r status err text0 fl =
     (fl_audit ((requestEvent EventAuthFailure svc r ''failure'')
        \<lparr>en_authStrategy := authStrategyRef svc, en_statusCode := status, en_error := Some err\<rparr>) fl,
      Some (NewResponse status text0))"

text \<open>From the fetch on: what is left once the placeholder check has let the request through.\<close>

definition injectCredential ::
  "env \<Rightarrow> service \<Rightarrow> secret_registry \<Rightarrow> auth_registry \<Rightarrow> flow \<Rightarrow> flow \<times> reply option" where
  "injectCredential ev svc secrets auths fl = (let r = fl_req fl in
     case secretFetch (ev_os ev) (rq_ctxErr r) (credentialRef svc) secrets of
       (Inl err, secrets') \<Rightarrow>
         authFailed svc r 503 (Errorf ''secret fetch failed: %v'' [Str (error_text err)]) ''Secret unavailable''
           (fl\<lparr>fl_px := (fl_px fl)\<lparr>px_secrets := Some secrets'\<rparr>\<rparr>)
     | (Inr secret, secrets') \<Rightarrow>
         (let fl' = fl\<lparr>fl_px := (fl_px fl)\<lparr>px_secrets := Some secrets'\<rparr>\<rparr> in
          case authGet (authStrategyRef svc) auths of
            Inl err \<Rightarrow> authFailed svc r 502 (Errorf ''unknown auth strategy: %v'' [Str (error_text err)])
              ''Authentication configuration error'' fl'
          | Inr strategy \<Rightarrow> (case strategyApply strategy secret (rq_header r) of
              (Some err, h) \<Rightarrow> authFailed svc r 502 (Errorf ''auth strategy apply failed: %v'' [Str (error_text err)])
                ''Authentication failed'' (fl_header h fl')
            | (None, h) \<Rightarrow>
                (fl_audit ((requestEvent EventCredentialInjected svc r ''success'')
                   \<lparr>en_authStrategy := authStrategyRef svc\<rparr>) (fl_header h fl'), None))))"

definition authHandler :: "env \<Rightarrow> handler" where
  "authHandler ev fl = (let r = fl_req fl in
     case reg_lookup (rq_host r) (px_registry (fl_px fl)) of
       Inl _ \<Rightarrow> (fl, None)
     | Inr svc \<Rightarrow> (case (px_secrets (fl_px fl), px_auths (fl_px fl)) of
         (Some secrets, Some auths) \<Rightarrow>
           if placeholder svc \<noteq> '''' \<and> \<not> placeholderMatches svc (rq_header r)
           then (fl_audit ((requestEvent EventPlaceholderMismatch svc r ''pass_through'')
               \<lparr>en_detail := [Str ''placeholder mismatch'']\<rparr>) fl, None)
           else injectCredential ev svc secrets auths
             (if placeholder svc \<noteq> '''' then fl
              else fl\<lparr>fl_px := (fl_px fl)\<lparr>px_warned := List.insert (svcName svc) (px_warned (fl_px fl))\<rparr>\<rparr>)
       | _ \<Rightarrow> (fl, None)))"

subsection \<open>Recording\<close>

text \<open>\<open>recordRequestHandler\<close> keeps a clone of the request, and the first start time.\<close>

definition recordRequestHandler :: "env \<Rightarrow> handler" where
  "recordRequestHandler ev fl =
     (fl\<lparr>fl_meta := Some (case fl_meta fl of
         Some meta \<Rightarrow> meta\<lparr>md_request := Some (fl_req fl),
           md_startTime := (case md_startTime meta of None \<Rightarrow> Some (ev_now ev) | Some t \<Rightarrow> Some t)\<rparr>
       | None \<Rightarrow> blank_metadata\<lparr>md_startTime := Some (ev_now ev), md_request := Some (fl_req fl),
           md_requestID := rq_requestID (fl_req fl)\<rparr>)\<rparr>, None)"

text \<open>\<open>recordResponseHandler\<close>, with the values the redactor's sources report. A zero start time is
  \<open>time.Time{}\<close>, the argument \<open>zero\<close>. After recording, the handler reads the response's status for
  the operational log, which panics for the nil response goproxy hands over when the upstream could
  not be reached.\<close>

datatype 'a outcome = Finished 'a | Panicking 'a

definition recordResponseHandler ::
  "go_time \<Rightarrow> string list list \<Rightarrow> go_time \<Rightarrow> response option \<Rightarrow> metadata option \<Rightarrow> har_recorder
   \<Rightarrow> har_recorder outcome" where
  "recordResponseHandler zero sources end_time resp meta rec = (case meta of
     None \<Rightarrow> Finished rec
   | Some m \<Rightarrow> (case md_request m of
       None \<Rightarrow> Finished rec
     | Some r \<Rightarrow>
         (let rec' = recordResponse sources (recordRequest sources r) r
                (case md_startTime m of Some t \<Rightarrow> t | None \<Rightarrow> zero) resp None end_time rec in
          case resp of Some _ \<Rightarrow> Finished rec' | None \<Rightarrow> Panicking rec')))"

text \<open>\<open>conditions.go\<close>.\<close>

definition chaperoneCondition :: "flow \<Rightarrow> bool" where
  "chaperoneCondition fl = shouldMITM (Some (px_registry (fl_px fl))) (rq_host (fl_req fl))"

definition chaperoneRespCondition :: "registry \<Rightarrow> (response \<times> request option) option \<Rightarrow> bool" where
  "chaperoneRespCondition registry resp = (case resp of
     Some (_, Some req) \<Rightarrow> shouldMITM (Some registry) (rq_host req) | _ \<Rightarrow> False)"

subsection \<open>Stripping\<close>

lemma hdr_del_present:
  "canonical_headers h \<Longrightarrow> map_get h k \<noteq> None \<Longrightarrow> hdr_del k h = map_del k h"
  by (auto simp: hdr_del_def dest: canonical_headersD)

lemma hdr_get_present:
  "canonical_headers h \<Longrightarrow> map_get h k = Some vs \<Longrightarrow> hdr_get h k = (case vs of v # _ \<Rightarrow> v | [] \<Rightarrow> '''')"
  by (auto simp: hdr_get_def dest: canonical_headersD split: list.splits)

lemma hdr_get_del_other:
  "canonical_headers h \<Longrightarrow> map_get h k \<noteq> None \<Longrightarrow> k \<noteq> k' \<Longrightarrow> hdr_get (map_del k' h) k = hdr_get h k"
  by (auto simp: hdr_get_def dest: canonical_headersD)

lemma stripNamed_canonical: "canonical_headers h \<Longrightarrow> canonical_headers (stripNamed lower ks h)"
  by (induction ks arbitrary: h) (auto simp: hdr_del_present canonical_headers_del)

lemma stripNamed_get:
  "canonical_headers h \<Longrightarrow>
   map_get (stripNamed lower ks h) k = (if k \<in> set ks \<and> to_lower k = lower then None else map_get h k)"
  by (induction ks arbitrary: h) (auto simp: hdr_del_present canonical_headers_del)

lemma stripAll_get:
  "canonical_headers h \<Longrightarrow> canonical_headers (stripAll names h) \<and>
   map_get (stripAll names h) k = (if to_lower k \<in> to_lower ` set names then None else map_get h k)"
proof (induction names arbitrary: h)
  case (Cons n names)
  have get: "map_get (stripNamed (to_lower n) (map_keys h) h) k = (if to_lower k = to_lower n then None else map_get h k)"
    using stripNamed_get [OF Cons.prems, of "to_lower n" "map_keys h" k] map_get_None_iff [of h k] by auto
  show ?case
    using Cons.IH [OF stripNamed_canonical [OF Cons.prems, of "to_lower n" "map_keys h"]] get
    by (auto simp: stripAll_def)
qed (simp add: stripAll_def)

text \<open>What the credential strip keeps of a known header: one whose value is the placeholder.\<close>

definition keepsHeader :: "service \<Rightarrow> headers \<Rightarrow> string \<Rightarrow> bool" where
  "keepsHeader svc h k \<longleftrightarrow> placeholder svc \<noteq> '''' \<and>
     headerContainsPlaceholder (hdr_get h k) (placeholder svc) (authStrategyRef svc)"

lemma stripKnown_get:
  "canonical_headers h \<Longrightarrow>
   canonical_headers (fst (stripKnown svc known ks (h, ss))) \<and>
   map_get (fst (stripKnown svc known ks (h, ss))) k =
     (if k \<in> set ks \<and> to_lower k = known \<and> \<not> keepsHeader svc h k then None else map_get h k)"
proof (induction ks arbitrary: h ss)
  case (Cons a ks)
  show ?case
  proof (cases "map_get h a \<noteq> None \<and> to_lower a = known \<and> \<not> keepsHeader svc h a")
    case True
    then have step: "stripKnown svc known (a # ks) (h, ss) =
        stripKnown svc known ks (map_del a h, ss @ [a @ ''='' @ redactCredential (hdr_get h a)])"
      using hdr_del_present [OF Cons.prems, of a] by (auto simp: Let_def keepsHeader_def)
    have keep: "map_get h k \<noteq> None \<Longrightarrow> k \<noteq> a \<Longrightarrow> keepsHeader svc (map_del a h) k = keepsHeader svc h k"
      using Cons.prems by (auto simp: keepsHeader_def hdr_get_del_other)
    show ?thesis
      unfolding step using Cons.IH [OF canonical_headers_del [OF Cons.prems, of a]] True keep
      by (cases "map_get h k = None") auto
  next
    case False
    then have "stripKnown svc known (a # ks) (h, ss) = stripKnown svc known ks (h, ss)"
      by (auto simp: Let_def keepsHeader_def)
    then show ?thesis using Cons.IH [OF Cons.prems] False by auto
  qed
qed simp

lemma stripKnown_silent:
  "snd (stripKnown svc known ks (h, ss)) = [] \<Longrightarrow> ss = [] \<and> fst (stripKnown svc known ks (h, ss)) = h"
proof (induction ks arbitrary: h ss)
  case (Cons a ks)
  show ?case
  proof (cases "map_get h a \<noteq> None \<and> to_lower a = known \<and> \<not> keepsHeader svc h a")
    case True
    then have "stripKnown svc known (a # ks) (h, ss) =
        stripKnown svc known ks (hdr_del a h, ss @ [a @ ''='' @ redactCredential (hdr_get h a)])"
      by (auto simp: Let_def keepsHeader_def)
    then show ?thesis using Cons.IH [of "hdr_del a h"] Cons.prems by fastforce
  next
    case False
    then have "stripKnown svc known (a # ks) (h, ss) = stripKnown svc known ks (h, ss)"
      by (auto simp: Let_def keepsHeader_def)
    then show ?thesis using Cons.IH [of h ss] Cons.prems by metis
  qed
qed simp

lemma stripCredentials_fold:
  "canonical_headers h \<Longrightarrow>
   canonical_headers (fst (foldl (\<lambda>(h, ss) known. stripKnown svc known (map_keys h) (h, ss)) (h, ss) knowns)) \<and>
   map_get (fst (foldl (\<lambda>(h, ss) known. stripKnown svc known (map_keys h) (h, ss)) (h, ss) knowns)) k =
     (if to_lower k \<in> set knowns \<and> \<not> keepsHeader svc h k then None else map_get h k)"
proof (induction knowns arbitrary: h ss)
  case (Cons n knowns)
  obtain h1 ss1 where s: "stripKnown svc n (map_keys h) (h, ss) = (h1, ss1)" by fastforce
  then have h1: "canonical_headers h1"
      "map_get h1 j = (if to_lower j = n \<and> \<not> keepsHeader svc h j then None else map_get h j)" for j
    using stripKnown_get [OF Cons.prems, of svc n "map_keys h" ss j] map_get_None_iff [of h j] by auto
  have keep: "keepsHeader svc h1 k = keepsHeader svc h k" if some: "map_get h1 k \<noteq> None"
  proof -
    obtain vs where "map_get h1 k = Some vs" using some by blast
    moreover from this have "map_get h k = Some vs" using h1(2) [of k] by (simp split: if_splits)
    ultimately show ?thesis using hdr_get_present [OF Cons.prems] hdr_get_present [OF h1(1)]
      by (simp add: keepsHeader_def)
  qed
  note IH = Cons.IH [OF h1(1), of ss1]
  have "map_get h1 k = None \<Longrightarrow> map_get h k = None \<or> to_lower k = n \<and> \<not> keepsHeader svc h k"
    using h1(2) [of k] by (simp split: if_splits)
  moreover have "map_get h1 k \<noteq> None \<Longrightarrow> map_get h1 k = map_get h k \<and> (to_lower k = n \<longrightarrow> keepsHeader svc h k)"
    using h1(2) [of k] by (simp split: if_splits)
  ultimately show ?case using IH keep s by (cases "map_get h1 k = None") auto
qed simp

lemma stripCredentials_get:
  assumes "canonical_headers h" "stripCredentials svc h = (h', ss)"
  shows "canonical_headers h'"
    and "map_get h' k = (if to_lower k \<in> set knownAuthHeaders \<and> \<not> keepsHeader svc h k then None else map_get h k)"
  using stripCredentials_fold [OF assms(1), of svc "[]" knownAuthHeaders k] assms(2)
  by (auto simp: stripCredentials_def)

lemma stripCredentials_silent:
  assumes "stripCredentials svc h = (h', [])"
  shows "h' = h"
proof -
  have "snd (foldl (\<lambda>(h, ss) known. stripKnown svc known (map_keys h) (h, ss)) (h, ss) knowns) = [] \<Longrightarrow>
      ss = [] \<and> fst (foldl (\<lambda>(h, ss) known. stripKnown svc known (map_keys h) (h, ss)) (h, ss) knowns) = h"
    for knowns ss and h :: headers
  proof (induction knowns arbitrary: h ss)
    case (Cons n knowns)
    obtain h1 ss1 where s: "stripKnown svc n (map_keys h) (h, ss) = (h1, ss1)" by fastforce
    then show ?case using Cons.IH [of h1 ss1] Cons.prems stripKnown_silent [of svc n "map_keys h" h ss] by auto
  qed simp
  from this [of h "[]" knownAuthHeaders] assms show ?thesis by (auto simp: stripCredentials_def)
qed

subsection \<open>Properties\<close>

text \<open>A service configured in the documented one-line spelling, \<open>auth_strategy = "header:NAME"\<close>
  without \<open>header_name\<close>, never gets its credential through its placeholder: the strategy writes the
  header NAME, but the placeholder is looked for in \<open>Authorization\<close>. A client that sends the
  placeholder where the credential belongs is passed through, placeholder and all.\<close>

theorem combined_header_placeholder_is_ignored:
  assumes "reg_lookup (rq_host (fl_req fl)) (px_registry (fl_px fl)) = Inr svc"
    and "authStrategyRef svc = ''header:'' @ n" "headerName svc = ''''"
    and "placeholder svc \<noteq> ''''" "hdr_get (rq_header (fl_req fl)) n = placeholder svc"
    and "hdr_get (rq_header (fl_req fl)) ''Authorization'' \<noteq> placeholder svc"
  shows "snd (authHandler ev fl) = None \<and> fl_req (fst (authHandler ev fl)) = fl_req fl \<and>
    px_secrets (fl_px (fst (authHandler ev fl))) = px_secrets (fl_px fl) \<and>
    hdr_get (rq_header (fl_req (fst (authHandler ev fl)))) n = placeholder svc"
proof -
  have "\<not> has_prefix (authStrategyRef svc) ''bearer''" unfolding assms(2) by simp
  then have "\<not> placeholderMatches svc (rq_header (fl_req fl))"
    using assms(3,6) by (simp add: placeholderMatches_def bearerToken_def placeholderHeader_def)
  then show ?thesis
    using assms(1,4,5) by (auto simp: authHandler_def Let_def fl_audit_def split: option.splits)
qed

definition demo_env :: env where
  "demo_env = \<lparr>ev_os = demo_os, ev_freshID = ''req-1'', ev_now = 5\<rparr>"

definition demo_combined :: service where
  "demo_combined = demo_service\<lparr>authStrategyRef := ''header:x-api-key'', placeholder := ''chap_dev_1234''\<rparr>"

definition demo_combined_flow :: flow where
  "demo_combined_flow = \<lparr>fl_px = \<lparr>px_registry = [(''*.example.com'', demo_combined)],
       px_secrets = Some newSecretRegistry, px_auths = Some [(''header:x-api-key'', HeaderStrategy ''x-api-key'')],
       px_audit = \<lparr>al_enabled = True, al_writer = (\<lambda>_. None), al_attempts = 0, al_entries = []\<rparr>,
       px_warned = [], px_colorIndex = 0\<rparr>,
     fl_meta = None, fl_req = demo_request\<lparr>rq_header := [(''X-Api-Key'', [''chap_dev_1234''])]\<rparr>\<rparr>"

theorem combined_header_placeholder_is_ignored_witness:
  "hdr_get (rq_header (fl_req (fst (authHandler demo_env demo_combined_flow)))) ''x-api-key'' = ''chap_dev_1234''"
proof -
  have "reg_lookup (rq_host (fl_req demo_combined_flow)) (px_registry (fl_px demo_combined_flow)) = Inr demo_combined"
    "authStrategyRef demo_combined = ''header:'' @ ''x-api-key''" "headerName demo_combined = ''''"
    "placeholder demo_combined \<noteq> ''''"
    "hdr_get (rq_header (fl_req demo_combined_flow)) ''x-api-key'' = placeholder demo_combined"
    "hdr_get (rq_header (fl_req demo_combined_flow)) ''Authorization'' \<noteq> placeholder demo_combined"
    "placeholder demo_combined = ''chap_dev_1234''"
    by code_simp+
  from combined_header_placeholder_is_ignored [OF this(1-6), of demo_env] this(7) show ?thesis by metis
qed

text \<open>The response handler always records, but it survives only a response: the metadata of a
  request being there, one entry is appended, and the handler panics exactly when there is no
  response, which is what the examine proxy hands it when the upstream could not be reached.\<close>

theorem response_handler_panics_without_response:
  assumes "md_request m = Some r"
  shows "\<exists>e. recordResponseHandler zero sources end_time resp (Some m) rec =
      (case resp of Some _ \<Rightarrow> Finished (rec @ [e]) | None \<Rightarrow> Panicking (rec @ [e])) \<and>
    he_request e = recordRequest sources r"
  using assms by (auto simp: recordResponseHandler_def recordResponse_def Let_def split: option.splits)

theorem response_handler_panics_without_response_witness:
  "\<exists>rec. recordResponseHandler 0 [] 7 None (Some (blank_metadata\<lparr>md_request := Some demo_request\<rparr>)) [] = Panicking rec"
  using response_handler_panics_without_response
    [of "blank_metadata\<lparr>md_request := Some demo_request\<rparr>" demo_request 0 "[]" 7 None "[]"]
  by auto

end
