(* ===== verification/Proxy_Server.thy ===== *)
theory Proxy_Server
  imports Proxy_Handlers
begin

text \<open>
  \<open>internal/proxy/server.go\<close>: the order in which the injecting proxy runs its handlers.

  goproxy runs them; the model knows of it what its documentation says, as the hypothesis
  \<open>goproxy_ok\<close> on a parameter: request handlers run in the order they were added until one
  returns a response, and a handler added under a condition is skipped where the condition fails.
\<close>

record goproxy =
  gp_run :: "handler list \<Rightarrow> handler"
  gp_guard :: "(flow \<Rightarrow> bool) \<Rightarrow> handler \<Rightarrow> handler"

definition goproxy_ok :: "goproxy \<Rightarrow> bool" where
  "goproxy_ok gp \<longleftrightarrow>
     (\<forall>fl. gp_run gp [] fl = (fl, None)) \<and>
     (\<forall>h hs fl. gp_run gp (h # hs) fl =
        (case h fl of (fl', Some resp) \<Rightarrow> (fl', Some resp) | (fl', None) \<Rightarrow> gp_run gp hs fl')) \<and>
     (\<forall>cond h fl. gp_guard gp cond h fl = (if cond fl then h fl else (fl, None)))"

text \<open>The handlers of \<open>NewWithMITM\<close> in order.\<close>

definition mitmHandlers :: "goproxy \<Rightarrow> env \<Rightarrow> string \<Rightarrow> handler list" where
  "mitmHandlers gp ev proxySecret =
     [proxyAuthHandler proxySecret,
      gp_guard gp chaperoneCondition (requestIDHandler ev),
      gp_guard gp chaperoneCondition dropHandler,
      gp_guard gp chaperoneCondition (securityStripAuthHandler ev),
      gp_guard gp chaperoneCondition policyHandler,
      gp_guard gp chaperoneCondition stripHandler,
      gp_guard gp chaperoneCondition (recordRequestHandler ev),
      gp_guard gp chaperoneCondition (authHandler ev)]"

definition mitmPipeline :: "goproxy \<Rightarrow> env \<Rightarrow> string \<Rightarrow> handler" where
  "mitmPipeline gp ev proxySecret = gp_run gp (mitmHandlers gp ev proxySecret)"

text \<open>The handlers of \<open>NewExamineProxy\<close> that come before its logging, and its recording.\<close>

definition examinePipeline :: "goproxy \<Rightarrow> env \<Rightarrow> string \<Rightarrow> handler \<Rightarrow> bool \<Rightarrow> handler" where
  "examinePipeline gp ev proxySecret examineRequest recording = gp_run gp
     ([proxyAuthHandler proxySecret, requestIDHandler ev, examineRequest] @
      (if recording then [recordRequestHandler ev] else []))"

text \<open>A goproxy that behaves as documented.\<close>

fun runHandlers :: "handler list \<Rightarrow> handler" where
  "runHandlers [] fl = (fl, None)"
| "runHandlers (h # hs) fl =
     (case h fl of (fl', Some resp) \<Rightarrow> (fl', Some resp) | (fl', None) \<Rightarrow> runHandlers hs fl')"

definition guardOn :: "(flow \<Rightarrow> bool) \<Rightarrow> handler \<Rightarrow> handler" where
  "guardOn cond h fl = (if cond fl then h fl else (fl, None))"

definition demo_goproxy :: goproxy where
  "demo_goproxy = \<lparr>gp_run = runHandlers, gp_guard = guardOn\<rparr>"

lemma demo_goproxy_ok: "goproxy_ok demo_goproxy"
  by (auto simp: goproxy_ok_def demo_goproxy_def guardOn_def split: prod.splits option.splits)

lemma goproxy_ok_eq:
  assumes "goproxy_ok gp"
  shows "gp_run gp = runHandlers" "gp_guard gp = guardOn"
proof -
  have "gp_run gp hs fl = runHandlers hs fl" for hs fl
    using assms by (induction hs arbitrary: fl) (auto simp: goproxy_ok_def split: option.splits prod.splits)
  then show "gp_run gp = runHandlers" by blast
  show "gp_guard gp = guardOn" using assms by (auto simp: goproxy_ok_def guardOn_def fun_eq_iff)
qed

lemma runHandlers_append:
  "runHandlers (hs @ hs') fl =
     (case runHandlers hs fl of (fl', Some resp) \<Rightarrow> (fl', Some resp) | (fl', None) \<Rightarrow> runHandlers hs' fl')"
  by (induction hs arbitrary: fl) (auto split: option.splits prod.splits)

subsection \<open>Handlers that can only take away\<close>

abbreviation fl_headers :: "flow \<Rightarrow> headers" where
  "fl_headers fl \<equiv> rq_header (fl_req fl)"

text \<open>What every handler leaves alone: where the request goes and what the proxy is configured with.\<close>

definition same_core :: "flow \<Rightarrow> flow \<Rightarrow> bool" where
  "same_core fl fl' \<longleftrightarrow>
     px_registry (fl_px fl') = px_registry (fl_px fl) \<and> px_auths (fl_px fl') = px_auths (fl_px fl) \<and>
     rq_method (fl_req fl') = rq_method (fl_req fl) \<and> rq_url (fl_req fl') = rq_url (fl_req fl) \<and>
     rq_host (fl_req fl') = rq_host (fl_req fl) \<and> rq_path (fl_req fl') = rq_path (fl_req fl) \<and>
     rq_contentLength (fl_req fl') = rq_contentLength (fl_req fl) \<and> rq_body (fl_req fl') = rq_body (fl_req fl) \<and>
     rq_ctxErr (fl_req fl') = rq_ctxErr (fl_req fl) \<and> rq_remoteAddr (fl_req fl') = rq_remoteAddr (fl_req fl)"

definition only_removes :: "headers \<Rightarrow> headers \<Rightarrow> bool" where
  "only_removes h h' \<longleftrightarrow> (\<forall>k. map_get h' k = None \<or> map_get h' k = map_get h k)"

definition quiet :: "handler \<Rightarrow> bool" where
  "quiet h \<longleftrightarrow> (\<forall>fl fl' rep. canonical_headers (fl_headers fl) \<longrightarrow> h fl = (fl', rep) \<longrightarrow>
     same_core fl fl' \<and> px_secrets (fl_px fl') = px_secrets (fl_px fl) \<and>
     canonical_headers (fl_headers fl') \<and> only_removes (fl_headers fl) (fl_headers fl'))"

lemma same_core_refl [simp]: "same_core fl fl"
  by (simp add: same_core_def)

lemma same_core_trans: "same_core a b \<Longrightarrow> same_core b c \<Longrightarrow> same_core a c"
  by (simp add: same_core_def)

lemma only_removes_refl [simp]: "only_removes h h"
  by (simp add: only_removes_def)

lemma only_removes_trans: "only_removes a b \<Longrightarrow> only_removes b c \<Longrightarrow> only_removes a c"
  unfolding only_removes_def by metis

lemma same_core_audit [simp]: "same_core fl (fl_audit e fl') = same_core fl fl'"
  by (simp add: same_core_def fl_audit_def)

lemma fl_audit_simps [simp]:
  "fl_req (fl_audit e fl) = fl_req fl" "fl_meta (fl_audit e fl) = fl_meta fl"
  "px_registry (fl_px (fl_audit e fl)) = px_registry (fl_px fl)"
  "px_secrets (fl_px (fl_audit e fl)) = px_secrets (fl_px fl)"
  "px_auths (fl_px (fl_audit e fl)) = px_auths (fl_px fl)"
  by (simp_all add: fl_audit_def)

lemma fl_header_simps [simp]:
  "fl_req (fl_header h fl) = (fl_req fl)\<lparr>rq_header := h\<rparr>" "fl_px (fl_header h fl) = fl_px fl"
  "fl_meta (fl_header h fl) = fl_meta fl"
  by (simp_all add: fl_header_def)

lemma quiet_guard: "quiet h \<Longrightarrow> quiet (guardOn cond h)"
  by (auto simp: quiet_def guardOn_def)

lemma quietD:
  "quiet h \<Longrightarrow> canonical_headers (fl_headers fl) \<Longrightarrow> h fl = (fl', rep) \<Longrightarrow>
     same_core fl fl' \<and> px_secrets (fl_px fl') = px_secrets (fl_px fl) \<and>
     canonical_headers (fl_headers fl') \<and> only_removes (fl_headers fl) (fl_headers fl')"
  unfolding quiet_def by blast

lemma quiet_run: "list_all quiet hs \<Longrightarrow> quiet (runHandlers hs)"
proof (induction hs)
  case (Cons h hs)
  show ?case
    unfolding quiet_def
  proof (intro allI impI)
    fix fl fl' rep
    assume c: "canonical_headers (fl_headers fl)" and r: "runHandlers (h # hs) fl = (fl', rep)"
    obtain fl1 rep1 where h: "h fl = (fl1, rep1)" by fastforce
    have 1: "same_core fl fl1 \<and> px_secrets (fl_px fl1) = px_secrets (fl_px fl) \<and>
        canonical_headers (fl_headers fl1) \<and> only_removes (fl_headers fl) (fl_headers fl1)"
      using quietD [where h = h and fl = fl and fl' = fl1 and rep = rep1] Cons.prems c h by simp
    show "same_core fl fl' \<and> px_secrets (fl_px fl') = px_secrets (fl_px fl) \<and>
        canonical_headers (fl_headers fl') \<and> only_removes (fl_headers fl) (fl_headers fl')"
    proof (cases rep1)
      case None
      then have "runHandlers hs fl1 = (fl', rep)" using r h by simp
      then have "same_core fl1 fl' \<and> px_secrets (fl_px fl') = px_secrets (fl_px fl1) \<and>
          canonical_headers (fl_headers fl') \<and> only_removes (fl_headers fl1) (fl_headers fl')"
        using quietD [where h = "runHandlers hs" and fl = fl1 and fl' = fl' and rep = rep] Cons 1 by simp
      then show ?thesis
        using 1 by (auto intro: same_core_trans [of fl fl1 fl'] only_removes_trans [of _ "fl_headers fl1"])
    next
      case (Some x)
      then show ?thesis using 1 r h by simp
    qed
  qed
qed (simp add: quiet_def)

lemma quiet_proxyAuth: "quiet (proxyAuthHandler secret)"
  by (auto simp: quiet_def proxyAuthHandler_def hdr_del_def canonical_headers_del same_core_def only_removes_def
      split: if_splits)

lemma quiet_requestID: "quiet (requestIDHandler ev)"
  by (auto simp: quiet_def requestIDHandler_def Let_def same_core_def split: prod.splits)

lemma quiet_drop: "quiet dropHandler"
  by (auto simp: quiet_def dropHandler_def Let_def split: sum.splits option.splits if_splits prod.splits)

lemma quiet_policy: "quiet policyHandler"
  by (auto simp: quiet_def policyHandler_def policyDenied_def Let_def split: sum.splits option.splits)

lemma quiet_strip: "quiet stripHandler"
  by (auto simp: quiet_def stripHandler_def Let_def same_core_def only_removes_def stripAll_get
      split: sum.splits option.splits if_splits)

lemma quiet_record: "quiet (recordRequestHandler ev)"
  by (auto simp: quiet_def recordRequestHandler_def same_core_def)

lemma quiet_securityStrip: "quiet (securityStripAuthHandler ev)"
  unfolding quiet_def
proof (intro allI impI)
  fix fl fl' rep
  assume c: "canonical_headers (fl_headers fl)" and r: "securityStripAuthHandler ev fl = (fl', rep)"
  have "only_removes (fl_headers fl) h" "canonical_headers h"
    if "stripCredentials svc (fl_headers fl) = (h, ss)" for svc h ss
    using stripCredentials_get [OF c that] by (auto simp: only_removes_def)
  then show "same_core fl fl' \<and> px_secrets (fl_px fl') = px_secrets (fl_px fl) \<and>
      canonical_headers (fl_headers fl') \<and> only_removes (fl_headers fl) (fl_headers fl')"
    using c r by (auto simp: securityStripAuthHandler_def Let_def same_core_def split: sum.splits if_splits prod.splits)
qed

lemmas quiet_handlers = quiet_proxyAuth quiet_requestID quiet_drop quiet_policy quiet_strip quiet_record
  quiet_securityStrip

subsection \<open>The gates before injection\<close>

lemma authHandler_change:
  assumes "authHandler ev fl = (fl', rep)" "fl_headers fl' \<noteq> fl_headers fl"
  obtains svc secrets auths st v secrets' where
    "reg_lookup (rq_host (fl_req fl)) (px_registry (fl_px fl)) = Inr svc"
    "px_secrets (fl_px fl) = Some secrets" "px_auths (fl_px fl) = Some auths"
    "placeholder svc \<noteq> '''' \<longrightarrow> placeholderMatches svc (fl_headers fl)"
    "secretFetch (ev_os ev) (rq_ctxErr (fl_req fl)) (credentialRef svc) secrets = (Inr v, secrets')"
    "authGet (authStrategyRef svc) auths = Inr st" "strategyApply st v (fl_headers fl) = (None, fl_headers fl')"
    "rep = None"
proof -
  obtain svc where svc: "reg_lookup (rq_host (fl_req fl)) (px_registry (fl_px fl)) = Inr svc"
    using assms by (cases "reg_lookup (rq_host (fl_req fl)) (px_registry (fl_px fl))") (auto simp: authHandler_def Let_def)
  obtain secrets auths where reg: "px_secrets (fl_px fl) = Some secrets" "px_auths (fl_px fl) = Some auths"
    using assms svc by (cases "px_secrets (fl_px fl)"; cases "px_auths (fl_px fl)") (auto simp: authHandler_def Let_def)
  have ph: "placeholder svc \<noteq> '''' \<longrightarrow> placeholderMatches svc (fl_headers fl)"
    using assms svc reg by (auto simp: authHandler_def Let_def split: if_splits)
  define fl0 where "fl0 = (if placeholder svc \<noteq> '''' then fl
    else fl\<lparr>fl_px := (fl_px fl)\<lparr>px_warned := List.insert (svcName svc) (px_warned (fl_px fl))\<rparr>\<rparr>)"
  have fl0: "fl_req fl0 = fl_req fl" by (simp add: fl0_def)
  have inj: "injectCredential ev svc secrets auths fl0 = (fl', rep)"
    using assms(1) svc reg ph by (auto simp: authHandler_def Let_def fl0_def split: if_splits)
  obtain res secrets' where fetch:
    "secretFetch (ev_os ev) (rq_ctxErr (fl_req fl)) (credentialRef svc) secrets = (res, secrets')" by fastforce
  obtain v where v: "res = Inr v"
    using inj fetch assms(2) by (cases res) (auto simp: injectCredential_def authFailed_def Let_def fl0)
  obtain st where st: "authGet (authStrategyRef svc) auths = Inr st"
    using inj fetch v assms(2)
    by (cases "authGet (authStrategyRef svc) auths") (auto simp: injectCredential_def authFailed_def Let_def fl0)
  obtain err h where ap: "strategyApply st v (fl_headers fl) = (err, h)" by fastforce
  have "err = None"
    using inj fetch v st ap assms(2) any_strategy.failure_unchanged [of st v "fl_headers fl"]
    by (cases err) (auto simp: injectCredential_def authFailed_def Let_def fl0)
  then have "fl_headers fl' = h \<and> rep = None"
    using inj fetch v st ap by (auto simp: injectCredential_def Let_def fl0)
  then show ?thesis using that [OF svc reg ph] fetch v st ap \<open>err = None\<close> by auto
qed

text \<open>A run that goes through executed each handler, at a flow the handlers before it left.\<close>

lemma runHandlers_through:
  assumes "runHandlers (hs @ h # hs') fl = (fl', None)"
  obtains fl1 fl2 where "runHandlers hs fl = (fl1, None)" "h fl1 = (fl2, None)" "runHandlers hs' fl2 = (fl', None)"
  using assms by (auto simp: runHandlers_append split: option.splits prod.splits)

lemma quiet_run_from:
  assumes "runHandlers hs fl = (fl', rep)" "list_all quiet hs" "canonical_headers (fl_headers fl)"
  shows "same_core fl fl'" "px_secrets (fl_px fl') = px_secrets (fl_px fl)"
    "canonical_headers (fl_headers fl')" "only_removes (fl_headers fl) (fl_headers fl')"
  using quietD [where h = "runHandlers hs" and fl = fl and fl' = fl' and rep = rep] quiet_run [OF assms(2)] assms(1,3)
  by simp_all

lemma dropHandler_passes:
  "dropHandler fl = (fl', None) \<Longrightarrow> reg_lookup (rq_host (fl_req fl)) (px_registry (fl_px fl)) = Inr svc \<Longrightarrow>
   svcPolicy svc = Some p \<Longrightarrow> firstDrop (dropPatterns p) (dropHostname (rq_host (fl_req fl))) (rq_path (fl_req fl)) = None"
  by (auto simp: dropHandler_def Let_def split: if_splits option.splits)

lemma policyHandler_passes:
  "policyHandler fl = (fl', None) \<Longrightarrow> reg_lookup (rq_host (fl_req fl)) (px_registry (fl_px fl)) = Inr svc \<Longrightarrow>
   permits (svcPolicy svc) (rq_method (fl_req fl)) (rq_path (fl_req fl)) (rq_contentLength (fl_req fl))"
  by (cases "svcPolicy svc")
    (auto simp: policyHandler_def policyDenied_def permits_def checkMethod_def checkPath_def checkBodySize_def Let_def
      split: option.splits if_splits)

lemma placeholderMatches_back:
  assumes "only_removes h h'" "placeholder svc \<noteq> ''''" "placeholderMatches svc h'"
  shows "placeholderMatches svc h"
proof -
  have "hdr_get h' (placeholderHeader svc) \<noteq> ''''"
  proof
    assume "hdr_get h' (placeholderHeader svc) = ''''"
    then have "bearerToken (authStrategyRef svc) '''' = placeholder svc"
      using assms(3) by (simp add: placeholderMatches_def)
    then show False using assms(2) by (simp add: bearerToken_def trim_prefix_def cut_prefix_def has_prefix_def split: if_splits)
  qed
  then have "map_get h' (canonical_key (placeholderHeader svc)) \<noteq> None" by (auto simp: hdr_get_def split: option.splits)
  then have "hdr_get h' (placeholderHeader svc) = hdr_get h (placeholderHeader svc)"
    using assms(1) unfolding only_removes_def hdr_get_def by metis
  then show ?thesis using assms(3) by (simp add: placeholderMatches_def)
qed

text \<open>The handlers before injection, and the gates among them.\<close>

lemma mitmPipeline_eq:
  assumes "goproxy_ok gp"
  shows "mitmPipeline gp ev secret = runHandlers
    ([proxyAuthHandler secret, guardOn chaperoneCondition (requestIDHandler ev), guardOn chaperoneCondition dropHandler,
      guardOn chaperoneCondition (securityStripAuthHandler ev), guardOn chaperoneCondition policyHandler,
      guardOn chaperoneCondition stripHandler, guardOn chaperoneCondition (recordRequestHandler ev)] @
     [guardOn chaperoneCondition (authHandler ev)])"
  unfolding mitmPipeline_def mitmHandlers_def goproxy_ok_eq [OF assms] by simp

lemma same_core_lookup:
  "same_core fl fl' \<Longrightarrow> reg_lookup (rq_host (fl_req fl')) (px_registry (fl_px fl')) =
     reg_lookup (rq_host (fl_req fl)) (px_registry (fl_px fl))"
  by (simp add: same_core_def)

lemma same_core_cond: "same_core fl fl' \<Longrightarrow> chaperoneCondition fl' = chaperoneCondition fl"
  by (simp add: same_core_def chaperoneCondition_def)

lemma chaperoneCondition_iff:
  "chaperoneCondition fl \<longleftrightarrow> (\<exists>svc. reg_lookup (rq_host (fl_req fl)) (px_registry (fl_px fl)) = Inr svc)"
  by (auto simp: chaperoneCondition_def shouldMITM_def split: sum.splits)

definition authenticated :: "flow \<Rightarrow> bool" where
  "authenticated fl \<longleftrightarrow> (case fl_meta fl of Some m \<Rightarrow> md_proxyAuthenticated m | None \<Rightarrow> False)"

definition token_strategies :: "auth_registry option \<Rightarrow> bool" where
  "token_strategies auths \<longleftrightarrow> (case auths of None \<Rightarrow> True
     | Some a \<Rightarrow> list_all (\<lambda>(_, st). is_token (strategyTarget st)) a)"

definition frontHandlers :: "env \<Rightarrow> string \<Rightarrow> handler list" where
  "frontHandlers ev secret =
     [proxyAuthHandler secret, guardOn chaperoneCondition (requestIDHandler ev), guardOn chaperoneCondition dropHandler,
      guardOn chaperoneCondition (securityStripAuthHandler ev), guardOn chaperoneCondition policyHandler,
      guardOn chaperoneCondition stripHandler, guardOn chaperoneCondition (recordRequestHandler ev)]"

lemma front_quiet: "list_all quiet (frontHandlers ev secret)"
  by (simp add: frontHandlers_def quiet_handlers quiet_guard)

lemma mitmPipeline_split:
  assumes "goproxy_ok gp"
  shows "mitmPipeline gp ev secret fl = (case runHandlers (frontHandlers ev secret) fl of
     (fl1, Some resp) \<Rightarrow> (fl1, Some resp) | (fl1, None) \<Rightarrow> guardOn chaperoneCondition (authHandler ev) fl1)"
  unfolding mitmPipeline_eq [OF assms] runHandlers_append frontHandlers_def [symmetric]
  by (auto split: option.splits prod.splits)

lemma front_gates:
  assumes "runHandlers (frontHandlers ev secret) fl = (fl1, None)" "canonical_headers (fl_headers fl)"
    and svc: "reg_lookup (rq_host (fl_req fl)) (px_registry (fl_px fl)) = Inr svc"
  shows "authenticated fl \<or> validateProxyAuth (fl_req fl) secret"
    and "svcPolicy svc = Some p \<Longrightarrow>
      firstDrop (dropPatterns p) (dropHostname (rq_host (fl_req fl))) (rq_path (fl_req fl)) = None"
    and "permits (svcPolicy svc) (rq_method (fl_req fl)) (rq_path (fl_req fl)) (rq_contentLength (fl_req fl))"
proof -
  note quiets = quiet_handlers quiet_guard
  have cond: "chaperoneCondition fl" using svc by (auto simp: chaperoneCondition_iff)
  show "authenticated fl \<or> validateProxyAuth (fl_req fl) secret"
  proof (cases "proxyAuthHandler secret fl")
    case (Pair fl2 rep)
    then have "rep = None" using assms(1) by (auto simp: frontHandlers_def split: option.splits)
    then show ?thesis using Pair by (auto simp: proxyAuthHandler_def authenticated_def split: if_splits)
  qed
  let ?pre = "[proxyAuthHandler secret, guardOn chaperoneCondition (requestIDHandler ev)]"
  let ?post = "[guardOn chaperoneCondition (securityStripAuthHandler ev), guardOn chaperoneCondition policyHandler,
      guardOn chaperoneCondition stripHandler, guardOn chaperoneCondition (recordRequestHandler ev)]"
  have "runHandlers (?pre @ guardOn chaperoneCondition dropHandler # ?post) fl = (fl1, None)"
    using assms(1) by (simp add: frontHandlers_def)
  from runHandlers_through [OF this] obtain a b where
    a: "runHandlers ?pre fl = (a, None)" and b: "guardOn chaperoneCondition dropHandler a = (b, None)" by blast
  have sa: "same_core fl a" using quiet_run_from(1) [OF a _ assms(2)] by (simp add: quiets)
  then have "dropHandler a = (b, None)" using b cond same_core_cond by (auto simp: guardOn_def)
  from dropHandler_passes [OF this] same_core_lookup [OF sa] sa svc
  show "svcPolicy svc = Some p \<Longrightarrow>
      firstDrop (dropPatterns p) (dropHostname (rq_host (fl_req fl))) (rq_path (fl_req fl)) = None"
    by (simp add: same_core_def)
  let ?pre = "[proxyAuthHandler secret, guardOn chaperoneCondition (requestIDHandler ev),
      guardOn chaperoneCondition dropHandler, guardOn chaperoneCondition (securityStripAuthHandler ev)]"
  let ?post = "[guardOn chaperoneCondition stripHandler, guardOn chaperoneCondition (recordRequestHandler ev)]"
  have "runHandlers (?pre @ guardOn chaperoneCondition policyHandler # ?post) fl = (fl1, None)"
    using assms(1) by (simp add: frontHandlers_def)
  from runHandlers_through [OF this] obtain c d where
    c: "runHandlers ?pre fl = (c, None)" and d: "guardOn chaperoneCondition policyHandler c = (d, None)" by blast
  have sc: "same_core fl c" using quiet_run_from(1) [OF c _ assms(2)] by (simp add: quiets)
  then have "policyHandler c = (d, None)" using d cond same_core_cond by (auto simp: guardOn_def)
  from policyHandler_passes [OF this] same_core_lookup [OF sc] sc svc
  show "permits (svcPolicy svc) (rq_method (fl_req fl)) (rq_path (fl_req fl)) (rq_contentLength (fl_req fl))"
    by (simp add: same_core_def)
qed

lemma injected_header:
  assumes "canonical_headers h" "token_strategies (Some auths)" "authGet ref auths = Inr st"
    "strategyApply st v h = (None, h')"
  shows "map_get h' k = (if k = canonical_key (strategyTarget st) then Some [strategyRender st v]
     else if to_lower k = to_lower (strategyTarget st) then None else map_get h k)"
proof -
  have "is_token (strategyTarget st)"
    using assms(2,3) by (auto simp: token_strategies_def authGet_def list_all_iff split: option.splits dest!: map_of_SomeD)
  then show ?thesis
    using any_strategy.success_sets [OF canonical_token_headers [OF assms(1)] _ assms(4)] by blast
qed

text \<open>C2: A credential is added to a request only past every gate. If the headers that leave the
  handlers hold anything the client did not send, then no handler answered the request, it came over
  an authenticated tunnel or with the proxy's secret, its host is registered, no drop rule matched,
  the policy permits it, the placeholder (if the service has one) was presented, and the only thing
  added is the service's own secret, rendered by the service's own strategy under that strategy's
  header.\<close>

theorem credential_only_past_every_gate:
  assumes "goproxy_ok gp" "canonical_headers (fl_headers fl)" "token_strategies (px_auths (fl_px fl))"
    and "mitmPipeline gp ev secret fl = (fl', rep)"
    and "map_get (fl_headers fl') k \<notin> {None, map_get (fl_headers fl) k}"
  shows "rep = None \<and> (authenticated fl \<or> validateProxyAuth (fl_req fl) secret) \<and>
    (\<exists>svc secrets auths st v secrets'.
       reg_lookup (rq_host (fl_req fl)) (px_registry (fl_px fl)) = Inr svc \<and>
       (case svcPolicy svc of None \<Rightarrow> True | Some p \<Rightarrow>
          firstDrop (dropPatterns p) (dropHostname (rq_host (fl_req fl))) (rq_path (fl_req fl)) = None) \<and>
       permits (svcPolicy svc) (rq_method (fl_req fl)) (rq_path (fl_req fl)) (rq_contentLength (fl_req fl)) \<and>
       (placeholder svc = '''' \<or> placeholderMatches svc (fl_headers fl)) \<and>
       px_secrets (fl_px fl) = Some secrets \<and> px_auths (fl_px fl) = Some auths \<and>
       secretFetch (ev_os ev) (rq_ctxErr (fl_req fl)) (credentialRef svc) secrets = (Inr v, secrets') \<and>
       authGet (authStrategyRef svc) auths = Inr st \<and>
       k = canonical_key (strategyTarget st) \<and> map_get (fl_headers fl') k = Some [strategyRender st v])"
proof -
  obtain fl1 rep1 where front: "runHandlers (frontHandlers ev secret) fl = (fl1, rep1)" by fastforce
  note q = quiet_run_from [OF front front_quiet assms(2)]
  have rep1: "rep1 = None"
  proof (cases rep1)
    case (Some x)
    then have "fl' = fl1" using assms(4) front by (simp add: mitmPipeline_split [OF assms(1)])
    then show ?thesis using q(4) assms(5) by (auto simp: only_removes_def)
  qed simp
  have auth: "guardOn chaperoneCondition (authHandler ev) fl1 = (fl', rep)"
    using assms(4) front rep1 by (simp add: mitmPipeline_split [OF assms(1)])
  have differ: "map_get (fl_headers fl') k \<noteq> map_get (fl_headers fl1) k" "map_get (fl_headers fl') k \<noteq> None"
    using q(4) [unfolded only_removes_def, rule_format, of k] assms(5) by auto
  then have "chaperoneCondition fl1" using auth by (auto simp: guardOn_def split: if_splits)
  then have auth: "authHandler ev fl1 = (fl', rep)" using auth by (simp add: guardOn_def)
  from differ have "fl_headers fl' \<noteq> fl_headers fl1" by auto
  from authHandler_change [OF auth this] obtain svc secrets auths st v secrets' where i:
    "reg_lookup (rq_host (fl_req fl1)) (px_registry (fl_px fl1)) = Inr svc"
    "px_secrets (fl_px fl1) = Some secrets" "px_auths (fl_px fl1) = Some auths"
    "placeholder svc \<noteq> '''' \<longrightarrow> placeholderMatches svc (fl_headers fl1)"
    "secretFetch (ev_os ev) (rq_ctxErr (fl_req fl1)) (credentialRef svc) secrets = (Inr v, secrets')"
    "authGet (authStrategyRef svc) auths = Inr st" "strategyApply st v (fl_headers fl1) = (None, fl_headers fl')"
    "rep = None" by metis
  have svc: "reg_lookup (rq_host (fl_req fl)) (px_registry (fl_px fl)) = Inr svc"
    using i(1) same_core_lookup [OF q(1)] by simp
  have auths: "px_auths (fl_px fl) = Some auths" "px_secrets (fl_px fl) = Some secrets"
    "rq_ctxErr (fl_req fl1) = rq_ctxErr (fl_req fl)"
    using i(2,3) q(1,2) by (auto simp: same_core_def)
  have k: "k = canonical_key (strategyTarget st) \<and> map_get (fl_headers fl') k = Some [strategyRender st v]"
    using injected_header [OF q(3) _ i(6,7), of k] assms(3) auths(1) differ by (simp split: if_splits)
  have ph: "placeholder svc = '''' \<or> placeholderMatches svc (fl_headers fl)"
    using i(4) placeholderMatches_back [OF q(4)] by blast
  note gates = front_gates [OF front [unfolded rep1] assms(2) svc]
  have drop: "case svcPolicy svc of None \<Rightarrow> True | Some p \<Rightarrow>
      firstDrop (dropPatterns p) (dropHostname (rq_host (fl_req fl))) (rq_path (fl_req fl)) = None"
    using gates(2) by (simp split: option.splits)
  show ?thesis using i(5,6,8) [unfolded auths(3)] svc auths k ph gates(1,3) drop by blast
qed

subsection \<open>What the handlers before injection do\<close>

definition arrivalHeaders :: "flow \<Rightarrow> headers" where
  "arrivalHeaders fl = (if authenticated fl then fl_headers fl else hdr_del ''Proxy-Authorization'' (fl_headers fl))"

definition policyStrips :: "service \<Rightarrow> string list" where
  "policyStrips svc = (case svcPolicy svc of None \<Rightarrow> [] | Some p \<Rightarrow> stripHeaders p)"

definition notDropped :: "service \<Rightarrow> string \<Rightarrow> string \<Rightarrow> bool" where
  "notDropped svc host p \<longleftrightarrow> (case svcPolicy svc of None \<Rightarrow> True
     | Some policy \<Rightarrow> firstDrop (dropPatterns policy) (dropHostname host) p = None)"

text \<open>The headers a service's requests have when the injection handler sees them.\<close>

definition cleanedHeader :: "service \<Rightarrow> headers \<Rightarrow> string \<Rightarrow> string list option" where
  "cleanedHeader svc h k =
     (if to_lower k \<in> to_lower ` set (policyStrips svc) then None
      else if to_lower k \<in> set knownAuthHeaders \<and> \<not> keepsHeader svc h k then None
      else map_get h k)"

lemma proxyAuth_passes:
  "proxyAuthHandler secret fl = (fl', None) \<longleftrightarrow>
     (authenticated fl \<or> validateProxyAuth (fl_req fl) secret) \<and> fl' = fl_header (arrivalHeaders fl) fl"
  by (auto simp: proxyAuthHandler_def authenticated_def arrivalHeaders_def fl_header_def)

lemma arrival_canonical: "canonical_headers (fl_headers fl) \<Longrightarrow> canonical_headers (arrivalHeaders fl)"
  by (simp add: arrivalHeaders_def hdr_del_def canonical_headers_del)

lemma requestID_passes: "\<exists>fl'. requestIDHandler ev fl = (fl', None) \<and> fl_headers fl' = fl_headers fl"
  by (auto simp: requestIDHandler_def Let_def split: prod.splits)

lemma dropHandler_eq:
  assumes "reg_lookup (rq_host (fl_req fl)) (px_registry (fl_px fl)) = Inr svc"
  shows "dropHandler fl = (fl', None) \<longleftrightarrow> fl' = fl \<and> notDropped svc (rq_host (fl_req fl)) (rq_path (fl_req fl))"
  using assms by (auto simp: dropHandler_def notDropped_def Let_def split: option.splits)

lemma policyHandler_eq:
  assumes "reg_lookup (rq_host (fl_req fl)) (px_registry (fl_px fl)) = Inr svc"
  shows "policyHandler fl = (fl', None) \<longleftrightarrow> fl' = fl \<and>
    permits (svcPolicy svc) (rq_method (fl_req fl)) (rq_path (fl_req fl)) (rq_contentLength (fl_req fl))"
proof (cases "svcPolicy svc")
  case None
  then show ?thesis
    using assms by (auto simp: policyHandler_def permits_def checkMethod_def checkPath_def checkBodySize_def Let_def)
next
  case (Some p)
  then show ?thesis
    using assms
    by (cases "checkMethod (rq_method (fl_req fl)) (Some p)"; cases "checkPath (rq_path (fl_req fl)) (Some p)";
        cases "checkBodySize (rq_contentLength (fl_req fl)) (Some p)")
      (auto simp: policyHandler_def policyDenied_def permits_def Let_def)
qed

lemma securityStrip_passes:
  assumes "reg_lookup (rq_host (fl_req fl)) (px_registry (fl_px fl)) = Inr svc"
  shows "\<exists>fl'. securityStripAuthHandler ev fl = (fl', None) \<and>
    fl_headers fl' = fst (stripCredentials svc (fl_headers fl))"
  using assms by (auto simp: securityStripAuthHandler_def Let_def split: prod.splits)

lemma stripHandler_passes:
  assumes "reg_lookup (rq_host (fl_req fl)) (px_registry (fl_px fl)) = Inr svc"
  shows "stripHandler fl = (fl_header (stripAll (policyStrips svc) (fl_headers fl)) fl, None)"
  using assms
  by (auto simp: stripHandler_def Let_def policyStrips_def stripAll_def fl_header_def split: option.splits)

text \<open>The whole front, in one statement: it lets a request of a registered host through exactly when
  the gates do, and then with these headers, recorded as they are.\<close>

lemma front_spec:
  assumes "canonical_headers (fl_headers fl)"
    and svc: "reg_lookup (rq_host (fl_req fl)) (px_registry (fl_px fl)) = Inr svc"
    and auth: "authenticated fl \<or> validateProxyAuth (fl_req fl) secret"
    and drop: "notDropped svc (rq_host (fl_req fl)) (rq_path (fl_req fl))"
    and permits: "permits (svcPolicy svc) (rq_method (fl_req fl)) (rq_path (fl_req fl)) (rq_contentLength (fl_req fl))"
  obtains fl1 m where "runHandlers (frontHandlers ev secret) fl = (fl1, None)"
    "\<And>k. map_get (fl_headers fl1) k = cleanedHeader svc (arrivalHeaders fl) k"
    "fl_meta fl1 = Some m" "md_request m = Some (fl_req fl1)"
proof -
  have on: "same_core fl x \<Longrightarrow> guardOn chaperoneCondition h x = h x" for x h
    using svc same_core_cond by (auto simp: guardOn_def chaperoneCondition_iff)
  have core: "h x = (y, None) \<Longrightarrow> quiet h \<Longrightarrow> same_core fl x \<Longrightarrow> canonical_headers (fl_headers x) \<Longrightarrow>
      same_core fl y \<and> canonical_headers (fl_headers y)" for h x y
    using quietD [where h = h and fl = x and fl' = y and rep = None] same_core_trans [of fl x y] by blast
  define a where "a = fl_header (arrivalHeaders fl) fl"
  have a: "proxyAuthHandler secret fl = (a, None)" using auth by (simp add: a_def proxyAuth_passes)
  note ca = core [OF a quiet_proxyAuth same_core_refl assms(1)]
  obtain b where b: "requestIDHandler ev a = (b, None)" "fl_headers b = fl_headers a" using requestID_passes by blast
  note cb = core [OF b(1) quiet_requestID] ca
  have look: "same_core fl x \<Longrightarrow> reg_lookup (rq_host (fl_req x)) (px_registry (fl_px x)) = Inr svc" for x
    using same_core_lookup svc by simp
  have c: "dropHandler b = (b, None)"
    using cb drop look [of b] by (simp add: dropHandler_eq same_core_def)
  obtain d where d: "securityStripAuthHandler ev b = (d, None)" "fl_headers d = fst (stripCredentials svc (fl_headers b))"
    using securityStrip_passes [OF look, of b] cb by blast
  note cd = core [OF d(1) quiet_securityStrip] cb
  have e: "policyHandler d = (d, None)"
    using cd permits look [of d] by (simp add: policyHandler_eq same_core_def)
  define f where "f = fl_header (stripAll (policyStrips svc) (fl_headers d)) d"
  have f: "stripHandler d = (f, None)" using stripHandler_passes [OF look, of d] cd by (simp add: f_def)
  note cf = core [OF f quiet_strip] cd
  obtain fl1 where g: "recordRequestHandler ev f = (fl1, None)" by (simp add: recordRequestHandler_def)
  have run: "runHandlers (frontHandlers ev secret) fl = (fl1, None)"
    using a b c d e f g ca cb cd cf by (simp add: frontHandlers_def on)
  have headers: "map_get (fl_headers fl1) k = cleanedHeader svc (arrivalHeaders fl) k" for k
  proof -
    obtain h ss where s: "stripCredentials svc (fl_headers b) = (h, ss)" by fastforce
    have "fl_headers fl1 = stripAll (policyStrips svc) h"
      using g f_def d(2) s by (auto simp: recordRequestHandler_def)
    moreover have "canonical_headers (fl_headers b)" using cb by blast
    ultimately show ?thesis
      using stripCredentials_get [OF _ s] stripAll_get [of h "policyStrips svc" k] b(2)
      by (simp add: cleanedHeader_def a_def)
  qed
  obtain m where m: "fl_meta fl1 = Some m" "md_request m = Some (fl_req fl1)"
    using g by (auto simp: recordRequestHandler_def split: option.splits)
  show ?thesis using that [OF run headers m] .
qed

lemma authHandler_meta: "authHandler ev fl = (fl', rep) \<Longrightarrow> fl_meta fl' = fl_meta fl"
  by (auto simp: authHandler_def injectCredential_def authFailed_def Let_def
      split: sum.splits option.splits if_splits prod.splits)

lemma strategyApply_ok:
  "v \<noteq> '''' \<Longrightarrow> strategyTarget st \<noteq> '''' \<Longrightarrow> \<exists>h'. strategyApply st v h = (None, h')"
  by (cases st) (auto simp: strategyApply_def strategyTarget_def bearerApply_def headerApply_def)

lemma authHandler_injects:
  assumes "reg_lookup (rq_host (fl_req fl)) (px_registry (fl_px fl)) = Inr svc"
    "px_secrets (fl_px fl) = Some secrets" "px_auths (fl_px fl) = Some auths"
    "placeholder svc = '''' \<or> placeholderMatches svc (fl_headers fl)"
    "secretFetch (ev_os ev) (rq_ctxErr (fl_req fl)) (credentialRef svc) secrets = (Inr v, secrets')"
    "authGet (authStrategyRef svc) auths = Inr st" "strategyApply st v (fl_headers fl) = (None, h)"
  shows "\<exists>fl'. authHandler ev fl = (fl', None) \<and> fl_headers fl' = h"
  using assms by (auto simp: authHandler_def injectCredential_def Let_def)

text \<open>Without the proxy's secret nothing happens: a request that comes neither over an
  authenticated tunnel nor with the secret is answered with the 407 challenge by the first handler,
  and leaves the proxy's state, its audit trail, its secrets and the request untouched.\<close>

theorem unauthenticated_request_is_challenged:
  assumes "goproxy_ok gp" "\<not> authenticated fl" "\<not> validateProxyAuth (fl_req fl) secret"
  shows "mitmPipeline gp ev secret fl = (fl, Some (Challenge proxyAuthChallenge)) \<and>
    reply_status (Challenge proxyAuthChallenge) = 407"
proof -
  have "proxyAuthHandler secret fl = (fl, Some (Challenge proxyAuthChallenge))"
    using assms(2,3) by (auto simp: proxyAuthHandler_def authenticated_def split: option.splits)
  then show ?thesis
    by (simp add: mitmPipeline_split [OF assms(1)] frontHandlers_def reply_status_def proxyAuthChallenge_def)
qed

definition demo_px :: px where
  "demo_px = \<lparr>px_registry = [(''*.example.com'', demo_service)],
     px_secrets = Some \<lparr>sr_providers = builtinProviders, sr_cache = [(''env:KEY'', ''sk-12'')]\<rparr>,
     px_auths = Some [(''bearer'', BearerStrategy)],
     px_audit = \<lparr>al_enabled = True, al_writer = (\<lambda>_. None), al_attempts = 0, al_entries = []\<rparr>,
     px_warned = [], px_colorIndex = 0\<rparr>"

definition demo_tunnel :: metadata where
  "demo_tunnel = blank_metadata\<lparr>md_requestID := ''req-0'', md_color := (85, 255, 255), md_proxyAuthenticated := True\<rparr>"

definition demo_flow :: flow where
  "demo_flow = \<lparr>fl_px = demo_px, fl_meta = Some demo_tunnel,
     fl_req = demo_request\<lparr>rq_header := [(''Authorization'', [''Bearer mine'']), (''Accept'', [''*/*''])]\<rparr>\<rparr>"

theorem unauthenticated_request_is_challenged_witness:
  "mitmPipeline demo_goproxy demo_env ''s3cret'' (demo_flow\<lparr>fl_meta := None\<rparr>) =
     (demo_flow\<lparr>fl_meta := None\<rparr>, Some (Challenge proxyAuthChallenge))"
proof -
  have "\<not> authenticated (demo_flow\<lparr>fl_meta := None\<rparr>)"
    "\<not> validateProxyAuth (fl_req (demo_flow\<lparr>fl_meta := None\<rparr>)) ''s3cret''" by code_simp+
  from unauthenticated_request_is_challenged [OF demo_goproxy_ok this] show ?thesis by blast
qed


lemma demo_flow_facts:
  "canonical_headers (fl_headers demo_flow)" "token_strategies (px_auths (fl_px demo_flow))"
  "reg_lookup (rq_host (fl_req demo_flow)) (px_registry (fl_px demo_flow)) = Inr demo_service"
  "authenticated demo_flow" "notDropped demo_service (rq_host (fl_req demo_flow)) (rq_path (fl_req demo_flow))"
  "permits (svcPolicy demo_service) (rq_method (fl_req demo_flow)) (rq_path (fl_req demo_flow))
     (rq_contentLength (fl_req demo_flow))"
  "placeholder demo_service = ''''" "authGet (authStrategyRef demo_service) [(''bearer'', BearerStrategy)] = Inr BearerStrategy"
  "secretFetch (ev_os demo_env) (rq_ctxErr (fl_req demo_flow)) (credentialRef demo_service)
     \<lparr>sr_providers = builtinProviders, sr_cache = [(''env:KEY'', ''sk-12'')]\<rparr> =
   (Inr ''sk-12'', \<lparr>sr_providers = builtinProviders, sr_cache = [(''env:KEY'', ''sk-12'')]\<rparr>)"
  by code_simp+


theorem credential_only_past_every_gate_witness:
  "\<exists>fl'. mitmPipeline demo_goproxy demo_env ''s3cret'' demo_flow = (fl', None) \<and>
     map_get (fl_headers fl') ''Authorization'' = Some [''Bearer sk-12'']"
proof -
  obtain fl' rep where p: "mitmPipeline demo_goproxy demo_env ''s3cret'' demo_flow = (fl', rep)" by fastforce
  have "map_get (fl_headers (fst (mitmPipeline demo_goproxy demo_env ''s3cret'' demo_flow))) ''Authorization'' =
      Some [''Bearer sk-12'']" by code_simp
  moreover have "map_get (fl_headers demo_flow) ''Authorization'' = Some [''Bearer mine'']" by code_simp
  ultimately have g: "map_get (fl_headers fl') ''Authorization'' = Some [''Bearer sk-12'']"
    "map_get (fl_headers fl') ''Authorization'' \<notin> {None, map_get (fl_headers demo_flow) ''Authorization''}"
    using p by auto
  from credential_only_past_every_gate [OF demo_goproxy_ok demo_flow_facts(1,2) p g(2)] have "rep = None" by blast
  then show ?thesis using p g(1) by blast
qed



text \<open>A request is recorded as the client sent it, without its proxy credential and the headers the
  handlers stripped: the copy kept for the recording is made before the injection, so the injected
  secret is not in it.\<close>

theorem recording_precedes_injection:
  assumes "goproxy_ok gp" "canonical_headers (fl_headers fl)"
    and svc: "reg_lookup (rq_host (fl_req fl)) (px_registry (fl_px fl)) = Inr svc"
    and "mitmPipeline gp ev secret fl = (fl', None)"
  shows "\<exists>m r. fl_meta fl' = Some m \<and> md_request m = Some r \<and> rq_url r = rq_url (fl_req fl) \<and>
    only_removes (fl_headers fl) (rq_header r)"
proof -
  obtain fl1 rep1 where front: "runHandlers (frontHandlers ev secret) fl = (fl1, rep1)" by fastforce
  then have rep1: "rep1 = None" using assms(4) by (cases rep1) (auto simp: mitmPipeline_split [OF assms(1)])
  note q = quiet_run_from [OF front front_quiet assms(2)]
  note gates = front_gates [OF front [unfolded rep1] assms(2) svc]
  have "notDropped svc (rq_host (fl_req fl)) (rq_path (fl_req fl))"
    using gates(2) by (auto simp: notDropped_def split: option.splits)
  from front_spec [OF assms(2) svc gates(1) this gates(3), of ev] front
  obtain m where m: "fl_meta fl1 = Some m" "md_request m = Some (fl_req fl1)" by force
  have "guardOn chaperoneCondition (authHandler ev) fl1 = (fl', None)"
    using assms(4) front rep1 by (simp add: mitmPipeline_split [OF assms(1)])
  then have "fl_meta fl' = fl_meta fl1" using authHandler_meta by (auto simp: guardOn_def split: if_splits)
  then show ?thesis using m q(1,4) by (auto simp: same_core_def)
qed

theorem recording_precedes_injection_witness:
  "\<exists>fl' m r. mitmPipeline demo_goproxy demo_env ''s3cret'' demo_flow = (fl', None) \<and> fl_meta fl' = Some m \<and>
     md_request m = Some r \<and> map_get (rq_header r) ''Authorization'' \<noteq> Some [''Bearer sk-12'']"
proof -
  obtain fl' rep where p0: "mitmPipeline demo_goproxy demo_env ''s3cret'' demo_flow = (fl', rep)" by fastforce
  have "snd (mitmPipeline demo_goproxy demo_env ''s3cret'' demo_flow) = None" by code_simp
  with p0 have p: "mitmPipeline demo_goproxy demo_env ''s3cret'' demo_flow = (fl', None)" by simp
  from recording_precedes_injection [OF demo_goproxy_ok demo_flow_facts(1,3) p] obtain m r where
    r: "fl_meta fl' = Some m" "md_request m = Some r" "only_removes (fl_headers demo_flow) (rq_header r)" by blast
  have "map_get (fl_headers demo_flow) ''Authorization'' = Some [''Bearer mine'']" by code_simp
  then have "map_get (rq_header r) ''Authorization'' \<noteq> Some [''Bearer sk-12'']"
    using r(3) [unfolded only_removes_def, rule_format, of "''Authorization''"] by auto
  then show ?thesis using p r by blast
qed

lemma requestID_meta:
  assumes "fl_meta fl = Some m"
  shows "\<exists>fl1 m1. requestIDHandler ev fl = (fl1, None) \<and> fl_meta fl1 = Some m1 \<and> md_request m1 = md_request m \<and>
    md_startTime m1 = md_startTime m \<and> rq_host (fl_req fl1) = rq_host (fl_req fl) \<and>
    rq_path (fl_req fl1) = rq_path (fl_req fl) \<and> px_registry (fl_px fl1) = px_registry (fl_px fl)"
  using assms by (auto simp: requestIDHandler_def Let_def split: prod.splits)

lemma dropHandler_drops:
  assumes "reg_lookup (rq_host (fl_req fl)) (px_registry (fl_px fl)) = Inr svc"
    and "\<not> notDropped svc (rq_host (fl_req fl)) (rq_path (fl_req fl))"
  shows "\<exists>fl'. dropHandler fl = (fl', Some (NewResponse 403 ''Request blocked by drop policy'')) \<and>
    fl_meta fl' = fl_meta fl \<and> fl_req fl' = fl_req fl"
proof -
  obtain p where p: "svcPolicy svc = Some p" using assms(2) by (auto simp: notDropped_def split: option.splits)
  obtain d where d: "firstDrop (dropPatterns p) (dropHostname (rq_host (fl_req fl))) (rq_path (fl_req fl)) = Some d"
    using assms(2) p by (auto simp: notDropped_def)
  then have "dropPatterns p \<noteq> []" by auto
  then show ?thesis using assms(1) p d by (cases d) (simp add: dropHandler_def Let_def)
qed

text \<open>The requests of one tunnel share their metadata, so the recording misattributes them: when a
  later request is dropped, the proxy's 403 finds the metadata of the request before it, and a
  response handler that sees that 403 records it as the answer to the earlier request, with the
  earlier request's URL, headers and start time.\<close>

theorem dropped_request_is_recorded_as_its_predecessor:
  assumes "goproxy_ok gp" "authenticated fl"
    and svc: "reg_lookup (rq_host (fl_req fl)) (px_registry (fl_px fl)) = Inr svc"
    and "\<not> notDropped svc (rq_host (fl_req fl)) (rq_path (fl_req fl))"
    and m: "fl_meta fl = Some m" "md_request m = Some r0" "md_startTime m = Some t0"
  shows "\<exists>fl'. mitmPipeline gp ev secret fl = (fl', Some (NewResponse 403 ''Request blocked by drop policy'')) \<and>
    (\<exists>e. recordResponseHandler zero sources end_time (Some resp) (fl_meta fl') rec = Finished (rec @ [e]) \<and>
       he_request e = recordRequest sources r0 \<and> he_started e = t0)"
proof -
  have a: "proxyAuthHandler secret fl = (fl, None)"
    using assms(2) by (auto simp: proxyAuthHandler_def authenticated_def)
  obtain fl1 m1 where b: "requestIDHandler ev fl = (fl1, None)" "fl_meta fl1 = Some m1" "md_request m1 = Some r0"
      "md_startTime m1 = Some t0" "rq_host (fl_req fl1) = rq_host (fl_req fl)" "rq_path (fl_req fl1) = rq_path (fl_req fl)"
      "px_registry (fl_px fl1) = px_registry (fl_px fl)"
    using requestID_meta [OF m(1), of ev] m(2,3) by auto
  obtain fl2 where c: "dropHandler fl1 = (fl2, Some (NewResponse 403 ''Request blocked by drop policy''))"
      "fl_meta fl2 = Some m1"
    using dropHandler_drops [of fl1 svc] assms(4) svc b(2,5,6,7) by auto
  have "chaperoneCondition fl" "chaperoneCondition fl1"
    using svc b(5,7) by (auto simp: chaperoneCondition_iff)
  then have "mitmPipeline gp ev secret fl = (fl2, Some (NewResponse 403 ''Request blocked by drop policy''))"
    using a b(1) c(1) by (simp add: mitmPipeline_split [OF assms(1)] frontHandlers_def guardOn_def)
  then show ?thesis
    using c(2) b(3,4) by (auto simp: recordResponseHandler_def recordResponse_def)
qed

definition demo_dropper :: service where
  "demo_dropper = demo_service\<lparr>svcPolicy := Some (empty_policy\<lparr>dropPatterns := [''*/v1/admin'']\<rparr>)\<rparr>"

definition demo_dropped_flow :: flow where
  "demo_dropped_flow = demo_flow\<lparr>
     fl_px := demo_px\<lparr>px_registry := [(''*.example.com'', demo_dropper)]\<rparr>,
     fl_meta := Some (demo_tunnel\<lparr>md_request := Some demo_request, md_startTime := Some 3\<rparr>),
     fl_req := demo_request\<lparr>rq_path := ''/v1/admin'', rq_url := ''https://api.example.com/v1/admin''\<rparr>\<rparr>"

theorem dropped_request_is_recorded_as_its_predecessor_witness:
  "\<exists>fl' e. mitmPipeline demo_goproxy demo_env ''s3cret'' demo_dropped_flow =
       (fl', Some (NewResponse 403 ''Request blocked by drop policy'')) \<and>
     recordResponseHandler 0 [] 9 (Some demo_response) (fl_meta fl') [] = Finished [e] \<and>
     hq_url (he_request e) = ''https://api.example.com/v1/chat''"
proof -
  have f: "authenticated demo_dropped_flow"
    "reg_lookup (rq_host (fl_req demo_dropped_flow)) (px_registry (fl_px demo_dropped_flow)) = Inr demo_dropper"
    "\<not> notDropped demo_dropper (rq_host (fl_req demo_dropped_flow)) (rq_path (fl_req demo_dropped_flow))"
    "fl_meta demo_dropped_flow = Some (demo_tunnel\<lparr>md_request := Some demo_request, md_startTime := Some 3\<rparr>)"
    by code_simp+
  have "hq_url (recordRequest [] demo_request) = ''https://api.example.com/v1/chat''" by code_simp
  then show ?thesis
    using dropped_request_is_recorded_as_its_predecessor
      [OF demo_goproxy_ok f, of demo_request 3 demo_env "''s3cret''" 0 "[]" 9 demo_response "[]"] by auto
qed

subsection \<open>Tunnels\<close>

text \<open>The life of one intercepted tunnel: it is opened by a CONNECT, and every request decrypted from it
  runs through the pipeline with the metadata the one before it left. Between two requests the
  server's shared state may change in any way.\<close>

inductive tunnel_state :: "goproxy \<Rightarrow> string \<Rightarrow> request \<Rightarrow> flow \<Rightarrow> bool" for gp secret r where
  opened: "fl_req fl = r \<Longrightarrow>
    proxyAuthConnectHandler secret (connectHandler ev) host fl = (fl', ConnectMitm, resp) \<Longrightarrow>
    tunnel_state gp secret r fl'"
| served: "tunnel_state gp secret r fl \<Longrightarrow>
    mitmPipeline gp ev secret \<lparr>fl_px = px', fl_meta = fl_meta fl, fl_req = r'\<rparr> = (fl', rep) \<Longrightarrow>
    tunnel_state gp secret r fl'"

inductive_cases tunnel_stateE: "tunnel_state gp secret r fl"

definition keeps_auth :: "handler \<Rightarrow> bool" where
  "keeps_auth h \<longleftrightarrow> (\<forall>fl fl' rep. h fl = (fl', rep) \<longrightarrow> authenticated fl' = authenticated fl)"

lemma keeps_authD: "keeps_auth h \<Longrightarrow> h fl = (fl', rep) \<Longrightarrow> authenticated fl' = authenticated fl"
  unfolding keeps_auth_def by blast

lemma keeps_auth_guard: "keeps_auth h \<Longrightarrow> keeps_auth (guardOn cond h)"
  by (auto simp: keeps_auth_def guardOn_def)

lemma keeps_auth_run: "list_all keeps_auth hs \<Longrightarrow> keeps_auth (runHandlers hs)"
proof (induction hs)
  case (Cons h hs)
  show ?case
    unfolding keeps_auth_def
  proof (intro allI impI)
    fix fl fl' rep
    assume r: "runHandlers (h # hs) fl = (fl', rep)"
    obtain fl1 rep1 where h: "h fl = (fl1, rep1)" by fastforce
    have 1: "authenticated fl1 = authenticated fl"
      using keeps_authD [where h = h and fl = fl and rep = rep1] Cons.prems h by simp
    show "authenticated fl' = authenticated fl"
    proof (cases rep1)
      case None
      then have "runHandlers hs fl1 = (fl', rep)" using r h by simp
      then show ?thesis using keeps_authD [where h = "runHandlers hs" and fl = fl1 and rep = rep] Cons 1 by simp
    next
      case (Some x)
      then show ?thesis using 1 r h by simp
    qed
  qed
qed (simp add: keeps_auth_def)

lemma keeps_auth_meta: "(\<And>fl fl' rep. h fl = (fl', rep) \<Longrightarrow> fl_meta fl' = fl_meta fl) \<Longrightarrow> keeps_auth h"
  by (simp add: keeps_auth_def authenticated_def)

lemma keeps_auth_handlers:
  "keeps_auth (proxyAuthHandler secret)" "keeps_auth dropHandler" "keeps_auth policyHandler"
  "keeps_auth stripHandler" "keeps_auth (authHandler ev)" "keeps_auth (requestIDHandler ev)"
  "keeps_auth (recordRequestHandler ev)"
  subgoal by (rule keeps_auth_meta) (auto simp: proxyAuthHandler_def split: if_splits)
  subgoal by (rule keeps_auth_meta)
    (auto simp: dropHandler_def Let_def split: sum.splits option.splits if_splits prod.splits)
  subgoal by (rule keeps_auth_meta)
    (auto simp: policyHandler_def policyDenied_def Let_def split: sum.splits option.splits)
  subgoal by (rule keeps_auth_meta)
    (auto simp: stripHandler_def Let_def split: sum.splits option.splits if_splits)
  subgoal by (rule keeps_auth_meta) (rule authHandler_meta)
  subgoal by (auto simp: keeps_auth_def authenticated_def requestIDHandler_def blank_metadata_def Let_def
      split: prod.splits option.splits)
  subgoal by (auto simp: keeps_auth_def authenticated_def recordRequestHandler_def blank_metadata_def
      split: option.splits)
  done

lemma keeps_auth_securityStrip: "keeps_auth (securityStripAuthHandler ev)"
  unfolding keeps_auth_def
proof (intro allI impI)
  fix fl fl' rep
  assume "securityStripAuthHandler ev fl = (fl', rep)"
  then show "authenticated fl' = authenticated fl"
    by (cases "fl_meta fl")
      (auto simp: securityStripAuthHandler_def authenticated_def blank_metadata_def Let_def
        split: sum.splits if_splits prod.splits)
qed

lemma mitmPipeline_keeps_auth:
  assumes "goproxy_ok gp"
  shows "keeps_auth (mitmPipeline gp ev secret)"
  unfolding mitmPipeline_eq [OF assms]
  by (rule keeps_auth_run) (simp add: keeps_auth_handlers keeps_auth_securityStrip keeps_auth_guard)

text \<open>C11: The tunnel marker is proof of authentication: through the whole life of an intercepted tunnel
  its metadata says authenticated, and it exists only if its CONNECT presented the proxy's secret;
  a CONNECT without it is rejected with the 407 challenge. No request, in a tunnel or not, changes
  the marker.\<close>

theorem tunnel_marker_is_proof:
  assumes "goproxy_ok gp" "tunnel_state gp secret r fl"
  shows "validateProxyAuth r secret \<and> authenticated fl \<and>
    (mitmPipeline gp ev secret fl0 = (fl0', rep) \<longrightarrow> authenticated fl0' = authenticated fl0) \<and>
    (\<not> validateProxyAuth (fl_req fl0) secret \<longrightarrow> proxyAuthConnectHandler secret conn host fl0 =
       (fl0, RejectConnect, Some (Challenge proxyAuthChallenge)))"
proof -
  have "validateProxyAuth r secret \<and> authenticated fl"
    using assms(2)
  proof (induction rule: tunnel_state.induct)
    case (opened fl ev host fl' resp)
    then show ?case
      by (auto simp: proxyAuthConnectHandler_def authenticated_def split: if_splits prod.splits option.splits)
  next
    case (served fl ev px' r' fl' rep)
    then show ?case
      using mitmPipeline_keeps_auth [OF assms(1), of ev secret] unfolding keeps_auth_def
      by (metis authenticated_def flow.select_convs(2))
  qed
  then show ?thesis
    using mitmPipeline_keeps_auth [OF assms(1), of ev secret]
    by (auto simp: keeps_auth_def proxyAuthConnectHandler_def)
qed

definition demo_connect :: flow where
  "demo_connect = \<lparr>fl_px = demo_px, fl_meta = None, fl_req = demo_request\<lparr>rq_method := ''CONNECT'',
     rq_header := [(''Proxy-Authorization'', [''Basic '' @ b64_encode (''chaperone'' @ CHR '':'' # ''s3cret'')])]\<rparr>\<rparr>"

theorem tunnel_marker_is_proof_witness:
  "\<exists>fl. tunnel_state demo_goproxy ''s3cret'' (fl_req demo_connect) fl \<and> authenticated fl \<and>
     validateProxyAuth (fl_req demo_connect) ''s3cret''"
proof -
  obtain fl act resp where c:
    "proxyAuthConnectHandler ''s3cret'' (connectHandler demo_env) ''api.example.com:443'' demo_connect = (fl, act, resp)"
    by (rule prod_cases3)
  have "map_get (rq_header (fl_req demo_connect)) ''Proxy-Authorization'' =
      Some [''Basic '' @ b64_encode (''chaperone'' @ CHR '':'' # ''s3cret'')]"
    by (simp add: demo_connect_def del: b64_encode.simps)
  then have h: "hdr_get (rq_header (fl_req demo_connect)) ''Proxy-Authorization'' =
      ''Basic '' @ b64_encode (''chaperone'' @ CHR '':'' # ''s3cret'')"
    by (rule hdr_get_proxy)
  have "CHR '':'' \<notin> set ''chaperone''" by simp
  from validateProxyAuth_encoded [OF h this] have "validateProxyAuth (fl_req demo_connect) ''s3cret''" .
  moreover have "shouldMITM (Some (px_registry demo_px)) ''api.example.com:443''" by code_simp
  moreover have "fl_px demo_connect = demo_px" by (simp add: demo_connect_def del: b64_encode.simps)
  ultimately have "act = ConnectMitm"
    using c by (simp add: proxyAuthConnectHandler_def connectHandler_def Let_def split: prod.splits)
  then have "tunnel_state demo_goproxy ''s3cret'' (fl_req demo_connect) fl"
    using tunnel_state.opened [OF refl] c by blast
  with tunnel_marker_is_proof [OF demo_goproxy_ok this] show ?thesis by blast
qed

end
