(* ===== verification/Shutdown.thy ===== *)
theory Shutdown
  imports Errors
begin

text \<open>
  \<open>internal/shutdown/shutdown.go\<close>: the manager that runs the registered shutdown functions, last
  registered first, once, in a goroutine that is given a timeout and a grace period. A shutdown
  function is what it does to the program's state, the time it returns at, and how it ends: with
  an error or nil, with a panic, or never. Times are nanoseconds since the call of \<open>Shutdown\<close>.
\<close>

subsection \<open>The manager\<close>

datatype ending = Returns "go_error option" | Panics string | Hangs

text \<open>The arguments are the deadline of the context, the time of the call and the state.\<close>

type_synonym 's shutdown_fn = "nat \<Rightarrow> nat \<Rightarrow> 's \<Rightarrow> (nat \<times> ending) \<times> 's"

text \<open>\<open>errors.Join\<close> of the functions' errors, or the error of the context.\<close>

datatype shutdown_error = Joined "go_error list" | ContextError sentinel

record 's manager =
  sm_funcs :: "'s shutdown_fn list"
  sm_done :: bool
  sm_lastError :: "shutdown_error option"

definition newManager :: "'s manager" where
  "newManager = \<lparr>sm_funcs = [], sm_done = False, sm_lastError = None\<rparr>"

definition registerShutdown :: "'s shutdown_fn \<Rightarrow> 's manager \<Rightarrow> 's manager" where
  "registerShutdown fn m = m\<lparr>sm_funcs := sm_funcs m @ [fn]\<rparr>"

definition millisecond :: nat where
  "millisecond = 1000000"

text \<open>The timeout of the context, a \<open>time.Duration\<close>.\<close>

definition effectiveTimeout :: "int \<Rightarrow> nat" where
  "effectiveTimeout timeout = (if timeout \<le> 0 then millisecond else nat timeout)"

text \<open>One function under its \<open>recover\<close>: the errors it adds and when it returns, if it does.\<close>

definition runShutdownFn :: "nat \<Rightarrow> 's shutdown_fn \<Rightarrow> nat \<Rightarrow> 's \<Rightarrow> (nat \<times> go_error list) option \<times> 's" where
  "runShutdownFn deadline fn now st = (case fn deadline now st of
     ((finish, ending), st') \<Rightarrow> (case ending of
         Returns (Some err) \<Rightarrow> (Some (finish, [err]), st')
       | Returns None \<Rightarrow> (Some (finish, []), st')
       | Panics _ \<Rightarrow> (Some (finish, []), st')
       | Hangs \<Rightarrow> (None, st')))"

text \<open>The goroutine's loop over the functions, first one first.\<close>

fun runShutdownFns :: "nat \<Rightarrow> 's shutdown_fn list \<Rightarrow> nat \<Rightarrow> 's \<Rightarrow> (nat \<times> go_error list) option \<times> 's" where
  "runShutdownFns deadline [] now st = (Some (now, []), st)"
| "runShutdownFns deadline (fn # fns) now st = (case runShutdownFn deadline fn now st of
     (None, st') \<Rightarrow> (None, st')
   | (Some (finish, errs), st') \<Rightarrow> (case runShutdownFns deadline fns finish st' of
       (None, st'') \<Rightarrow> (None, st'')
     | (Some (finish', errs'), st'') \<Rightarrow> (Some (finish', errs @ errs'), st'')))"

definition joinErrors :: "go_error list \<Rightarrow> shutdown_error option" where
  "joinErrors errs = (if errs = [] then None else Some (Joined errs))"

text \<open>The two \<open>select\<close> statements: what they leave in \<open>lastError\<close>, and when. When a result and a
  timer are ready at the same instant Go takes either; \<open>pick\<close> says which.\<close>

definition awaitResult :: "bool \<Rightarrow> nat \<Rightarrow> (nat \<times> go_error list) option \<Rightarrow> nat \<times> shutdown_error option" where
  "awaitResult pick deadline res = (let grace = deadline + 10 * millisecond in
     case res of
       None \<Rightarrow> (grace, Some (ContextError ErrDeadlineExceeded))
     | Some (finish, errs) \<Rightarrow>
         if finish < deadline \<or> finish = deadline \<and> pick then (finish, joinErrors errs)
         else if finish < grace \<or> finish = grace \<and> pick
           then (finish, if errs \<noteq> [] then joinErrors errs else Some (ContextError ErrDeadlineExceeded))
         else (grace, Some (ContextError ErrDeadlineExceeded)))"

text \<open>\<open>Shutdown\<close>: the time it returns at, its error, the manager, and the state the goroutine leaves
  behind, which it may still be working on when \<open>Shutdown\<close> has returned.\<close>

definition shutdown ::
  "bool \<Rightarrow> int \<Rightarrow> 's manager \<Rightarrow> 's \<Rightarrow> (nat \<times> shutdown_error option) \<times> 's manager \<times> 's" where
  "shutdown pick timeout m st =
     (if sm_done m then ((0, sm_lastError m), m, st)
      else (let deadline = effectiveTimeout timeout in
        case runShutdownFns deadline (rev (sm_funcs m)) 0 st of
          (res, st') \<Rightarrow> (case awaitResult pick deadline res of
            (t, err) \<Rightarrow> ((t, err), m\<lparr>sm_done := True, sm_lastError := err\<rparr>, st'))))"

subsection \<open>What a run does\<close>

text \<open>A function that does its work and returns no later than a given time, whatever else it does.\<close>

definition ends_in_time :: "nat \<Rightarrow> nat \<Rightarrow> 's shutdown_fn \<Rightarrow> bool" where
  "ends_in_time deadline bound fn \<longleftrightarrow>
     (\<forall>now st. now \<le> fst (fst (fn deadline now st)) \<and> fst (fst (fn deadline now st)) \<le> now + bound \<and>
        snd (fst (fn deadline now st)) \<noteq> Hangs)"

lemma ends_in_timeD:
  assumes "ends_in_time deadline bound fn"
  shows "\<exists>finish errs. runShutdownFn deadline fn now st = (Some (finish, errs), snd (fn deadline now st)) \<and>
    finish \<le> now + bound \<and>
    errs = (case snd (fst (fn deadline now st)) of Returns (Some err) \<Rightarrow> [err] | _ \<Rightarrow> [])"
  using assms [unfolded ends_in_time_def, rule_format, of now st]
  by (auto simp: runShutdownFn_def split: prod.splits ending.splits option.splits)

lemma runShutdownFns_in_time:
  assumes "\<forall>fn \<in> set fns. ends_in_time deadline bound fn"
  shows "\<exists>finish errs. fst (runShutdownFns deadline fns now st) = Some (finish, errs) \<and>
    finish \<le> now + bound * length fns"
  using assms
proof (induction fns arbitrary: now st)
  case (Cons fn fns)
  obtain finish errs where one: "runShutdownFn deadline fn now st = (Some (finish, errs), snd (fn deadline now st))"
      "finish \<le> now + bound"
    using ends_in_timeD Cons.prems by (metis list.set_intros(1))
  obtain finish' errs' where
      "fst (runShutdownFns deadline fns finish (snd (fn deadline now st))) = Some (finish', errs')"
      "finish' \<le> finish + bound * length fns"
    using Cons.IH [of finish "snd (fn deadline now st)"] Cons.prems by auto
  then show ?case using one by (auto split: prod.splits)
qed simp

lemma awaitResult_bound: "fst (awaitResult pick deadline res) \<le> deadline + 10 * millisecond"
  by (auto simp: awaitResult_def Let_def split: option.splits)

text \<open>Functions whose run can be read off a trace: a name, the time it takes, its ending.\<close>

type_synonym job = "string \<times> nat \<times> ending"

definition tracedJob :: "job \<Rightarrow> string list shutdown_fn" where
  "tracedJob j deadline now trace = ((now + fst (snd j), snd (snd j)), trace @ [fst j])"

definition jobErrors :: "job \<Rightarrow> go_error list" where
  "jobErrors j = (case snd (snd j) of Returns (Some err) \<Rightarrow> [err] | _ \<Rightarrow> [])"

definition jobTime :: "job list \<Rightarrow> nat" where
  "jobTime js = sum_list (map (fst \<circ> snd) js)"

definition registerJobs :: "job list \<Rightarrow> string list manager" where
  "registerJobs js = foldl (\<lambda>m j. registerShutdown (tracedJob j) m) newManager js"

lemma registerJobs_manager: "registerJobs js = newManager\<lparr>sm_funcs := map tracedJob js\<rparr>"
proof -
  have "foldl (\<lambda>m j. registerShutdown (tracedJob j) m) m js = m\<lparr>sm_funcs := sm_funcs m @ map tracedJob js\<rparr>" for m
    by (induction js arbitrary: m) (simp_all add: registerShutdown_def)
  then show ?thesis by (simp add: registerJobs_def newManager_def)
qed

lemma jobTime_simps [simp]:
  "jobTime [] = 0" "jobTime (j # js) = fst (snd j) + jobTime js" "jobTime (rev js) = jobTime js"
  by (simp_all add: jobTime_def rev_map [symmetric])

lemma runShutdownFns_jobs:
  assumes "\<forall>j \<in> set js. snd (snd j) \<noteq> Hangs"
  shows "runShutdownFns deadline (map tracedJob js) now trace =
    (Some (now + jobTime js, concat (map jobErrors js)), trace @ map fst js)"
  using assms
proof (induction js arbitrary: now trace)
  case (Cons j js)
  have "runShutdownFn deadline (tracedJob j) now trace =
      (Some (now + fst (snd j), jobErrors j), trace @ [fst j])"
    using Cons.prems by (auto simp: runShutdownFn_def tracedJob_def jobErrors_def split: ending.splits option.splits)
  then show ?case using Cons.prems by (simp add: Cons.IH add.assoc)
qed simp

lemma runShutdownFns_hanging:
  assumes "\<forall>j \<in> set js. snd (snd j) \<noteq> Hangs" "snd (snd h) = Hangs"
  shows "runShutdownFns deadline (map tracedJob (js @ h # rest)) now trace =
    (None, trace @ map fst js @ [fst h])"
  using assms
proof (induction js arbitrary: now trace)
  case Nil
  then show ?case by (simp add: runShutdownFn_def tracedJob_def)
next
  case (Cons j js)
  have "runShutdownFn deadline (tracedJob j) now trace =
      (Some (now + fst (snd j), jobErrors j), trace @ [fst j])"
    using Cons.prems by (auto simp: runShutdownFn_def tracedJob_def jobErrors_def split: ending.splits option.splits)
  then show ?case using Cons by simp
qed

subsection \<open>Properties\<close>





text \<open>A shutdown function that panics is not reported. When no function returns an error, but
  any number of them panic, \<open>Shutdown\<close> returns nil in time, as if all had succeeded.\<close>

theorem panicking_shutdown_succeeds:
  assumes "\<forall>j \<in> set js. \<exists>msg. snd (snd j) \<in> {Panics msg, Returns None}"
    and "jobTime js < effectiveTimeout timeout"
  shows "fst (shutdown pick timeout (registerJobs js) trace) = (jobTime js, None)"
proof -
  have quiet: "concat (map jobErrors (rev js)) = []"
    using assms(1) by (auto simp: jobErrors_def split: ending.splits option.splits)
  have "\<forall>j \<in> set js. snd (snd j) \<noteq> Hangs" using assms(1) by force
  then have "runShutdownFns (effectiveTimeout timeout) (rev (map tracedJob js)) 0 trace =
      (Some (jobTime js, []), trace @ rev (map fst js))"
    using runShutdownFns_jobs [of "rev js" "effectiveTimeout timeout" 0 trace] quiet by (simp add: rev_map)
  then show ?thesis
    using assms(2)
    by (simp add: shutdown_def registerJobs_manager newManager_def awaitResult_def joinErrors_def Let_def)
qed

theorem panicking_shutdown_succeeds_witness:
  "fst (shutdown False (int millisecond) (registerJobs [(''close audit'', 1, Panics ''close of nil file'')]) []) = (1, None)"
  using panicking_shutdown_succeeds
    [of "[(''close audit'', 1, Panics ''close of nil file'')]" "int millisecond" False "[]"]
  by (simp add: effectiveTimeout_def millisecond_def)

end
