(* ===== verification/Cert_Cache.thy ===== *)
theory Cert_Cache
  imports Errors
begin

text \<open>
  \<open>internal/mitm/certcache.go\<close>: the certificate cache with its single-flight generation, as a step
  relation on concurrent calls of \<open>GetCertificate\<close>. Each critical section is one step, as are the
  receive on a channel, the closing of one, and the signing. Keys, signatures and IP parsing are
  library code, the record \<open>crypto\<close>; its first argument is the randomness of the call. Serial
  numbers are integers: the counter would need \<open>2 ^ 63\<close> certificates to wrap.
\<close>

subsection \<open>Certificates\<close>

record leaf_template =
  lt_serialNumber :: int
  lt_commonName :: string
  lt_notBefore :: int
  lt_notAfter :: int
  lt_ipAddresses :: "string list"
  lt_dnsNames :: "string list"

record 'key crypto =
  cr_parseIP :: "string \<Rightarrow> string option"
  cr_genKey :: "nat \<Rightarrow> go_error + 'key"
  cr_sign :: "nat \<Rightarrow> leaf_template \<Rightarrow> 'key \<Rightarrow> go_error + string"

record 'key tls_cert =
  tc_chain :: "string list"
  tc_key :: 'key

text \<open>Times are seconds; a leaf is valid for 90 days.\<close>

definition leafTemplate :: "(string \<Rightarrow> string option) \<Rightarrow> int \<Rightarrow> int \<Rightarrow> string \<Rightarrow> leaf_template" where
  "leafTemplate parseIP serial now hostname =
     \<lparr>lt_serialNumber = serial, lt_commonName = hostname, lt_notBefore = now,
      lt_notAfter = now + 90 * 24 * 3600,
      lt_ipAddresses = (case parseIP hostname of Some ip \<Rightarrow> [ip] | None \<Rightarrow> []),
      lt_dnsNames = (case parseIP hostname of Some _ \<Rightarrow> [] | None \<Rightarrow> [hostname])\<rparr>"

text \<open>\<open>generateCertificate\<close> once it has its serial number.\<close>

definition generateCertificate ::
  "'key crypto \<Rightarrow> string \<Rightarrow> nat \<Rightarrow> int \<Rightarrow> int \<Rightarrow> string \<Rightarrow> go_error + 'key tls_cert" where
  "generateCertificate cr caRaw rnd now serial hostname =
     (case cr_genKey cr rnd of
        Inl err \<Rightarrow> Inl (Wrapf ''failed to generate leaf certificate private key: %w'' [] err)
      | Inr key \<Rightarrow> (case cr_sign cr rnd (leafTemplate (cr_parseIP cr) serial now hostname) key of
          Inl err \<Rightarrow> Inl (Wrapf ''failed to sign certificate: %w'' [] err)
        | Inr der \<Rightarrow> Inr \<lparr>tc_chain = [der, caRaw], tc_key = key\<rparr>))"

text \<open>\<open>CA.SignCertificate\<close> (\<open>ca.go\<close>), the authority's own signing, of a template that may be missing.\<close>

definition signCertificate :: "'key crypto \<Rightarrow> string \<Rightarrow> nat \<Rightarrow> leaf_template option \<Rightarrow> go_error + 'key tls_cert" where
  "signCertificate cr caRaw rnd template = (case template of
     None \<Rightarrow> Inl (ConfigError ''template'' None (Some (Errorf ''certificate template cannot be nil'' [])))
   | Some template \<Rightarrow> (case cr_genKey cr rnd of
       Inl err \<Rightarrow> Inl (Wrapf ''failed to generate leaf certificate private key: %w'' [] err)
     | Inr leafKey \<Rightarrow> (case cr_sign cr rnd template leafKey of
         Inl err \<Rightarrow> Inl (Wrapf ''failed to sign certificate: %w'' [] err)
       | Inr certDER \<Rightarrow> Inr \<lparr>tc_chain = [certDER, caRaw], tc_key = leafKey\<rparr>)))"

text \<open>The cache signs in its own copy of that code: the two do the same.\<close>

lemma generateCertificate_signs:
  "generateCertificate cr caRaw rnd now serial hostname =
     signCertificate cr caRaw rnd (Some (leafTemplate (cr_parseIP cr) serial now hostname))"
  by (simp add: generateCertificate_def signCertificate_def)

subsection \<open>The cache and the calls on it\<close>

text \<open>The cache; a channel is its number, and the runtime knows which are closed.\<close>

record 'key cert_cache =
  cc_caRaw :: string
  cc_cache :: "(string, 'key tls_cert) gomap"
  cc_generating :: "(string, nat) gomap"
  cc_serialNext :: int
  cc_nextChan :: nat
  cc_closed :: "nat set"

definition newCertCache :: "string \<Rightarrow> 'key cert_cache" where
  "newCertCache caRaw = \<lparr>cc_caRaw = caRaw, cc_cache = [], cc_generating = [], cc_serialNext = 1,
     cc_nextChan = 0, cc_closed = {}\<rparr>"

definition certHost :: "string \<Rightarrow> string" where
  "certHost hostname = to_lower (case split_host_port hostname of Some (host, _) \<Rightarrow> host | None \<Rightarrow> hostname)"

text \<open>Where a call of \<open>GetCertificate\<close> stands. \<open>Unlocking\<close> and \<open>Closing\<close> are the two halves of the
  deferred function: taking the host out of \<open>generating\<close>, then closing the channel.\<close>

datatype 'key call =
    Entering string
  | Waiting string nat
  | Generating string nat
  | Signing string nat int
  | Storing string nat "'key tls_cert"
  | Unlocking string nat "go_error + 'key tls_cert"
  | Closing string nat "go_error + 'key tls_cert"
  | Answered string "go_error + 'key tls_cert"

fun enterCall :: "string \<Rightarrow> 'key cert_cache \<Rightarrow> 'key call \<times> 'key cert_cache" where
  "enterCall h s = (case map_get (cc_cache s) (certHost h) of
     Some cert \<Rightarrow> (Answered h (Inr cert), s)
   | None \<Rightarrow> (case map_get (cc_generating s) (certHost h) of
       Some ch \<Rightarrow> (Waiting h ch, s)
     | None \<Rightarrow> (Generating h (cc_nextChan s),
         s\<lparr>cc_generating := map_put (certHost h) (cc_nextChan s) (cc_generating s),
           cc_nextChan := Suc (cc_nextChan s)\<rparr>)))"

text \<open>The next step of a call, \<open>None\<close> when it is blocked or has returned.\<close>

fun callStep ::
  "'key crypto \<Rightarrow> nat \<Rightarrow> int \<Rightarrow> 'key call \<Rightarrow> 'key cert_cache \<Rightarrow> ('key call \<times> 'key cert_cache) option" where
  "callStep cr rnd now (Entering h) s = Some (enterCall h s)"
| "callStep cr rnd now (Waiting h ch) s =
     (if ch \<notin> cc_closed s then None
      else Some (case map_get (cc_cache s) (certHost h) of
          Some cert \<Rightarrow> Answered h (Inr cert)
        | None \<Rightarrow> Entering h, s))"
| "callStep cr rnd now (Generating h ch) s =
     Some (Signing h ch (cc_serialNext s), s\<lparr>cc_serialNext := cc_serialNext s + 1\<rparr>)"
| "callStep cr rnd now (Signing h ch serial) s =
     Some (case generateCertificate cr (cc_caRaw s) rnd now serial (certHost h) of
         Inl err \<Rightarrow> Unlocking h ch (Inl err)
       | Inr cert \<Rightarrow> Storing h ch cert, s)"
| "callStep cr rnd now (Storing h ch cert) s =
     Some (Unlocking h ch (Inr cert), s\<lparr>cc_cache := map_put (certHost h) cert (cc_cache s)\<rparr>)"
| "callStep cr rnd now (Unlocking h ch res) s =
     Some (Closing h ch res, s\<lparr>cc_generating := map_del (certHost h) (cc_generating s)\<rparr>)"
| "callStep cr rnd now (Closing h ch res) s =
     Some (Answered h res, s\<lparr>cc_closed := insert ch (cc_closed s)\<rparr>)"
| "callStep cr rnd now (Answered h res) s = None"

text \<open>Every interleaving of calls, each with a number of its own, on one cache.\<close>

inductive cert_run :: "'key crypto \<Rightarrow> string \<Rightarrow> (nat \<Rightarrow> 'key call option) \<Rightarrow> 'key cert_cache \<Rightarrow> bool"
  for cr caRaw where
  cert_idle: "cert_run cr caRaw (\<lambda>_. None) (newCertCache caRaw)"
| cert_call: "cert_run cr caRaw ts s \<Longrightarrow> ts t = None \<Longrightarrow> cert_run cr caRaw (ts(t \<mapsto> Entering h)) s"
| cert_step: "cert_run cr caRaw ts s \<Longrightarrow> ts t = Some c \<Longrightarrow> callStep cr rnd now c s = Some (c', s') \<Longrightarrow>
    cert_run cr caRaw (ts(t \<mapsto> c')) s'"

inductive_cases cert_runE: "cert_run cr caRaw ts s"

subsection \<open>The invariant\<close>

fun callHost :: "'key call \<Rightarrow> string" where
  "callHost (Entering h) = certHost h"
| "callHost (Waiting h _) = certHost h"
| "callHost (Generating h _) = certHost h"
| "callHost (Signing h _ _) = certHost h"
| "callHost (Storing h _ _) = certHost h"
| "callHost (Unlocking h _ _) = certHost h"
| "callHost (Closing h _ _) = certHost h"
| "callHost (Answered h _) = certHost h"

text \<open>The channel a call has claimed and not closed yet; whether the claim is still in
  \<open>generating\<close>, and whether the certificate is still to be stored.\<close>

fun ownChan :: "'key call \<Rightarrow> nat option" where
  "ownChan (Generating _ ch) = Some ch"
| "ownChan (Signing _ ch _) = Some ch"
| "ownChan (Storing _ ch _) = Some ch"
| "ownChan (Unlocking _ ch _) = Some ch"
| "ownChan (Closing _ ch _) = Some ch"
| "ownChan _ = None"

fun claims :: "'key call \<Rightarrow> bool" where
  "claims (Generating _ _) = True"
| "claims (Signing _ _ _) = True"
| "claims (Storing _ _ _) = True"
| "claims (Unlocking _ _ _) = True"
| "claims _ = False"

fun callResult :: "'key call \<Rightarrow> (go_error + 'key tls_cert) option" where
  "callResult (Unlocking _ _ res) = Some res"
| "callResult (Closing _ _ res) = Some res"
| "callResult (Answered _ res) = Some res"
| "callResult _ = None"

definition issued :: "'key crypto \<Rightarrow> string \<Rightarrow> string \<Rightarrow> 'key tls_cert \<Rightarrow> bool" where
  "issued cr caRaw host cert \<longleftrightarrow>
     (\<exists>rnd now serial. generateCertificate cr caRaw rnd now serial host = Inr cert)"

definition reliable :: "'key crypto \<Rightarrow> bool" where
  "reliable cr \<longleftrightarrow> (\<forall>rnd. \<exists>key. cr_genKey cr rnd = Inr key) \<and>
     (\<forall>rnd tmpl key. \<exists>der. cr_sign cr rnd tmpl key = Inr der)"

text \<open>What holds of one call beside the shared state.\<close>

definition call_ok :: "'key crypto \<Rightarrow> 'key cert_cache \<Rightarrow> 'key call \<Rightarrow> bool" where
  "call_ok cr s c \<longleftrightarrow>
     (claims c \<longrightarrow> map_get (cc_generating s) (callHost c) = ownChan c) \<and>
     (claims c \<and> callResult c = None \<longrightarrow> map_get (cc_cache s) (callHost c) = None) \<and>
     (\<forall>ch. ownChan c = Some ch \<longrightarrow> ch < cc_nextChan s \<and> ch \<notin> cc_closed s) \<and>
     (\<forall>cert. callResult c = Some (Inr cert) \<longrightarrow> map_get (cc_cache s) (callHost c) = Some cert) \<and>
     (\<forall>h ch cert. c = Storing h ch cert \<longrightarrow> issued cr (cc_caRaw s) (certHost h) cert) \<and>
     (reliable cr \<longrightarrow> (\<forall>err. callResult c \<noteq> Some (Inl err)))"

definition cert_inv :: "'key crypto \<Rightarrow> string \<Rightarrow> (nat \<Rightarrow> 'key call option) \<Rightarrow> 'key cert_cache \<Rightarrow> bool" where
  "cert_inv cr caRaw ts s \<longleftrightarrow>
     cc_caRaw s = caRaw \<and>
     (\<forall>ch. ch \<in> cc_closed s \<longrightarrow> ch < cc_nextChan s) \<and>
     (\<forall>t c. ts t = Some c \<longrightarrow> call_ok cr s c) \<and>
     (\<forall>t t' c c' ch. ts t = Some c \<longrightarrow> ts t' = Some c' \<longrightarrow> ownChan c = Some ch \<longrightarrow> ownChan c' = Some ch \<longrightarrow> t = t') \<and>
     (\<forall>host ch. map_get (cc_generating s) host = Some ch \<longrightarrow>
        (\<exists>t c. ts t = Some c \<and> claims c \<and> callHost c = host \<and> ownChan c = Some ch)) \<and>
     (\<forall>t h ch. ts t = Some (Waiting h ch) \<longrightarrow>
        (if ch \<in> cc_closed s then reliable cr \<longrightarrow> map_get (cc_cache s) (certHost h) \<noteq> None
         else \<exists>t' c. ts t' = Some c \<and> callHost c = certHost h \<and> ownChan c = Some ch)) \<and>
     (\<forall>host cert. map_get (cc_cache s) host = Some cert \<longrightarrow> issued cr caRaw host cert)"

lemma claims_ownChan: "claims c \<Longrightarrow> \<exists>ch. ownChan c = Some ch"
  by (cases c) auto

lemma cert_invD:
  assumes "cert_inv cr caRaw ts s"
  shows "cc_caRaw s = caRaw \<and> (ch \<in> cc_closed s \<longrightarrow> ch < cc_nextChan s)"
    and "ts t = Some c \<Longrightarrow> call_ok cr s c"
    and "ts t = Some c \<Longrightarrow> ts t' = Some c' \<Longrightarrow> ownChan c = Some ch \<Longrightarrow> ownChan c' = Some ch \<Longrightarrow> t = t'"
    and "map_get (cc_generating s) host = Some ch \<Longrightarrow>
      \<exists>t c. ts t = Some c \<and> claims c \<and> callHost c = host \<and> ownChan c = Some ch"
    and "ts t = Some (Waiting h ch) \<Longrightarrow> ch \<in> cc_closed s \<Longrightarrow> reliable cr \<Longrightarrow>
      map_get (cc_cache s) (certHost h) \<noteq> None"
    and "ts t = Some (Waiting h ch) \<Longrightarrow> ch \<notin> cc_closed s \<Longrightarrow>
      \<exists>t' c. ts t' = Some c \<and> callHost c = certHost h \<and> ownChan c = Some ch"
    and "map_get (cc_cache s) host = Some cert \<Longrightarrow> issued cr caRaw host cert"
proof -
  note inv = assms [unfolded cert_inv_def]
  show "cc_caRaw s = caRaw \<and> (ch \<in> cc_closed s \<longrightarrow> ch < cc_nextChan s)" using inv by blast
  show "call_ok cr s c" if "ts t = Some c" using inv that by blast
  show "t = t'" if "ts t = Some c" "ts t' = Some c'" "ownChan c = Some ch" "ownChan c' = Some ch" using inv that by blast
  show "\<exists>t c. ts t = Some c \<and> claims c \<and> callHost c = host \<and> ownChan c = Some ch"
    if "map_get (cc_generating s) host = Some ch" using inv that by blast
  show "map_get (cc_cache s) (certHost h) \<noteq> None"
    if "ts t = Some (Waiting h ch)" "ch \<in> cc_closed s" "reliable cr"
    using conjunct1 [OF conjunct2 [OF conjunct2 [OF conjunct2 [OF conjunct2 [OF conjunct2 [OF inv]]]]], rule_format, OF that(1)] that
    by simp
  show "\<exists>t' c. ts t' = Some c \<and> callHost c = certHost h \<and> ownChan c = Some ch"
    if "ts t = Some (Waiting h ch)" "ch \<notin> cc_closed s"
    using conjunct1 [OF conjunct2 [OF conjunct2 [OF conjunct2 [OF conjunct2 [OF conjunct2 [OF inv]]]]], rule_format, OF that(1)] that
    by simp
  show "issued cr caRaw host cert" if "map_get (cc_cache s) host = Some cert" using inv that by blast
qed

lemma call_okD:
  assumes "call_ok cr s c"
  shows "claims c \<Longrightarrow> map_get (cc_generating s) (callHost c) = ownChan c"
    and "claims c \<Longrightarrow> callResult c = None \<Longrightarrow> map_get (cc_cache s) (callHost c) = None"
    and "ownChan c = Some ch \<Longrightarrow> ch < cc_nextChan s"
    and "ownChan c = Some ch \<Longrightarrow> ch \<notin> cc_closed s"
    and "callResult c = Some (Inr cert) \<Longrightarrow> map_get (cc_cache s) (callHost c) = Some cert"
    and "c = Storing h ch cert \<Longrightarrow> issued cr (cc_caRaw s) (certHost h) cert"
    and "reliable cr \<Longrightarrow> callResult c \<noteq> Some (Inl err)"
  using assms by (simp_all add: call_ok_def)

text \<open>Two calls never hold a claim on the same host.\<close>

lemma claims_unique:
  assumes "cert_inv cr caRaw ts s" "ts t = Some c" "ts t' = Some c'" "claims c" "claims c'"
    "callHost c = callHost c'"
  shows "t = t'"
proof -
  obtain ch where ch: "ownChan c = Some ch" using claims_ownChan [OF assms(4)] by blast
  then have "ownChan c' = Some ch"
    using call_okD(1) [OF cert_invD(2) [OF assms(1,2)] assms(4)] call_okD(1) [OF cert_invD(2) [OF assms(1,3)] assms(5)]
      assms(6) by simp
  then show ?thesis using cert_invD(3) [OF assms(1-3) ch] by simp
qed

text \<open>The invariant is kept by a step of one call that leaves the others alone.\<close>

lemma cert_inv_update:
  assumes inv: "cert_inv cr caRaw ts s" and t: "ts t = Some c"
    and raw: "cc_caRaw s' = cc_caRaw s" and chans: "cc_nextChan s \<le> cc_nextChan s'" and new: "call_ok cr s' c'"
    and others: "\<And>t' d. t' \<noteq> t \<Longrightarrow> ts t' = Some d \<Longrightarrow> call_ok cr s d \<Longrightarrow> call_ok cr s' d"
    and own: "\<And>ch. ownChan c' = Some ch \<Longrightarrow> ownChan c = Some ch \<or> ch = cc_nextChan s"
    and gen: "\<And>host ch. map_get (cc_generating s') host = Some ch \<Longrightarrow>
      claims c' \<and> callHost c' = host \<and> ownChan c' = Some ch \<or>
      map_get (cc_generating s) host = Some ch \<and>
        (claims c \<and> callHost c = host \<and> ownChan c = Some ch \<longrightarrow> claims c' \<and> ownChan c' = Some ch)"
    and closed: "\<And>ch. ch \<in> cc_closed s \<Longrightarrow> ch \<in> cc_closed s'"
    and closing: "\<And>ch. ch \<in> cc_closed s' \<Longrightarrow> ch \<notin> cc_closed s \<Longrightarrow>
      ownChan c = Some ch \<and> (reliable cr \<longrightarrow> map_get (cc_cache s') (callHost c) \<noteq> None)"
    and mono: "\<And>host. map_get (cc_cache s) host \<noteq> None \<Longrightarrow> map_get (cc_cache s') host \<noteq> None"
    and keeps: "\<And>ch. ownChan c = Some ch \<Longrightarrow> ch \<notin> cc_closed s' \<Longrightarrow> ownChan c' = Some ch"
    and host: "callHost c' = callHost c"
    and waits: "\<And>h ch. c' = Waiting h ch \<Longrightarrow> ch \<notin> cc_closed s' \<and> map_get (cc_generating s) (certHost h) = Some ch \<and>
      ownChan c = None"
    and cache: "\<And>host cert. map_get (cc_cache s') host = Some cert \<Longrightarrow> issued cr caRaw host cert"
  shows "cert_inv cr caRaw (ts(t \<mapsto> c')) s'"
  unfolding cert_inv_def
proof (intro conjI allI impI)
  show "cc_caRaw s' = caRaw" using raw cert_invD(1) [OF inv] by simp
  show "ch < cc_nextChan s'" if "ch \<in> cc_closed s'" for ch
    using that closing chans cert_invD(1) [OF inv, of ch] call_okD(3) [OF cert_invD(2) [OF inv t], of ch]
    by (cases "ch \<in> cc_closed s") auto
  show "call_ok cr s' d" if "(ts(t \<mapsto> c')) u = Some d" for u d
    using that new others cert_invD(2) [OF inv] by (auto split: if_splits)
  have fresh: "ownChan d \<noteq> Some (cc_nextChan s)" if "ts u = Some d" for u d
    using call_okD(3) [OF cert_invD(2) [OF inv that]] by blast
  show "u = u'" if "(ts(t \<mapsto> c')) u = Some d" "(ts(t \<mapsto> c')) u' = Some d'" "ownChan d = Some ch" "ownChan d' = Some ch"
    for u u' d d' ch
    using that own [of ch] fresh cert_invD(3) [OF inv] t by (auto split: if_splits)
  show "\<exists>u d. (ts(t \<mapsto> c')) u = Some d \<and> claims d \<and> callHost d = host \<and> ownChan d = Some ch"
    if "map_get (cc_generating s') host = Some ch" for host ch
    using gen [OF that]
  proof
    assume "claims c' \<and> callHost c' = host \<and> ownChan c' = Some ch"
    then show ?thesis by (intro exI [of _ t] exI [of _ c']) simp
  next
    assume old: "map_get (cc_generating s) host = Some ch \<and>
      (claims c \<and> callHost c = host \<and> ownChan c = Some ch \<longrightarrow> claims c' \<and> ownChan c' = Some ch)"
    obtain u d where d: "ts u = Some d" "claims d" "callHost d = host" "ownChan d = Some ch"
      using cert_invD(4) [OF inv] old by blast
    show ?thesis
    proof (cases "u = t")
      case True
      then show ?thesis using d t old host by (intro exI [of _ t] exI [of _ c']) simp
    next
      case False
      then show ?thesis using d by (intro exI [of _ u] exI [of _ d]) simp
    qed
  qed
  show "issued cr caRaw host cert" if "map_get (cc_cache s') host = Some cert" for host cert
    using cache [OF that] .
  have live: "\<exists>u d. (ts(t \<mapsto> c')) u = Some d \<and> callHost d = k \<and> ownChan d = Some ch"
    if "ts u = Some d" "callHost d = k" "ownChan d = Some ch" "ch \<notin> cc_closed s'" for u d k ch
    using that t keeps [of ch] host by (cases "u = t") force+
  show "if ch \<in> cc_closed s' then reliable cr \<longrightarrow> map_get (cc_cache s') (certHost h) \<noteq> None
      else \<exists>u d. (ts(t \<mapsto> c')) u = Some d \<and> callHost d = certHost h \<and> ownChan d = Some ch"
    if w: "(ts(t \<mapsto> c')) u = Some (Waiting h ch)" for u h ch
  proof (cases "u = t")
    case True
    then have "ch \<notin> cc_closed s'" "map_get (cc_generating s) (certHost h) = Some ch"
      using w waits by auto
    moreover from this(2) obtain u' d where "ts u' = Some d" "callHost d = certHost h" "ownChan d = Some ch"
      using cert_invD(4) [OF inv] by blast
    ultimately have "\<exists>u d. (ts(t \<mapsto> c')) u = Some d \<and> callHost d = certHost h \<and> ownChan d = Some ch"
      using live by blast
    then show ?thesis using \<open>ch \<notin> cc_closed s'\<close> by (simp only: if_False)
  next
    case False
    then have w': "ts u = Some (Waiting h ch)" using w by simp
    consider "ch \<in> cc_closed s" | "ch \<notin> cc_closed s" "ch \<in> cc_closed s'" | "ch \<notin> cc_closed s'"
      using closed by blast
    then show ?thesis
    proof cases
      case 1
      then show ?thesis using closed mono cert_invD(5) [OF inv w'] by simp
    next
      case 2
      obtain u' d where "ts u' = Some d" "callHost d = certHost h" "ownChan d = Some ch"
        using cert_invD(6) [OF inv w' 2(1)] by blast
      moreover have "ownChan c = Some ch" using closing 2 by blast
      ultimately have "callHost c = certHost h" using cert_invD(3) [OF inv] t by (metis option.inject)
      then show ?thesis using closing [OF 2(2,1)] 2(2) by simp
    next
      case 3
      then have "ch \<notin> cc_closed s" using closed by blast
      then obtain u' d where "ts u' = Some d" "callHost d = certHost h" "ownChan d = Some ch"
        using cert_invD(6) [OF inv w'] by blast
      then have "\<exists>u d. (ts(t \<mapsto> c')) u = Some d \<and> callHost d = certHost h \<and> ownChan d = Some ch"
        using live 3 by blast
      then show ?thesis using 3 by (simp only: if_False)
    qed
  qed
qed

lemma callStep_host: "callStep cr rnd now c s = Some (c', s') \<Longrightarrow> callHost c' = callHost c"
  by (cases c) (auto split: option.splits sum.splits if_splits)

lemma generate_reliable:
  assumes "reliable cr"
  shows "\<exists>cert. generateCertificate cr caRaw rnd now serial host = Inr cert"
proof -
  obtain key where key: "cr_genKey cr rnd = Inr key" using assms [unfolded reliable_def] by blast
  moreover obtain der where "cr_sign cr rnd (leafTemplate (cr_parseIP cr) serial now host) key = Inr der"
    using assms [unfolded reliable_def] by blast
  ultimately show ?thesis by (simp add: generateCertificate_def)
qed

text \<open>A step that leaves the cache as it is.\<close>

lemma cert_inv_same:
  assumes inv: "cert_inv cr caRaw ts s" and t: "ts t = Some c" and "call_ok cr s c'"
    and "ownChan c' = ownChan c" "claims c' = claims c" "callHost c' = callHost c"
    and "\<And>h ch. c' = Waiting h ch \<Longrightarrow> map_get (cc_generating s) (certHost h) = Some ch \<and> ch \<notin> cc_closed s \<and> ownChan c = None"
  shows "cert_inv cr caRaw (ts(t \<mapsto> c')) s"
proof (rule cert_inv_update [OF inv t])
  show "issued cr caRaw host cert" if "map_get (cc_cache s) host = Some cert" for host cert
    using cert_invD(7) [OF inv that] .
qed (use assms in \<open>simp_all\<close>)

lemma cert_inv_entering:
  assumes inv: "cert_inv cr caRaw ts s" and t: "ts t = Some (Entering h)"
  shows "cert_inv cr caRaw (ts(t \<mapsto> fst (enterCall h s))) (snd (enterCall h s))"
proof (cases "map_get (cc_cache s) (certHost h)")
  case (Some cert)
  have "cert_inv cr caRaw (ts(t \<mapsto> Answered h (Inr cert))) s"
    by (rule cert_inv_same [OF inv t]) (simp_all add: Some call_ok_def)
  then show ?thesis using Some by simp
next
  case None
  note miss = None
  show ?thesis
  proof (cases "map_get (cc_generating s) (certHost h)")
    case (Some ch)
    obtain u d where "ts u = Some d" "ownChan d = Some ch" using cert_invD(4) [OF inv Some] by blast
    then have "ch \<notin> cc_closed s" using call_okD(4) [OF cert_invD(2) [OF inv]] by blast
    then have "cert_inv cr caRaw (ts(t \<mapsto> Waiting h ch)) s"
      using Some by (intro cert_inv_same [OF inv t]) (auto simp: call_ok_def)
    then show ?thesis using miss Some by simp
  next
    case None
    let ?s = "s\<lparr>cc_generating := map_put (certHost h) (cc_nextChan s) (cc_generating s),
      cc_nextChan := Suc (cc_nextChan s)\<rparr>"
    have "cert_inv cr caRaw (ts(t \<mapsto> Generating h (cc_nextChan s))) ?s"
    proof (rule cert_inv_update [OF inv t])
      show "call_ok cr ?s d" if d: "ts u = Some d" "call_ok cr s d" for u d
      proof -
        have "callHost d \<noteq> certHost h" if "claims d"
          using call_okD(1) [OF d(2) that] claims_ownChan [OF that] None by auto
        then show ?thesis using d(2) by (auto simp: call_ok_def less_Suc_eq)
      qed
      show "call_ok cr ?s (Generating h (cc_nextChan s))"
        using miss cert_invD(1) [OF inv, of "cc_nextChan s"] by (auto simp: call_ok_def)
      show "issued cr caRaw host cert" if "map_get (cc_cache ?s) host = Some cert" for host cert
        using cert_invD(7) [OF inv, of host cert] that by simp
    qed (auto split: if_splits)
    then show ?thesis using miss None by simp
  qed
qed

lemma cert_inv_step:
  assumes inv: "cert_inv cr caRaw ts s" and t: "ts t = Some c"
    and step: "callStep cr rnd now c s = Some (c', s')"
  shows "cert_inv cr caRaw (ts(t \<mapsto> c')) s'"
proof -
  note ok = call_okD [OF cert_invD(2) [OF inv t]]
  note cached = cert_invD(7) [OF inv]
  note same = cert_inv_same [OF inv t]
  have apart: "callHost d \<noteq> callHost c" if "claims c" "claims d" "u \<noteq> t" "ts u = Some d" for u d
    using claims_unique [OF inv t that(4,1,2)] that(3) by auto
  show ?thesis
  proof (cases c)
    case (Entering h)
    then show ?thesis using cert_inv_entering [OF inv] t step by (metis callStep.simps(1) fst_conv option.inject snd_conv)
  next
    case (Waiting h ch)
    then have res: "c' = (case map_get (cc_cache s) (certHost h) of Some cert \<Rightarrow> Answered h (Inr cert) | None \<Rightarrow> Entering h)" "s' = s"
      using step by (auto split: if_splits)
    show ?thesis
      unfolding res(2) by (rule same) (use res Waiting in \<open>auto simp: call_ok_def split: option.splits\<close>)
  next
    case (Generating h ch)
    then have res: "c' = Signing h ch (cc_serialNext s)" "s' = s\<lparr>cc_serialNext := cc_serialNext s + 1\<rparr>"
      using step by auto
    have ok': "call_ok cr s' d" if "call_ok cr s d" for d using that res by (simp add: call_ok_def)
    show ?thesis
      by (rule cert_inv_update [OF inv t]) (use res Generating ok ok' cached in \<open>auto simp: call_ok_def\<close>)
  next
    case (Signing h ch serial)
    show ?thesis
    proof (cases "generateCertificate cr (cc_caRaw s) rnd now serial (certHost h)")
      case (Inl err)
      then have "\<not> reliable cr" using generate_reliable by (metis Inl_Inr_False)
      moreover have "c' = Unlocking h ch (Inl err)" "s' = s" using step Signing Inl by auto
      ultimately show ?thesis using same [of c'] Signing ok by (auto simp: call_ok_def)
    next
      case (Inr cert)
      then have "issued cr (cc_caRaw s) (certHost h) cert" unfolding issued_def by blast
      moreover have "c' = Storing h ch cert" "s' = s" using step Signing Inr by auto
      ultimately show ?thesis using same [of c'] Signing ok by (auto simp: call_ok_def)
    qed
  next
    case (Storing h ch cert)
    then have res: "c' = Unlocking h ch (Inr cert)" "s' = s\<lparr>cc_cache := map_put (certHost h) cert (cc_cache s)\<rparr>"
      using step by auto
    have ok': "call_ok cr s' d" if "u \<noteq> t" "ts u = Some d" "call_ok cr s d" for u d
    proof -
      have "callHost d \<noteq> certHost h" if "claims d" using apart [OF _ that \<open>u \<noteq> t\<close> \<open>ts u = Some d\<close>] Storing by auto
      moreover have "callHost d \<noteq> certHost h" if "callResult d = Some (Inr x)" for x
        using call_okD(5) [OF \<open>call_ok cr s d\<close> that] ok(2) Storing by auto
      ultimately show ?thesis using that res by (auto simp: call_ok_def)
    qed
    show ?thesis
    proof (rule cert_inv_update [OF inv t])
      show "issued cr caRaw host x" if "map_get (cc_cache s') host = Some x" for host x
        using that res ok(6) [of h ch cert] Storing cached [of host x] cert_invD(1) [OF inv] by (auto split: if_splits)
    qed (use res Storing ok ok' in \<open>auto simp: call_ok_def\<close>)
  next
    case (Unlocking h ch res)
    then have res: "c' = Closing h ch res" "s' = s\<lparr>cc_generating := map_del (certHost h) (cc_generating s)\<rparr>"
      using step by auto
    have ok': "call_ok cr s' d" if "u \<noteq> t" "ts u = Some d" "call_ok cr s d" for u d
    proof -
      have "callHost d \<noteq> certHost h" if "claims d" using apart [OF _ that \<open>u \<noteq> t\<close> \<open>ts u = Some d\<close>] Unlocking by auto
      then show ?thesis using that res by (auto simp: call_ok_def)
    qed
    show ?thesis
      by (rule cert_inv_update [OF inv t])
        (use res Unlocking ok ok' cached in \<open>auto simp: call_ok_def split: if_splits\<close>)
  next
    case (Closing h ch res)
    then have res: "c' = Answered h res" "s' = s\<lparr>cc_closed := insert ch (cc_closed s)\<rparr>"
      using step by auto
    have ok': "call_ok cr s' d" if "u \<noteq> t" "ts u = Some d" "call_ok cr s d" for u d
    proof -
      have "ownChan d \<noteq> Some ch" using cert_invD(3) [OF inv t that(2), of ch] that(1) Closing by auto
      then show ?thesis using that res by (auto simp: call_ok_def)
    qed
    have stored: "map_get (cc_cache s) (certHost h) \<noteq> None" if "reliable cr"
      using ok(7) [OF that] ok(5) Closing by (cases res) auto
    show ?thesis
      by (rule cert_inv_update [OF inv t])
        (use res Closing ok ok' cached stored in \<open>auto simp: call_ok_def split: if_splits\<close>)
  next
    case (Answered h res)
    then show ?thesis using step by simp
  qed
qed

lemma cert_run_inv: "cert_run cr caRaw ts s \<Longrightarrow> cert_inv cr caRaw ts s"
proof (induction rule: cert_run.induct)
  case cert_idle
  then show ?case by (simp add: cert_inv_def newCertCache_def)
next
  case (cert_call ts s t h)
  note inv = cert_invD [OF cert_call.IH]
  show ?case
    unfolding cert_inv_def
  proof (intro conjI allI impI)
    show "\<exists>u c. (ts(t \<mapsto> Entering h)) u = Some c \<and> claims c \<and> callHost c = host \<and> ownChan c = Some ch"
      if "map_get (cc_generating s) host = Some ch" for host ch
      using inv(4) [OF that] cert_call.hyps(2) by (metis fun_upd_apply option.distinct(1))
    show "if ch \<in> cc_closed s then reliable cr \<longrightarrow> map_get (cc_cache s) (certHost k) \<noteq> None
        else \<exists>u c. (ts(t \<mapsto> Entering h)) u = Some c \<and> callHost c = certHost k \<and> ownChan c = Some ch"
      if "(ts(t \<mapsto> Entering h)) v = Some (Waiting k ch)" for v k ch
    proof -
      have w: "ts v = Some (Waiting k ch)" using that by (auto split: if_splits)
      show ?thesis
      proof (cases "ch \<in> cc_closed s")
        case True
        then show ?thesis using inv(5) [OF w] by simp
      next
        case False
        then have "\<exists>u c. (ts(t \<mapsto> Entering h)) u = Some c \<and> callHost c = certHost k \<and> ownChan c = Some ch"
          using inv(6) [OF w] cert_call.hyps(2) by (metis fun_upd_apply option.distinct(1))
        then show ?thesis using False by (simp only: if_False)
      qed
    qed
  qed (use inv in \<open>auto simp: call_ok_def split: if_splits\<close>)
next
  case (cert_step ts s t c rnd now c' s')
  then show ?case using cert_inv_step by blast
qed

text \<open>A schedule: which call moves next, and with what randomness and at what time.\<close>

datatype cert_event = Call nat string | Step nat nat int

fun runSchedule :: "'key crypto \<Rightarrow> cert_event list \<Rightarrow> (nat \<Rightarrow> 'key call option) \<times> 'key cert_cache \<Rightarrow>
    (nat \<Rightarrow> 'key call option) \<times> 'key cert_cache" where
  "runSchedule cr [] st = st"
| "runSchedule cr (Call t h # es) (ts, s) =
     runSchedule cr es (if ts t = None then (ts(t \<mapsto> Entering h), s) else (ts, s))"
| "runSchedule cr (Step t rnd now # es) (ts, s) =
     runSchedule cr es (case ts t of None \<Rightarrow> (ts, s) | Some c \<Rightarrow>
       (case callStep cr rnd now c s of None \<Rightarrow> (ts, s) | Some (c', s') \<Rightarrow> (ts(t \<mapsto> c'), s')))"

lemma runSchedule_run:
  "cert_run cr caRaw ts s \<Longrightarrow> cert_run cr caRaw (fst (runSchedule cr es (ts, s))) (snd (runSchedule cr es (ts, s)))"
proof (induction es arbitrary: ts s)
  case (Cons e es)
  show ?case
  proof (cases e)
    case (Call t h)
    have "cert_run cr caRaw (if ts t = None then ts(t \<mapsto> Entering h) else ts) s"
      using Cons.prems cert_call by auto
    moreover have "runSchedule cr (e # es) (ts, s) = runSchedule cr es (if ts t = None then ts(t \<mapsto> Entering h) else ts, s)"
      using Call by simp
    ultimately show ?thesis using Cons.IH by (simp only:)
  next
    case (Step t rnd now)
    have "cert_run cr caRaw (ts(t \<mapsto> c')) s'" if "ts t = Some c" "callStep cr rnd now c s = Some (c', s')" for c c' s'
      using cert_step [OF Cons.prems that] .
    then show ?thesis using Step Cons.IH [OF Cons.prems] Cons.IH by (auto split: option.split simp del: fun_upd_apply)
  qed
qed simp

lemmas schedule_run = runSchedule_run [OF cert_idle]

text \<open>A certificate authority that writes the name into the certificate.\<close>

definition demo_crypto :: "nat crypto" where
  "demo_crypto = \<lparr>cr_parseIP = (\<lambda>_. None), cr_genKey = Inr, cr_sign = (\<lambda>_ tmpl _. Inr (lt_commonName tmpl))\<rparr>"

definition demo_schedule :: "cert_event list" where
  "demo_schedule = [Call 0 ''API.example.com:443'', Call 1 ''api.example.com'', Step 0 0 0, Step 1 0 0,
     Step 0 0 0, Step 0 7 100, Step 0 0 0, Step 0 0 0, Step 0 0 0, Step 1 0 0]"

definition demo_run :: "(nat \<Rightarrow> nat call option) \<times> nat cert_cache" where
  "demo_run = runSchedule demo_crypto demo_schedule (\<lambda>_. None, newCertCache ''ca'')"

lemma demo_run: "cert_run demo_crypto ''ca'' (fst demo_run) (snd demo_run)"
  unfolding demo_run_def by (rule schedule_run)

subsection \<open>Properties\<close>

fun callRank :: "'key call \<Rightarrow> nat" where
  "callRank (Entering _) = 6"
| "callRank (Generating _ _) = 5"
| "callRank (Signing _ _ _) = 4"
| "callRank (Storing _ _ _) = 3"
| "callRank (Unlocking _ _ _) = 2"
| "callRank (Closing _ _ _) = 1"
| "callRank (Waiting _ _) = 1"
| "callRank (Answered _ _) = 0"

lemma owner_moves: "ownChan d = Some ch \<Longrightarrow> \<exists>d' s'. callStep cr rnd now d s = Some (d', s')"
  by (cases d) auto

text \<open>C26: Concurrent calls agree. However calls of \<open>GetCertificate\<close> interleave, and whichever of them
  fail, all that are answered with a certificate for the same host, in any spelling and with any
  port, are answered with the same one; it was signed for that host name (or IP address) and its
  chain ends in the CA's certificate. And never do two calls generate for one host at a time.\<close>

theorem answered_calls_agree:
  assumes "cert_run cr caRaw ts s"
  shows "(ts t = Some (Answered h (Inr cert)) \<longrightarrow> ts t' = Some (Answered h' (Inr cert')) \<longrightarrow>
      certHost h = certHost h' \<longrightarrow> cert = cert') \<and>
    (ts t = Some (Answered h (Inr cert)) \<longrightarrow> (\<exists>rnd now serial key der.
      cr_sign cr rnd (leafTemplate (cr_parseIP cr) serial now (certHost h)) key = Inr der \<and>
      cert = \<lparr>tc_chain = [der, caRaw], tc_key = key\<rparr>)) \<and>
    (ts t = Some c \<longrightarrow> ts t' = Some c' \<longrightarrow> claims c \<longrightarrow> claims c' \<longrightarrow> callHost c = callHost c' \<longrightarrow> t = t')"
proof (intro conjI impI)
  note inv = cert_run_inv [OF assms]
  have hit: "map_get (cc_cache s) (certHost k) = Some x" if "ts u = Some (Answered k (Inr x))" for u k x
    using call_okD(5) [OF cert_invD(2) [OF inv that]] by simp
  show "cert = cert'" if "ts t = Some (Answered h (Inr cert))" "ts t' = Some (Answered h' (Inr cert'))"
    "certHost h = certHost h'"
    using hit [OF that(1)] hit [OF that(2)] that(3) by simp
  show "\<exists>rnd now serial key der. cr_sign cr rnd (leafTemplate (cr_parseIP cr) serial now (certHost h)) key = Inr der \<and>
      cert = \<lparr>tc_chain = [der, caRaw], tc_key = key\<rparr>" if answered: "ts t = Some (Answered h (Inr cert))"
  proof -
    obtain rnd now serial where "generateCertificate cr caRaw rnd now serial (certHost h) = Inr cert"
      using cert_invD(7) [OF inv hit [OF answered]] unfolding issued_def by blast
    then have "\<exists>key der. cr_sign cr rnd (leafTemplate (cr_parseIP cr) serial now (certHost h)) key = Inr der \<and>
        cert = \<lparr>tc_chain = [der, caRaw], tc_key = key\<rparr>"
      by (auto simp: generateCertificate_def split: sum.splits)
    then show ?thesis by blast
  qed
  show "t = t'" if "ts t = Some c" "ts t' = Some c'" "claims c" "claims c'" "callHost c = callHost c'"
    using claims_unique [OF inv that] .
qed

theorem answered_calls_agree_witness:
  "\<exists>x. fst demo_run 0 = Some (Answered ''API.example.com:443'' (Inr x)) \<and>
     fst demo_run 1 = Some (Answered ''api.example.com'' (Inr x))"
proof -
  let ?x = "\<lparr>tc_chain = [''api.example.com'', ''ca''], tc_key = 7\<rparr>"
  have "fst demo_run 0 = Some (Answered ''API.example.com:443'' (Inr ?x))" by code_simp
  moreover have "fst demo_run 1 = Some (Answered ''api.example.com'' (Inr ?x))" by code_simp
  moreover have "certHost ''API.example.com:443'' = certHost ''api.example.com''" by code_simp
  ultimately show ?thesis using answered_calls_agree [OF demo_run] by metis
qed

text \<open>C27: No call waits forever. In every reachable state with a call that has not returned some call
  can take a step, so waiters are never left behind, whether their generator succeeded or failed.
  And while key generation and signing succeed every step of a call brings it nearer its answer, so
  it has one after at most six steps of its own.\<close>

theorem no_call_is_stranded:
  assumes "cert_run cr caRaw ts s" "ts t = Some c"
  shows "((\<forall>h res. c \<noteq> Answered h res) \<longrightarrow>
      (\<exists>t' d d' s'. ts t' = Some d \<and> callStep cr rnd now d s = Some (d', s'))) \<and>
    (reliable cr \<longrightarrow> (\<forall>rnd now c' s'. callStep cr rnd now c s = Some (c', s') \<longrightarrow> callRank c' < callRank c)) \<and>
    callRank c \<le> 6"
proof (intro conjI impI allI)
  note inv = cert_run_inv [OF assms(1)]
  show "\<exists>t' d d' s'. ts t' = Some d \<and> callStep cr rnd now d s = Some (d', s')" if "\<forall>h res. c \<noteq> Answered h res"
  proof (cases "\<exists>h ch. c = Waiting h ch \<and> ch \<notin> cc_closed s")
    case True
    then obtain h ch where "ts t = Some (Waiting h ch)" "ch \<notin> cc_closed s" using assms(2) by blast
    then show ?thesis using cert_invD(6) [OF inv] owner_moves by metis
  next
    case False
    then show ?thesis using assms(2) that by (cases c) force+
  qed
  show "callRank c' < callRank c" if "reliable cr" "callStep cr rnd now c s = Some (c', s')" for rnd now c' s'
    using that(2) cert_invD(5) [OF inv _ _ that(1), of t] assms(2)
    by (cases c) (auto split: option.splits sum.splits if_splits)
  show "callRank c \<le> 6" by (cases c) auto
qed

theorem no_call_is_stranded_witness:
  "\<exists>t d d' s'. fst (runSchedule demo_crypto (take 5 demo_schedule) (\<lambda>_. None, newCertCache ''ca'')) t = Some d \<and>
     callStep demo_crypto 0 0 d (snd (runSchedule demo_crypto (take 5 demo_schedule) (\<lambda>_. None, newCertCache ''ca''))) =
       Some (d', s')"
proof -
  have "fst (runSchedule demo_crypto (take 5 demo_schedule) (\<lambda>_. None, newCertCache ''ca'')) 1 =
      Some (Waiting ''api.example.com'' 0)" by code_simp
  from no_call_is_stranded [OF schedule_run this, of 0 0] show ?thesis by blast
qed

text \<open>A certificate is served beyond its validity. Once a call has been answered with a
  certificate, every later call for the host is answered with it at once, whatever the time:
  \<open>NotAfter\<close>, ninety days after the generation, is never looked at again.\<close>

theorem cached_certificate_never_expires:
  assumes "cert_run cr caRaw ts s" "ts t = Some (Answered h (Inr cert))" "certHost h' = certHost h"
  shows "callStep cr rnd now (Entering h') s = Some (Answered h' (Inr cert), s)"
  using call_okD(5) [OF cert_invD(2) [OF cert_run_inv [OF assms(1)] assms(2)]] assms(3) by simp

theorem cached_certificate_never_expires_witness:
  "lt_notAfter (leafTemplate (\<lambda>_. None) 1 100 ''api.example.com'') < 100000000 \<and>
   (\<exists>cert. callStep demo_crypto 3 100000000 (Entering ''api.example.com'') (snd demo_run) =
      Some (Answered ''api.example.com'' (Inr cert), snd demo_run))"
proof -
  have "fst demo_run 1 = Some (Answered ''api.example.com''
      (Inr \<lparr>tc_chain = [''api.example.com'', ''ca''], tc_key = 7\<rparr>))" by code_simp
  from cached_certificate_never_expires [OF demo_run this refl, of 3 100000000]
  show ?thesis by (auto simp: leafTemplate_def)
qed

end
