(* ===== verification/File_System.thy ===== *)
theory File_System
  imports Errors "HOL-Library.Word"
begin

unbundle bit_operations_syntax

text \<open>
  What the program uses of package \<open>os\<close> on plain files: \<open>ReadFile\<close>, \<open>Stat\<close>, \<open>WriteFile\<close>,
  \<open>MkdirAll\<close>, and \<open>filepath.Dir\<close>. A file is its content and its permission bits; any operation may
  fail for a reason of its own, which \<open>fs_fails\<close> gives by operation and path. A write that fails
  after the open leaves the file truncated. \<open>WriteFile\<close> applies its mode, less the umask, only to a
  file it creates.
\<close>

record fsys =
  fs_files :: "(string, string \<times> 32 word) gomap"
  fs_umask :: "32 word"
  fs_fails :: "string \<Rightarrow> string \<Rightarrow> go_error option"

definition os_readFile :: "string \<Rightarrow> fsys \<Rightarrow> go_error + string" where
  "os_readFile path fs = (case fs_fails fs ''read'' path of
     Some err \<Rightarrow> Inl err
   | None \<Rightarrow> (case map_get (fs_files fs) path of None \<Rightarrow> Inl (Sentinel ErrNotExist) | Some (data, _) \<Rightarrow> Inr data))"

definition os_stat :: "string \<Rightarrow> fsys \<Rightarrow> go_error + 32 word" where
  "os_stat path fs = (case fs_fails fs ''stat'' path of
     Some err \<Rightarrow> Inl err
   | None \<Rightarrow> (case map_get (fs_files fs) path of None \<Rightarrow> Inl (Sentinel ErrNotExist) | Some (_, mode) \<Rightarrow> Inr mode))"

definition os_mkdirAll :: "string \<Rightarrow> fsys \<Rightarrow> go_error option" where
  "os_mkdirAll dir fs = fs_fails fs ''mkdir'' dir"

definition createMode :: "string \<Rightarrow> 32 word \<Rightarrow> fsys \<Rightarrow> 32 word" where
  "createMode path mode fs = (case map_get (fs_files fs) path of
     Some (_, old) \<Rightarrow> old | None \<Rightarrow> mode AND NOT (fs_umask fs))"

definition os_writeFile :: "string \<Rightarrow> string \<Rightarrow> 32 word \<Rightarrow> fsys \<Rightarrow> go_error option \<times> fsys" where
  "os_writeFile path data mode fs = (case fs_fails fs ''open'' path of
     Some err \<Rightarrow> (Some err, fs)
   | None \<Rightarrow> (case fs_fails fs ''write'' path of
       Some err \<Rightarrow> (Some err, fs\<lparr>fs_files := map_put path ('''', createMode path mode fs) (fs_files fs)\<rparr>)
     | None \<Rightarrow> (None, fs\<lparr>fs_files := map_put path (data, createMode path mode fs) (fs_files fs)\<rparr>)))"

definition path_dir :: "string \<Rightarrow> string" where
  "path_dir p = path_clean (case last_index_byte (CHR ''/'') p of Some i \<Rightarrow> take (i + 1) p | None \<Rightarrow> '''')"

lemma os_writeFile_ok:
  "os_writeFile path data mode fs = (None, fs') \<Longrightarrow>
     fs_files fs' = map_put path (data, createMode path mode fs) (fs_files fs) \<and>
     fs_umask fs' = fs_umask fs \<and> fs_fails fs' = fs_fails fs"
  by (auto simp: os_writeFile_def split: option.splits)

lemma os_readFile_ok: "os_readFile path fs = Inr data \<longleftrightarrow>
    fs_fails fs ''read'' path = None \<and> (\<exists>mode. map_get (fs_files fs) path = Some (data, mode))"
  by (auto simp: os_readFile_def split: option.splits)

lemma os_stat_ok: "os_stat path fs = Inr mode \<longleftrightarrow>
    fs_fails fs ''stat'' path = None \<and> (\<exists>data. map_get (fs_files fs) path = Some (data, mode))"
  by (auto simp: os_stat_def split: option.splits)

end
