(* ===== verification/Cert_Authority.thy ===== *)
theory Cert_Authority
  imports File_System
begin

text \<open>
  \<open>internal/mitm/ca.go\<close>: loading, storing and generating the certificate authority. PEM, X.509 and
  RSA are library code: the record \<open>pki\<close>, with the round trips the code relies on as \<open>pki_ok\<close>. An RSA
  public key is its modulus and exponent; \<open>pk_certKey\<close> is \<open>None\<close> for a key of another kind.
\<close>

record ('cert, 'key) pki =
  pk_pemDecode :: "string \<Rightarrow> string option"
  pk_pemEncode :: "string \<Rightarrow> string \<Rightarrow> string"
  pk_parseKey :: "string \<Rightarrow> go_error + 'key"
  pk_marshalKey :: "'key \<Rightarrow> string"
  pk_parseCert :: "string \<Rightarrow> go_error + 'cert"
  pk_raw :: "'cert \<Rightarrow> string"
  pk_certKey :: "'cert \<Rightarrow> (int \<times> int) option"
  pk_publicKey :: "'key \<Rightarrow> int \<times> int"
  pk_generate :: "nat \<Rightarrow> go_error + 'cert \<times> 'key"

definition pki_ok :: "('cert, 'key) pki \<Rightarrow> bool" where
  "pki_ok pk \<longleftrightarrow> (\<forall>type bytes. pk_pemDecode pk (pk_pemEncode pk type bytes) = Some bytes) \<and>
     (\<forall>key. pk_parseKey pk (pk_marshalKey pk key) = Inr key) \<and>
     (\<forall>cert. pk_parseCert pk (pk_raw pk cert) = Inr cert) \<and>
     (\<forall>rnd cert key. pk_generate pk rnd = Inr (cert, key) \<longrightarrow> pk_certKey pk cert = Some (pk_publicKey pk key))"

record ('cert, 'key) ca =
  ca_cert :: 'cert
  ca_privateKey :: 'key

definition caConfigError :: "string \<Rightarrow> string \<Rightarrow> string \<Rightarrow> go_error" where
  "caConfigError field value cause = ConfigError field (Some (Str value)) (Some (Errorf cause []))"

text \<open>The two halves of \<open>LoadCA\<close>: the key, then the certificate and whether they belong together.\<close>

definition loadCAKey :: "('cert, 'key) pki \<Rightarrow> fsys \<Rightarrow> string \<Rightarrow> go_error + 'key" where
  "loadCAKey pk fs keyPath = (case os_readFile keyPath fs of
     Inl err \<Rightarrow> Inl (Wrapf ''failed to read CA private key: %w'' [] err)
   | Inr pem \<Rightarrow> (case pk_pemDecode pk pem of
       None \<Rightarrow> Inl (caConfigError ''ca-key'' keyPath ''failed to parse PEM'')
     | Some bytes \<Rightarrow> (case pk_parseKey pk bytes of
         Inl err \<Rightarrow> Inl (Wrapf ''failed to parse CA private key: %w'' [] err)
       | Inr key \<Rightarrow> Inr key)))"

definition loadCA :: "('cert, 'key) pki \<Rightarrow> fsys \<Rightarrow> string \<Rightarrow> string \<Rightarrow> go_error + ('cert, 'key) ca" where
  "loadCA pk fs keyPath certPath = (case loadCAKey pk fs keyPath of
     Inl err \<Rightarrow> Inl err
   | Inr key \<Rightarrow> (case os_readFile certPath fs of
       Inl err \<Rightarrow> Inl (Wrapf ''failed to read CA certificate: %w'' [] err)
     | Inr pem \<Rightarrow> (case pk_pemDecode pk pem of
         None \<Rightarrow> Inl (caConfigError ''ca-cert'' certPath ''failed to parse PEM'')
       | Some bytes \<Rightarrow> (case pk_parseCert pk bytes of
           Inl err \<Rightarrow> Inl (Wrapf ''failed to parse CA certificate: %w'' [] err)
         | Inr cert \<Rightarrow> (case pk_certKey pk cert of
             None \<Rightarrow> Inl (caConfigError ''ca-cert'' certPath ''public key is not RSA'')
           | Some pub \<Rightarrow>
               if fst pub \<noteq> fst (pk_publicKey pk key) \<or> snd pub \<noteq> snd (pk_publicKey pk key)
               then Inl (caConfigError ''ca'' ''key/cert pair'' ''private key and certificate mismatch'')
               else Inr \<lparr>ca_cert = cert, ca_privateKey = key\<rparr>)))))"

definition storeCA :: "('cert, 'key) pki \<Rightarrow> ('cert, 'key) ca \<Rightarrow> string \<Rightarrow> string \<Rightarrow> fsys \<Rightarrow> go_error option \<times> fsys" where
  "storeCA pk ca keyPath certPath fs = (case os_mkdirAll (path_dir keyPath) fs of
     Some err \<Rightarrow> (Some (Wrapf ''failed to create CA directory: %w'' [] err), fs)
   | None \<Rightarrow> (case os_writeFile keyPath (pk_pemEncode pk ''RSA PRIVATE KEY'' (pk_marshalKey pk (ca_privateKey ca))) 0x180 fs of
       (Some err, fs1) \<Rightarrow> (Some (Wrapf ''failed to write CA private key: %w'' [] err), fs1)
     | (None, fs1) \<Rightarrow> (case os_writeFile certPath (pk_pemEncode pk ''CERTIFICATE'' (pk_raw pk (ca_cert ca))) 0x1A4 fs1 of
         (Some err, fs2) \<Rightarrow> (Some (Wrapf ''failed to write CA certificate: %w'' [] err), fs2)
       | (None, fs2) \<Rightarrow> (None, fs2))))"

definition generateCA :: "('cert, 'key) pki \<Rightarrow> nat \<Rightarrow> go_error + ('cert, 'key) ca" where
  "generateCA pk rnd = (case pk_generate pk rnd of
     Inl err \<Rightarrow> Inl err
   | Inr (cert, key) \<Rightarrow> Inr \<lparr>ca_cert = cert, ca_privateKey = key\<rparr>)"

definition loadOrGenerateCA ::
  "('cert, 'key) pki \<Rightarrow> nat \<Rightarrow> string \<Rightarrow> string \<Rightarrow> fsys \<Rightarrow> (go_error + ('cert, 'key) ca) \<times> fsys" where
  "loadOrGenerateCA pk rnd keyPath certPath fs =
     (case (os_stat keyPath fs, os_stat certPath fs) of
        (Inr _, Inr _) \<Rightarrow> (loadCA pk fs keyPath certPath, fs)
      | _ \<Rightarrow> (case generateCA pk rnd of
          Inl err \<Rightarrow> (Inl err, fs)
        | Inr ca \<Rightarrow> (case storeCA pk ca keyPath certPath fs of
            (Some err, fs') \<Rightarrow> (Inl err, fs')
          | (None, fs') \<Rightarrow> (Inr ca, fs'))))"

subsection \<open>Lemmas\<close>

definition ca_matches :: "('cert, 'key) pki \<Rightarrow> ('cert, 'key) ca \<Rightarrow> bool" where
  "ca_matches pk ca \<longleftrightarrow> pk_certKey pk (ca_cert ca) = Some (pk_publicKey pk (ca_privateKey ca))"

definition accessible :: "string \<Rightarrow> fsys \<Rightarrow> bool" where
  "accessible path fs \<longleftrightarrow> fs_fails fs ''read'' path = None \<and> fs_fails fs ''stat'' path = None"

lemma loadCA_matches: "loadCA pk fs keyPath certPath = Inr ca \<Longrightarrow> ca_matches pk ca"
  by (auto simp: loadCA_def ca_matches_def split: sum.splits option.splits if_splits intro: prod_eqI)

lemma generateCA_matches: "pki_ok pk \<Longrightarrow> generateCA pk rnd = Inr ca \<Longrightarrow> ca_matches pk ca"
  by (auto simp: generateCA_def pki_ok_def ca_matches_def split: sum.splits)

lemma storeCA_files:
  assumes "storeCA pk ca keyPath certPath fs = (None, fs')" "keyPath \<noteq> certPath"
  shows "map_get (fs_files fs') keyPath =
      Some (pk_pemEncode pk ''RSA PRIVATE KEY'' (pk_marshalKey pk (ca_privateKey ca)), createMode keyPath 0x180 fs)"
    and "\<exists>mode. map_get (fs_files fs') certPath = Some (pk_pemEncode pk ''CERTIFICATE'' (pk_raw pk (ca_cert ca)), mode)"
    and "fs_fails fs' = fs_fails fs"
proof -
  let ?key = "pk_pemEncode pk ''RSA PRIVATE KEY'' (pk_marshalKey pk (ca_privateKey ca))"
    and ?cert = "pk_pemEncode pk ''CERTIFICATE'' (pk_raw pk (ca_cert ca))"
  obtain e1 fs1 where w1: "os_writeFile keyPath ?key 0x180 fs = (e1, fs1)" by fastforce
  obtain e2 fs2 where w2: "os_writeFile certPath ?cert 0x1A4 fs1 = (e2, fs2)" by fastforce
  have w: "os_writeFile keyPath ?key 0x180 fs = (None, fs1)" "os_writeFile certPath ?cert 0x1A4 fs1 = (None, fs')"
    using assms(1) w1 w2 by (cases e1; cases e2; simp add: storeCA_def split: option.splits)+
  note f = os_writeFile_ok [OF w(1)] os_writeFile_ok [OF w(2)]
  show "map_get (fs_files fs') keyPath =
      Some (pk_pemEncode pk ''RSA PRIVATE KEY'' (pk_marshalKey pk (ca_privateKey ca)), createMode keyPath 0x180 fs)"
    "\<exists>mode. map_get (fs_files fs') certPath = Some (pk_pemEncode pk ''CERTIFICATE'' (pk_raw pk (ca_cert ca)), mode)"
    "fs_fails fs' = fs_fails fs"
    using f assms(2) by simp_all
qed

lemma load_stored:
  assumes "pki_ok pk" "ca_matches pk ca" "storeCA pk ca keyPath certPath fs = (None, fs')" "keyPath \<noteq> certPath"
    "accessible keyPath fs" "accessible certPath fs"
  shows "loadCA pk fs' keyPath certPath = Inr ca"
proof -
  note files = storeCA_files [OF assms(3,4)]
  have key: "loadCAKey pk fs' keyPath = Inr (ca_privateKey ca)"
    using assms(1,5) files(1,3)
    by (simp add: loadCAKey_def os_readFile_def pki_ok_def accessible_def)
  obtain mode where cert: "map_get (fs_files fs') certPath =
      Some (pk_pemEncode pk ''CERTIFICATE'' (pk_raw pk (ca_cert ca)), mode)"
    using files(2) by blast
  then have "os_readFile certPath fs' = Inr (pk_pemEncode pk ''CERTIFICATE'' (pk_raw pk (ca_cert ca)))"
    using assms(6) files(3) by (simp add: os_readFile_def accessible_def)
  then show ?thesis using assms(1,2) key by (simp add: loadCA_def pki_ok_def ca_matches_def)
qed

lemma loadOrGenerateCA_cases:
  assumes "loadOrGenerateCA pk rnd keyPath certPath fs = (Inr ca, fs')"
  shows "loadCA pk fs keyPath certPath = Inr ca \<and> fs' = fs \<and>
      (\<exists>m m'. os_stat keyPath fs = Inr m \<and> os_stat certPath fs = Inr m') \<or>
    generateCA pk rnd = Inr ca \<and> storeCA pk ca keyPath certPath fs = (None, fs') \<and>
      \<not> (\<exists>m m'. os_stat keyPath fs = Inr m \<and> os_stat certPath fs = Inr m')"
proof (cases "\<exists>m m'. os_stat keyPath fs = Inr m \<and> os_stat certPath fs = Inr m'")
  case True
  then show ?thesis using assms by (auto simp: loadOrGenerateCA_def)
next
  case False
  have generate: "loadOrGenerateCA pk rnd keyPath certPath fs = (case generateCA pk rnd of
      Inl err \<Rightarrow> (Inl err, fs)
    | Inr ca \<Rightarrow> (case storeCA pk ca keyPath certPath fs of (Some err, fs') \<Rightarrow> (Inl err, fs') | (None, fs') \<Rightarrow> (Inr ca, fs')))"
    using False by (cases "os_stat keyPath fs"; cases "os_stat certPath fs") (simp_all add: loadOrGenerateCA_def)
  obtain a where a: "generateCA pk rnd = Inr a"
    using assms generate by (cases "generateCA pk rnd") auto
  obtain e fs1 where "storeCA pk a keyPath certPath fs = (e, fs1)" by fastforce
  then have "generateCA pk rnd = Inr ca \<and> storeCA pk ca keyPath certPath fs = (None, fs')"
    using assms generate a by (cases e) auto
  then show ?thesis using False by blast
qed

subsection \<open>Properties\<close>

text \<open>C28: The authority is stable. When \<open>LoadOrGenerateCA\<close> succeeds, its key belongs to its
  certificate, and every later start that can read the two files comes up with the very same
  authority and leaves the files alone: what was generated is what is loaded.\<close>

theorem authority_is_stable:
  assumes "pki_ok pk" "keyPath \<noteq> certPath" "accessible keyPath fs" "accessible certPath fs"
    and "loadOrGenerateCA pk rnd keyPath certPath fs = (Inr ca, fs')"
  shows "ca_matches pk ca \<and> loadOrGenerateCA pk rnd' keyPath certPath fs' = (Inr ca, fs')"
proof -
  consider (loaded) "loadCA pk fs keyPath certPath = Inr ca" "fs' = fs" "\<exists>m m'. os_stat keyPath fs = Inr m \<and> os_stat certPath fs = Inr m'"
    | (generated) "generateCA pk rnd = Inr ca" "storeCA pk ca keyPath certPath fs = (None, fs')"
    using loadOrGenerateCA_cases [OF assms(5)] by metis
  then show ?thesis
  proof cases
    case loaded
    then show ?thesis using loadCA_matches by (auto simp: loadOrGenerateCA_def)
  next
    case generated
    have ok: "ca_matches pk ca" using generateCA_matches assms(1) generated(1) by blast
    note files = storeCA_files [OF generated(2) assms(2)]
    have "\<exists>m m'. os_stat keyPath fs' = Inr m \<and> os_stat certPath fs' = Inr m'"
      using files assms(3,4) by (auto simp: os_stat_def accessible_def)
    then show ?thesis
      using ok load_stored [OF assms(1) ok generated(2) assms(2-4)] by (auto simp: loadOrGenerateCA_def)
  qed
qed

definition demo_pki :: "(nat, nat) pki" where
  "demo_pki = \<lparr>pk_pemDecode = (\<lambda>s. case s of [] \<Rightarrow> None | _ # b \<Rightarrow> Some b), pk_pemEncode = (\<lambda>_ b. CHR ''-'' # b),
     pk_parseKey = (\<lambda>b. Inr (length b)), pk_marshalKey = (\<lambda>n. replicate n (CHR ''k'')),
     pk_parseCert = (\<lambda>b. Inr (length b)), pk_raw = (\<lambda>n. replicate n (CHR ''c'')),
     pk_certKey = (\<lambda>n. Some (int n, 65537)), pk_publicKey = (\<lambda>n. (int n, 65537)), pk_generate = (\<lambda>r. Inr (r, r))\<rparr>"

lemma demo_pki_ok: "pki_ok demo_pki"
  by (simp add: pki_ok_def demo_pki_def)

definition demo_fs :: fsys where
  "demo_fs = \<lparr>fs_files = [], fs_umask = 0x12, fs_fails = (\<lambda>_ _. None)\<rparr>"

theorem authority_is_stable_witness:
  "fst (loadOrGenerateCA demo_pki 9 ''/ca/key.pem'' ''/ca/cert.pem''
     (snd (loadOrGenerateCA demo_pki 3 ''/ca/key.pem'' ''/ca/cert.pem'' demo_fs))) =
   Inr \<lparr>ca_cert = 3, ca_privateKey = 3\<rparr>"
proof -
  have "fst (loadOrGenerateCA demo_pki 3 ''/ca/key.pem'' ''/ca/cert.pem'' demo_fs) = Inr \<lparr>ca_cert = 3, ca_privateKey = 3\<rparr>"
    by (simp add: loadOrGenerateCA_def os_stat_def demo_fs_def generateCA_def demo_pki_def storeCA_def os_mkdirAll_def
          os_writeFile_def)
  then have "loadOrGenerateCA demo_pki 3 ''/ca/key.pem'' ''/ca/cert.pem'' demo_fs =
      (Inr \<lparr>ca_cert = 3, ca_privateKey = 3\<rparr>, snd (loadOrGenerateCA demo_pki 3 ''/ca/key.pem'' ''/ca/cert.pem'' demo_fs))"
    by (simp add: prod_eq_iff)
  from authority_is_stable [OF demo_pki_ok _ _ _ this] show ?thesis by (simp add: accessible_def demo_fs_def)
qed

text \<open>An existing private key can be overwritten, and then its file keeps the permissions it had.
  Whenever the certificate cannot be examined, be it missing or only unreadable, a new authority is
  generated; if it can be stored, the old key is gone and the new one lies in a file with the old
  file's mode: the 0600 of \<open>StoreCA\<close> applies to files it creates.\<close>

theorem regenerated_key_keeps_old_mode:
  assumes "map_get (fs_files fs) keyPath = Some (oldKey, mode)" "os_stat certPath fs = Inl err" "keyPath \<noteq> certPath"
    and "loadOrGenerateCA pk rnd keyPath certPath fs = (Inr ca, fs')"
  shows "generateCA pk rnd = Inr ca \<and> map_get (fs_files fs') keyPath =
    Some (pk_pemEncode pk ''RSA PRIVATE KEY'' (pk_marshalKey pk (ca_privateKey ca)), mode)"
proof -
  have g: "generateCA pk rnd = Inr ca" "storeCA pk ca keyPath certPath fs = (None, fs')"
    using loadOrGenerateCA_cases [OF assms(4)] assms(2) by auto
  then show ?thesis using storeCA_files(1) [OF g(2) assms(3)] assms(1) by (simp add: createMode_def)
qed

theorem regenerated_key_keeps_old_mode_witness:
  "map_get (fs_files (snd (loadOrGenerateCA demo_pki 3 ''/ca/key.pem'' ''/ca/cert.pem''
     (demo_fs\<lparr>fs_files := [(''/ca/key.pem'', (''-kkkk'', 0x1A4))]\<rparr>)))) ''/ca/key.pem'' = Some (''-kkk'', 0x1A4)"
proof -
  let ?fs = "demo_fs\<lparr>fs_files := [(''/ca/key.pem'', (''-kkkk'', 0x1A4))]\<rparr>"
  have r: "fst (loadOrGenerateCA demo_pki 3 ''/ca/key.pem'' ''/ca/cert.pem'' ?fs) = Inr \<lparr>ca_cert = 3, ca_privateKey = 3\<rparr>"
    by (simp add: loadOrGenerateCA_def os_stat_def demo_fs_def generateCA_def demo_pki_def storeCA_def os_mkdirAll_def
          os_writeFile_def)
  have "loadOrGenerateCA demo_pki 3 ''/ca/key.pem'' ''/ca/cert.pem'' ?fs =
      (Inr \<lparr>ca_cert = 3, ca_privateKey = 3\<rparr>, snd (loadOrGenerateCA demo_pki 3 ''/ca/key.pem'' ''/ca/cert.pem'' ?fs))"
    using r by (simp add: prod_eq_iff)
  from regenerated_key_keeps_old_mode [OF _ _ _ this, of "''-kkkk''" "0x1A4" "Sentinel ErrNotExist"]
  show ?thesis by (simp add: os_stat_def demo_fs_def demo_pki_def numeral_3_eq_3)
qed

end
