(* ===== verification/Orchestrate.thy ===== *)
theory Orchestrate
  imports Control Cert_Cache Proxy_Handlers
begin

text \<open>
  \<open>internal/orchestrate/setup.go\<close>: from a configuration to the daemon's registries. The services
  map is visited in the order of its list; the secrets come from the operating system \<open>os\<close>, the
  trust anchors from \<open>trust\<close>. The set of header names is a list without repetitions.
\<close>

subsection \<open>Loading the services\<close>

definition configPolicy :: "service_config \<Rightarrow> policy" where
  "configPolicy sc = \<lparr>allowedMethods = sc_allowedMethods sc, allowedPaths = sc_allowedPaths sc,
     maxBodyBytes = sc_maxBodyBytes sc, clientGroups = sc_clientGroups sc,
     dropPatterns = sc_drop sc, stripHeaders = sc_strip sc\<rparr>"

definition configService :: "string \<Rightarrow> service_config \<Rightarrow> service" where
  "configService name sc = \<lparr>svcName = name, hostPattern = sc_hostPattern sc,
     authStrategyRef = canonicalAuthRef (sc_authStrategy sc) (sc_headerName sc), headerName = sc_headerName sc,
     credentialRef = sc_credentialRef sc, placeholder = sc_placeholder sc,
     svcPolicy = applyDefaults (Some (configPolicy sc))\<rparr>"

record loading =
  ld_registry :: registry
  ld_count :: nat
  ld_headers :: "string list"
  ld_credentials :: "string list"

definition startLoading :: loading where
  "startLoading = \<lparr>ld_registry = newRegistry, ld_count = 0, ld_headers = [], ld_credentials = []\<rparr>"

definition collectHeader :: "string \<Rightarrow> string list \<Rightarrow> string list" where
  "collectHeader ref headers = (case headerNameFromRef ref of
     (name, True) \<Rightarrow> List.insert name headers | _ \<Rightarrow> headers)"

text \<open>One turn of the loop, and the loop, which skips the services the filter does not name.\<close>

definition loadService :: "string \<Rightarrow> service_config \<Rightarrow> loading \<Rightarrow> go_error + loading" where
  "loadService name sc ld = (let svc = configService name sc in
     case reg_register (Some svc) (ld_registry ld) of
       (Some err, _) \<Rightarrow> Inl (Wrapf ''failed to register service %s: %w'' [Str name] err)
     | (None, r) \<Rightarrow> Inr \<lparr>ld_registry = r, ld_count = Suc (ld_count ld),
         ld_headers = collectHeader (authStrategyRef svc) (ld_headers ld),
         ld_credentials = ld_credentials ld @ (if sc_credentialRef sc \<noteq> '''' then [sc_credentialRef sc] else [])\<rparr>)"

definition serviceSelected :: "string list \<Rightarrow> string \<Rightarrow> bool" where
  "serviceSelected names name \<longleftrightarrow> names = [] \<or> name \<in> set names"

fun loadServices :: "string list \<Rightarrow> (string \<times> service_config) list \<Rightarrow> loading \<Rightarrow> go_error + loading" where
  "loadServices names [] ld = Inr ld"
| "loadServices names ((name, sc) # svcs) ld =
     (if \<not> serviceSelected names name then loadServices names svcs ld
      else case loadService name sc ld of
        Inl err \<Rightarrow> Inl err
      | Inr ld' \<Rightarrow> loadServices names svcs ld')"

definition grantableHeaders :: "grantable_config list \<Rightarrow> string list \<Rightarrow> string list" where
  "grantableHeaders gs headers = foldl (\<lambda>hs g.
     collectHeader (canonicalAuthRef (gc_authStrategy g) (gc_headerName g)) hs) headers gs"

subsection \<open>Validation at startup\<close>

definition parseSecretProvider :: "string \<Rightarrow> string" where
  "parseSecretProvider ref = (case index_byte (CHR '':'') ref of None \<Rightarrow> '''' | Some i \<Rightarrow> take i ref)"

definition validateService :: "auth_registry \<Rightarrow> secret_registry \<Rightarrow> service \<Rightarrow> go_error list" where
  "validateService auths secrets svc =
     (let strategyRef = (if authStrategyRef svc = '''' then ''bearer'' else authStrategyRef svc);
          provider = parseSecretProvider (credentialRef svc) in
      (if authHas strategyRef auths then []
       else [Errorf ''auth strategy %q not registered (host pattern: %s)'' [Str strategyRef, Str (hostPattern svc)]]) @
      (if credentialRef svc = '''' then []
       else if provider = ''''
         then [Errorf ''invalid credential_ref format %q (host pattern: %s)'' [Str (credentialRef svc), Str (hostPattern svc)]]
       else if \<not> hasProvider provider secrets
         then [Errorf ''secret provider %q not found for credential_ref %q (host pattern: %s)''
                 [Str provider, Str (credentialRef svc), Str (hostPattern svc)]]
       else []) @
      (if hostPattern svc = '''' then [Errorf ''host pattern is empty'' []] else []) @
      (case svcPolicy svc of
         Some p \<Rightarrow> if maxBodyBytes p < 0
           then [Errorf ''max_body_bytes is negative (host pattern: %s)'' [Str (hostPattern svc)]] else []
       | None \<Rightarrow> []))"

definition validateConfiguration :: "registry \<Rightarrow> auth_registry \<Rightarrow> secret_registry \<Rightarrow> go_error option" where
  "validateConfiguration r auths secrets =
     (let errs = concat (map (validateService auths secrets) (reg_listAll r)) in
      if errs \<noteq> [] then Some (Errorf ''configuration validation failed: %d error(s): %v'' [Num (int (length errs)), Errs errs])
      else None)"

subsection \<open>Setup\<close>

definition registerStrategies :: "string list \<Rightarrow> auth_registry" where
  "registerStrategies headers =
     foldl (\<lambda>a h. authRegister (''header:'' @ h) (HeaderStrategy h) a)
       (authRegister ''bearer'' BearerStrategy newAuthRegistry) headers"

record setup_config =
  su_config :: config
  su_serviceNames :: "string list"

record ('pool, 'key) setup_result =
  sur_registry :: registry
  sur_secrets :: secret_registry
  sur_auths :: auth_registry
  sur_certCache :: "'key cert_cache"
  sur_enforcer :: enforcer
  sur_upstreamCAs :: "'pool option"

definition setupDaemon ::
  "os \<Rightarrow> go_ctx \<Rightarrow> (string \<Rightarrow> go_error + 'pool option) \<Rightarrow> string \<Rightarrow> setup_config \<Rightarrow> go_error + ('pool, 'key) setup_result" where
  "setupDaemon os ctx trust caRaw cfg = (let names = su_serviceNames cfg; c = su_config cfg in
     case loadServices names (cfg_services c) startLoading of
       Inl err \<Rightarrow> Inl err
     | Inr ld \<Rightarrow> (case newEnforcer (cfg_grantable c) of
         Inl err \<Rightarrow> Inl (Wrapf ''failed to build grant enforcer: %w'' [] err)
       | Inr enforcer \<Rightarrow>
           if names \<noteq> [] \<and> ld_count ld = 0
           then Inl (Errorf ''no services found matching filter: %v'' [Strs names])
           else (case (if ld_credentials ld \<noteq> []
                       then preloadSecrets os ctx (ld_credentials ld) (registerBuiltins newSecretRegistry)
                       else (None, registerBuiltins newSecretRegistry)) of
             (Some err, _) \<Rightarrow> Inl (Wrapf ''failed to preload secrets at startup: %w'' [] err)
           | (None, secrets) \<Rightarrow>
               (let auths = registerStrategies (grantableHeaders (cfg_grantable c) (ld_headers ld)) in
                case (if 0 < ld_count ld then validateConfiguration (ld_registry ld) auths secrets else None) of
                  Some err \<Rightarrow> Inl (Wrapf ''configuration validation failed: %w'' [] err)
                | None \<Rightarrow> (case upstreamCAPool trust c of
                    Inl err \<Rightarrow> Inl (Wrapf ''failed to load upstream trust anchors: %w'' [] err)
                  | Inr pool \<Rightarrow> Inr \<lparr>sur_registry = ld_registry ld, sur_secrets = secrets, sur_auths = auths,
                      sur_certCache = newCertCache caRaw, sur_enforcer = enforcer, sur_upstreamCAs = pool\<rparr>)))))"

subsection \<open>Lemmas\<close>

definition selectedServices :: "setup_config \<Rightarrow> (string \<times> service_config) list" where
  "selectedServices cfg = filter (\<lambda>(name, _). serviceSelected (su_serviceNames cfg) name) (cfg_services (su_config cfg))"

lemma AList_update_fresh: "map_get m k = None \<Longrightarrow> map_put k v m = m @ [(k, v)]"
  by (induction m) (auto split: if_splits)

lemma loadService_ok:
  assumes "loadService name sc ld = Inr ld'"
  shows "ld_registry ld' = ld_registry ld @ [(serviceKey (sc_hostPattern sc), configService name sc)]"
    and "ld_count ld' = Suc (ld_count ld)"
    and "ld_credentials ld' = ld_credentials ld @ [sc_credentialRef sc]"
    and "serviceValidate (Some (configService name sc)) = None"
    and "registry_ok (ld_registry ld) \<Longrightarrow> registry_ok (ld_registry ld')"
proof -
  let ?s = "configService name sc"
  have v: "serviceValidate (Some ?s) = None" "map_get (ld_registry ld) (serviceKey (sc_hostPattern sc)) = None"
    using assms by (auto simp: loadService_def reg_register_def configService_def Let_def split: option.splits if_splits)
  have "credentialRef ?s \<noteq> ''''" using v(1) by (auto simp: serviceValidate_def split: if_splits)
  then have c: "sc_credentialRef sc \<noteq> ''''" by (simp add: configService_def)
  have r: "ld_registry ld' = map_put (serviceKey (sc_hostPattern sc)) ?s (ld_registry ld)"
    using assms v by (auto simp: loadService_def reg_register_def configService_def Let_def split: option.splits if_splits)
  then show "ld_registry ld' = ld_registry ld @ [(serviceKey (sc_hostPattern sc), ?s)]"
    using v(2) by (simp add: AList_update_fresh)
  show "ld_count ld' = Suc (ld_count ld)" "ld_credentials ld' = ld_credentials ld @ [sc_credentialRef sc]"
    using assms c by (auto simp: loadService_def Let_def split: prod.splits option.splits)
  show "serviceValidate (Some ?s) = None" using v(1) .
  show "registry_ok (ld_registry ld')" if "registry_ok (ld_registry ld)"
    using registry_ok_put [OF that v(1)] r by (simp add: configService_def)
qed

lemma loadServices_ok:
  "loadServices names svcs ld = Inr ld' \<Longrightarrow> registry_ok (ld_registry ld) \<Longrightarrow>
     (let sel = filter (\<lambda>(name, _). serviceSelected names name) svcs in
      ld_registry ld' = ld_registry ld @ map (\<lambda>(name, sc). (serviceKey (sc_hostPattern sc), configService name sc)) sel \<and>
      ld_count ld' = ld_count ld + length sel \<and>
      ld_credentials ld' = ld_credentials ld @ map (\<lambda>(_, sc). sc_credentialRef sc) sel \<and>
      registry_ok (ld_registry ld'))"
proof (induction svcs arbitrary: ld)
  case (Cons nsc svcs)
  obtain name sc where n: "nsc = (name, sc)" by fastforce
  show ?case
  proof (cases "serviceSelected names name")
    case False
    then have "loadServices names svcs ld = Inr ld'" using Cons.prems(1) n by simp
    from Cons.IH [OF this Cons.prems(2)] show ?thesis using n False by (auto simp: Let_def)
  next
    case True
    obtain ld1 where ld1: "loadService name sc ld = Inr ld1" "loadServices names svcs ld1 = Inr ld'"
      using Cons.prems(1) n True by (auto split: sum.splits)
    note one = loadService_ok [OF ld1(1)]
    show ?thesis using Cons.IH [OF ld1(2) one(5) [OF Cons.prems(2)]] one(1-3) n True by (auto simp: Let_def)
  qed
qed (simp add: Let_def)

lemma registerStrategies_get:
  "map_get (registerStrategies hs) k =
     (if \<exists>h \<in> set hs. k = ''header:'' @ h then Some (HeaderStrategy (drop 7 k))
      else if k = ''bearer'' then Some BearerStrategy else None)"
proof -
  have "map_get (foldl (\<lambda>a h. authRegister (p @ h) (HeaderStrategy h) a) a0 hs) k =
      (if k \<in> (\<lambda>h. p @ h) ` set hs then Some (HeaderStrategy (drop (length p) k)) else map_get a0 k)" for p a0
    by (induction hs arbitrary: a0) (auto simp: authRegister_def)
  from this [of "''header:''"] show ?thesis
    by (simp only: registerStrategies_def) (auto simp: authRegister_def newAuthRegistry_def image_iff)
qed

lemma collectHeader_set:
  "set (collectHeader ref hs) = (case cut_prefix ref headerPrefix of Some n \<Rightarrow> insert n (set hs) | None \<Rightarrow> set hs)"
  by (cases "cut_prefix ref headerPrefix") (simp_all add: collectHeader_def headerNameFromRef_def)

lemma grantableHeaders_set:
  "set (grantableHeaders gs hs) = set hs \<union>
     {n. \<exists>g \<in> set gs. canonicalAuthRef (gc_authStrategy g) (gc_headerName g) = headerPrefix @ n}"
proof -
  have "set (foldl (\<lambda>hs g. collectHeader (canonicalAuthRef (gc_authStrategy g) (gc_headerName g)) hs) hs gs) =
      set hs \<union> {n. \<exists>g \<in> set gs. cut_prefix (canonicalAuthRef (gc_authStrategy g) (gc_headerName g)) headerPrefix = Some n}"
    by (induction gs arbitrary: hs) (auto simp: collectHeader_set split: option.splits)
  then show ?thesis by (simp add: grantableHeaders_def cut_prefix_Some_iff)
qed

lemma reg_lookup_in: "reg_lookup h r = Inr s \<Longrightarrow> s \<in> set (reg_listAll r)"
  by (auto simp: reg_lookup_def reg_listAll_def Let_def split: option.splits
      dest!: find_SomeD map_of_SomeD intro: rev_image_eqI)

lemma setup_cases:
  assumes "setupDaemon os ctx trust caRaw cfg = Inr res"
  shows "\<exists>ld. loadServices (su_serviceNames cfg) (cfg_services (su_config cfg)) startLoading = Inr ld \<and>
    newEnforcer (cfg_grantable (su_config cfg)) = Inr (sur_enforcer res) \<and>
    (ld_credentials ld \<noteq> [] \<longrightarrow>
      preloadSecrets os ctx (ld_credentials ld) (registerBuiltins newSecretRegistry) = (None, sur_secrets res)) \<and>
    (ld_count ld > 0 \<longrightarrow> validateConfiguration (ld_registry ld) (sur_auths res) (sur_secrets res) = None) \<and>
    sur_registry res = ld_registry ld \<and>
    sur_auths res = registerStrategies (grantableHeaders (cfg_grantable (su_config cfg)) (ld_headers ld))"
  using assms unfolding setupDaemon_def Let_def
  by (auto split: sum.splits option.splits prod.splits if_splits)

lemma setup_services:
  assumes "setupDaemon os ctx trust caRaw cfg = Inr res"
  shows "reg_listAll (sur_registry res) = map (\<lambda>(name, sc). configService name sc) (selectedServices cfg)"
    and "registry_ok (sur_registry res)"
proof -
  obtain ld where ld: "loadServices (su_serviceNames cfg) (cfg_services (su_config cfg)) startLoading = Inr ld"
      "sur_registry res = ld_registry ld"
    using setup_cases [OF assms] by metis
  show "reg_listAll (sur_registry res) = map (\<lambda>(name, sc). configService name sc) (selectedServices cfg)"
    "registry_ok (sur_registry res)"
    using loadServices_ok [OF ld(1)] registry_ok_new ld(2)
    by (auto simp: startLoading_def newRegistry_def Let_def reg_listAll_def selectedServices_def)
qed

lemma setup_secrets_cached:
  assumes "setupDaemon os ctx trust caRaw cfg = Inr res" "svc \<in> set (reg_listAll (sur_registry res))"
  shows "\<exists>v. v \<noteq> '''' \<and> credentialRef svc \<noteq> '''' \<and> map_get (sr_cache (sur_secrets res)) (credentialRef svc) = Some v"
proof -
  obtain ld where ld: "loadServices (su_serviceNames cfg) (cfg_services (su_config cfg)) startLoading = Inr ld"
      "ld_credentials ld \<noteq> [] \<longrightarrow>
        preloadSecrets os ctx (ld_credentials ld) (registerBuiltins newSecretRegistry) = (None, sur_secrets res)"
    using setup_cases [OF assms(1)] by metis
  have creds: "ld_credentials ld = map (\<lambda>(_, sc). sc_credentialRef sc) (selectedServices cfg)"
    using loadServices_ok [OF ld(1)] registry_ok_new by (simp add: startLoading_def selectedServices_def Let_def)
  obtain name sc where "(name, sc) \<in> set (selectedServices cfg)" "svc = configService name sc"
    using assms(2) setup_services(1) [OF assms(1)] by auto
  then have mem: "credentialRef svc \<in> set (ld_credentials ld)" unfolding creds configService_def by force
  have "ld_credentials ld \<noteq> []" using mem by auto
  note pre = ld(2) [rule_format, OF this]
  obtain errs s' where "preloadLoop os ctx (ld_credentials ld) (registerBuiltins newSecretRegistry) = (errs, s')" by fastforce
  then have loop: "preloadLoop os ctx (ld_credentials ld) (registerBuiltins newSecretRegistry) = (errs, sur_secrets res)"
      "errs = []"
    using pre by (auto simp: preloadSecrets_def split: if_splits)
  have "cache_ok (registerBuiltins newSecretRegistry)" by code_simp
  from preloadLoop_spec [OF this loop(1)] loop(2) mem
  have "cache_ok (sur_secrets res)" "credentialRef svc \<noteq> ''''" "map_get (sr_cache (sur_secrets res)) (credentialRef svc) \<noteq> None"
    by auto
  then show ?thesis using cache_ok_get by blast
qed

lemma setup_strategy:
  assumes "setupDaemon os ctx trust caRaw cfg = Inr res" "svc \<in> set (reg_listAll (sur_registry res))"
  shows "\<exists>st. authGet (authStrategyRef svc) (sur_auths res) = Inr st \<and>
    (st = HeaderStrategy '''' \<longrightarrow> authStrategyRef svc = ''header:'')"
proof -
  obtain ld where ld: "loadServices (su_serviceNames cfg) (cfg_services (su_config cfg)) startLoading = Inr ld"
      "ld_count ld > 0 \<longrightarrow> validateConfiguration (ld_registry ld) (sur_auths res) (sur_secrets res) = None"
      "sur_registry res = ld_registry ld"
      "sur_auths res = registerStrategies (grantableHeaders (cfg_grantable (su_config cfg)) (ld_headers ld))"
    using setup_cases [OF assms(1)] by metis
  have "ld_count ld = length (ld_registry ld)"
    using loadServices_ok [OF ld(1)] registry_ok_new by (simp add: startLoading_def newRegistry_def Let_def)
  then have "0 < ld_count ld" using assms(2) ld(3) by (auto simp: reg_listAll_def)
  then have "validateService (sur_auths res) (sur_secrets res) svc = []"
    using ld(2,3) assms(2) by (auto simp: validateConfiguration_def Let_def split: if_splits)
  moreover have "authStrategyRef svc \<noteq> ''''"
  proof -
    obtain k where "(k, svc) \<in> set (sur_registry res)" using assms(2) by (auto simp: reg_listAll_def)
    then have "serviceValidate (Some svc) = None"
      using setup_services(2) [OF assms(1)] by (auto simp: registry_ok_def list_all_iff)
    then show ?thesis by (auto simp: serviceValidate_def split: if_splits)
  qed
  ultimately have "map_get (sur_auths res) (authStrategyRef svc) \<noteq> None"
    by (auto simp: validateService_def authHas_def Let_def split: if_splits)
  then show ?thesis
    unfolding ld(4) authGet_def registerStrategies_get by (auto split: if_splits)
qed

subsection \<open>Properties\<close>

text \<open>C14: A daemon that starts can inject. After a successful setup the registry holds exactly the
  selected services of the configuration, and a request for any of them is never refused by the
  injection handler: no secret is unavailable and no strategy unknown, whatever becomes of the
  sources of the secrets, and the registries stay as they are. The one exception is a service whose
  strategy is \<open>header:\<close> without a name.\<close>

theorem started_daemon_can_inject:
  assumes "setupDaemon os ctx trust caRaw cfg = Inr res"
    and "px_registry (fl_px fl) = sur_registry res" "px_secrets (fl_px fl) = Some (sur_secrets res)"
    and "px_auths (fl_px fl) = Some (sur_auths res)"
    and "\<And>svc. reg_lookup (rq_host (fl_req fl)) (sur_registry res) = Inr svc \<Longrightarrow> authStrategyRef svc \<noteq> ''header:''"
  shows "reg_listAll (sur_registry res) = map (\<lambda>(name, sc). configService name sc) (selectedServices cfg) \<and>
    snd (authHandler ev fl) = None \<and> px_registry (fl_px (fst (authHandler ev fl))) = sur_registry res \<and>
    px_secrets (fl_px (fst (authHandler ev fl))) = Some (sur_secrets res)"
proof (cases "reg_lookup (rq_host (fl_req fl)) (sur_registry res)")
  case (Inl err)
  then show ?thesis using assms setup_services(1) [OF assms(1)] by (simp add: authHandler_def Let_def)
next
  case (Inr svc)
  note mem = reg_lookup_in [OF Inr]
  obtain v where v: "v \<noteq> ''''" "credentialRef svc \<noteq> ''''"
      "map_get (sr_cache (sur_secrets res)) (credentialRef svc) = Some v"
    using setup_secrets_cached [OF assms(1) mem] by blast
  have fetch: "secretFetch o' c' (credentialRef svc) (sur_secrets res) = (Inr v, sur_secrets res)" for o' c'
    using secretFetch_hit [OF v(2,3)] .
  obtain st where st: "authGet (authStrategyRef svc) (sur_auths res) = Inr st" "st \<noteq> HeaderStrategy ''''"
    using setup_strategy [OF assms(1) mem] assms(5) [OF Inr] by blast
  have applied: "fst (strategyApply st v h) = None" for h
    using v(1) st(2) by (cases st) (simp_all add: strategyApply_def bearerApply_def headerApply_def)
  have "snd (injectCredential ev svc (sur_secrets res) (sur_auths res) f) = None \<and>
      px_registry (fl_px (fst (injectCredential ev svc (sur_secrets res) (sur_auths res) f))) = px_registry (fl_px f) \<and>
      px_secrets (fl_px (fst (injectCredential ev svc (sur_secrets res) (sur_auths res) f))) = Some (sur_secrets res)" for f
    using applied [of "rq_header (fl_req f)"] fetch st(1)
    by (auto simp: injectCredential_def fl_audit_def fl_header_def Let_def split: prod.splits option.splits)
  then show ?thesis
    using Inr assms(2-4) setup_services(1) [OF assms(1)] by (simp add: authHandler_def fl_audit_def Let_def)
qed

definition demo_setup :: setup_config where
  "demo_setup = \<lparr>su_config = demo_config, su_serviceNames = []\<rparr>"

definition demo_result :: "(unit, nat) setup_result" where
  "demo_result = \<lparr>sur_registry = [(''api.example.com'', configService ''demo'' demo_service_config)],
     sur_secrets = (registerBuiltins newSecretRegistry)\<lparr>sr_cache := [(''env:KEY'', ''s3cret'')]\<rparr>,
     sur_auths = [(''bearer'', BearerStrategy)], sur_certCache = newCertCache ''ca'',
     sur_enforcer = demo_enforcer, sur_upstreamCAs = None\<rparr>"

lemma demo_setup_result: "setupDaemon demo_os None (\<lambda>_. Inr None) ''ca'' demo_setup = Inr demo_result"
proof -
  let ?ld = "\<lparr>ld_registry = [(''api.example.com'', configService ''demo'' demo_service_config)], ld_count = 1,
      ld_headers = [], ld_credentials = [''env:KEY'']\<rparr>"
  have "loadServices [] (cfg_services demo_config) startLoading = Inr ?ld" by code_simp
  moreover have "newEnforcer (cfg_grantable demo_config) = Inr demo_enforcer"
    using demo_enforcer_eq by (simp add: demo_config_def setDefaults_def)
  moreover have "preloadSecrets demo_os None [''env:KEY''] (registerBuiltins newSecretRegistry) = (None, sur_secrets demo_result)"
    by code_simp
  moreover have "registerStrategies (grantableHeaders (cfg_grantable demo_config) []) = sur_auths demo_result" by code_simp
  moreover have "validateConfiguration (ld_registry ?ld) (sur_auths demo_result) (sur_secrets demo_result) = None" by code_simp
  moreover have "upstreamCAPool (\<lambda>_. Inr None) demo_config = Inr (None :: unit option)"
    by (simp add: upstreamCAPool_def demo_config_def setDefaults_def)
  ultimately show ?thesis by (simp add: setupDaemon_def demo_setup_def demo_result_def Let_def)
qed

definition demo_daemon_flow :: "string \<Rightarrow> flow" where
  "demo_daemon_flow host = \<lparr>fl_px = \<lparr>px_registry = sur_registry demo_result, px_secrets = Some (sur_secrets demo_result),
       px_auths = Some (sur_auths demo_result),
       px_audit = \<lparr>al_enabled = False, al_writer = (\<lambda>_. None), al_attempts = 0, al_entries = []\<rparr>,
       px_warned = [], px_colorIndex = 0\<rparr>,
     fl_meta = None, fl_req = demo_request\<lparr>rq_host := host\<rparr>\<rparr>"

theorem started_daemon_can_inject_witness:
  "snd (authHandler demo_env (demo_daemon_flow ''api.example.com'')) = None"
proof -
  have "authStrategyRef svc \<noteq> ''header:''" if "reg_lookup ''api.example.com'' (sur_registry demo_result) = Inr svc" for svc
    using reg_lookup_in [OF that] by (auto simp: demo_result_def reg_listAll_def configService_def demo_service_config_def
        canonicalAuthRef_def headerPrefix_def)
  then show ?thesis
    using started_daemon_can_inject [OF demo_setup_result, of "demo_daemon_flow ''api.example.com''" demo_env]
    by (simp add: demo_daemon_flow_def)
qed

text \<open>Every grant has a strategy, unless the operator approved one that does not exist. After a
  successful setup, a service the enforcer authorizes has a registered strategy exactly if its
  strategy is \<open>bearer\<close> or names a header; a pairing with any other strategy passes configuration
  validation, setup and authorization, and its requests then fail with 502.\<close>

theorem granted_strategy_registered_iff:
  assumes "setupDaemon os ctx trust caRaw cfg = Inr res" "authorize (sur_enforcer res) (Some (toService req)) = None"
  shows "authHas (authStrategyRef (toService req)) (sur_auths res) \<longleftrightarrow>
    authStrategyRef (toService req) = ''bearer'' \<or> has_prefix (authStrategyRef (toService req)) ''header:''"
proof -
  let ?ref = "authStrategyRef (toService req)"
  obtain ld :: loading where ld: "newEnforcer (cfg_grantable (su_config cfg)) = Inr (sur_enforcer res)"
      "sur_auths res = registerStrategies (grantableHeaders (cfg_grantable (su_config cfg)) (ld_headers ld))"
    using setup_cases [OF assms(1)] by metis
  obtain p where "map_get (sur_enforcer res) (serviceIdentity (toService req)) = Some p"
    using assms(2) by (auto simp: authorize_None_iff)
  then obtain g where g: "g \<in> set (cfg_grantable (su_config cfg))" "serviceIdentity (toService req) = grantableIdentity g"
    using newEnforcer_ok [OF ld(1)] unfolding enforcer_ok_def by blast
  then have ref: "?ref = canonicalAuthRef (gc_authStrategy g) (gc_headerName g)"
    using toService_identity [of req] by (simp add: grantableIdentity_def identityOf_def toService_def)
  have "n \<in> set (grantableHeaders (cfg_grantable (su_config cfg)) (ld_headers ld))" if "?ref = ''header:'' @ n" for n
    using g(1) that ref by (auto simp: grantableHeaders_set headerPrefix_def)
  then show ?thesis
    unfolding ld(2) authHas_def registerStrategies_get has_prefix_iff by (auto split: if_splits)
qed

theorem granted_strategy_registered_iff_witness:
  "authHas (authStrategyRef (toService demo_grant)) (sur_auths demo_result)"
proof -
  have "authorize (sur_enforcer demo_result) (Some (toService demo_grant)) = None"
    by (simp add: demo_result_def) code_simp
  moreover have "authStrategyRef (toService demo_grant) = ''bearer''" by code_simp
  ultimately show ?thesis using granted_strategy_registered_iff [OF demo_setup_result] by blast
qed

text \<open>The strategy \<open>header:\<close> starts and never works. A service configured with it is accepted by
  setup, its strategy counts as registered, and every request that reaches the injection handler
  for it is answered with 502.\<close>

theorem nameless_header_strategy_always_fails:
  assumes "setupDaemon os ctx trust caRaw cfg = Inr res"
    and "px_registry (fl_px fl) = sur_registry res" "px_secrets (fl_px fl) = Some (sur_secrets res)"
    and "px_auths (fl_px fl) = Some (sur_auths res)"
    and "reg_lookup (rq_host (fl_req fl)) (sur_registry res) = Inr svc" "authStrategyRef svc = ''header:''"
    and "placeholder svc = ''''"
  shows "snd (authHandler ev fl) = Some (NewResponse 502 ''Authentication failed'')"
proof -
  note mem = reg_lookup_in [OF assms(5)]
  obtain v where v: "v \<noteq> ''''" "credentialRef svc \<noteq> ''''"
      "map_get (sr_cache (sur_secrets res)) (credentialRef svc) = Some v"
    using setup_secrets_cached [OF assms(1) mem] by blast
  obtain st where st: "authGet (authStrategyRef svc) (sur_auths res) = Inr st"
    using setup_strategy [OF assms(1) mem] by blast
  obtain ld :: loading where "sur_auths res = registerStrategies (grantableHeaders (cfg_grantable (su_config cfg)) (ld_headers ld))"
    using setup_cases [OF assms(1)] by metis
  then have "st = HeaderStrategy ''''"
    using st assms(6) by (auto simp: authGet_def registerStrategies_get split: if_splits)
  then have "snd (injectCredential ev svc (sur_secrets res) (sur_auths res) f) = Some (NewResponse 502 ''Authentication failed'')" for f
    using v secretFetch_hit [OF v(2,3)] st
    by (simp add: injectCredential_def strategyApply_def headerApply_def authFailed_def Let_def)
  then show ?thesis using assms by (simp add: authHandler_def Let_def)
qed

definition nameless_setup :: setup_config where
  "nameless_setup = \<lparr>su_config = demo_config\<lparr>cfg_services := [(''demo'', demo_service_config\<lparr>sc_authStrategy := ''header:''\<rparr>)],
     cfg_grantable := []\<rparr>, su_serviceNames = []\<rparr>"

theorem nameless_header_strategy_always_fails_witness:
  "\<exists>res :: (unit, nat) setup_result. setupDaemon demo_os None (\<lambda>_. Inr None) ''ca'' nameless_setup = Inr res \<and>
     snd (authHandler demo_env ((demo_daemon_flow ''api.example.com'')\<lparr>fl_px := (fl_px (demo_daemon_flow ''api.example.com''))
       \<lparr>px_registry := sur_registry res, px_secrets := Some (sur_secrets res), px_auths := Some (sur_auths res)\<rparr>\<rparr>)) =
       Some (NewResponse 502 ''Authentication failed'')"
proof -
  let ?svc = "configService ''demo'' (demo_service_config\<lparr>sc_authStrategy := ''header:''\<rparr>)"
  let ?res = "demo_result\<lparr>sur_registry := [(''api.example.com'', ?svc)], sur_auths := registerStrategies [''''], sur_enforcer := []\<rparr>"
  let ?ld = "\<lparr>ld_registry = [(''api.example.com'', ?svc)], ld_count = 1, ld_headers = [''''], ld_credentials = [''env:KEY'']\<rparr>"
  have facts: "loadServices [] [(''demo'', demo_service_config\<lparr>sc_authStrategy := ''header:''\<rparr>)] startLoading = Inr ?ld"
    "preloadSecrets demo_os None [''env:KEY''] (registerBuiltins newSecretRegistry) = (None, sur_secrets demo_result)"
    "grantableHeaders [] [''''] = ['''']"
    "validateConfiguration (ld_registry ?ld) (registerStrategies ['''']) (sur_secrets demo_result) = None"
    "reg_lookup ''api.example.com'' [(''api.example.com'', ?svc)] = Inr ?svc"
    "authStrategyRef ?svc = ''header:''" "placeholder ?svc = ''''"
    by code_simp+
  have "upstreamCAPool (\<lambda>_. Inr None) demo_config = Inr (None :: unit option)"
    by (simp add: upstreamCAPool_def demo_config_def setDefaults_def)
  then have res: "setupDaemon demo_os None (\<lambda>_. Inr None) ''ca'' nameless_setup = Inr ?res"
    using facts(1-4)
    by (simp add: setupDaemon_def nameless_setup_def demo_result_def newEnforcer_def upstreamCAPool_def Let_def)
  show ?thesis
    by (rule exI [of _ ?res], rule conjI [OF res], rule nameless_header_strategy_always_fails [OF res, where svc = ?svc])
      (use facts(5-7) in \<open>simp_all add: demo_daemon_flow_def\<close>)
qed

end
