(* ===== verification/Proxy_Lifecycle.thy ===== *)
theory Proxy_Lifecycle
  imports Proxy_Server Config
begin

text \<open>
  The construction and the life of the proxy server: \<open>proxy/server.go\<close> (\<open>New\<close>, \<open>NewWithMITM\<close>,
  \<open>NewExamineProxy\<close>, \<open>Start\<close>, \<open>Stop\<close>, \<open>Addr\<close>, \<open>ProxyURL\<close>), \<open>proxy/upstream_trust.go\<close>,
  \<open>proxy/url.go\<close> and \<open>util/proxy_url.go\<close>. A server is what it hands to goproxy and to
  \<open>http.Server\<close>: its handlers, the state they start from, its transport, and where it is in its
  life. An \<open>http.Server\<close> that has been shut down does not serve again: \<open>Serve\<close> closes the
  listener and returns \<open>ErrServerClosed\<close>. goproxy's own transport is an argument. Functions
  registered with the shutdown manager are named by the constructors of \<open>hook\<close>.
\<close>

subsection \<open>Outbound trust\<close>

record 'pool tls_config =
  tls_rootCAs :: "'pool option"
  tls_minVersion :: nat
  tls_insecureSkipVerify :: bool

record 'pool transport =
  tr_tls :: "'pool tls_config option"
  tr_upstreamProxy :: bool
  tr_idleConnTimeout :: nat
  tr_responseHeaderTimeout :: nat
  tr_expectContinueTimeout :: nat
  tr_disableKeepAlives :: bool
  tr_maxIdleConns :: nat
  tr_maxIdleConnsPerHost :: nat
  tr_maxConnsPerHost :: nat
  tr_forceAttemptHTTP2 :: bool

record 'pool goproxy_server =
  gs_transport :: "'pool transport"
  gs_allowHTTP2 :: bool
  gs_verbose :: bool

definition versionTLS12 :: nat where
  "versionTLS12 = 0x0303"

definition upstreamTLSConfig :: "'pool option \<Rightarrow> 'pool tls_config" where
  "upstreamTLSConfig rootCAs =
     \<lparr>tls_rootCAs = rootCAs, tls_minVersion = versionTLS12, tls_insecureSkipVerify = False\<rparr>"

text \<open>Timeouts in seconds.\<close>

definition configureTransport :: "'pool option \<Rightarrow> 'pool goproxy_server \<Rightarrow> 'pool goproxy_server" where
  "configureTransport upstreamCAs p = p\<lparr>gs_allowHTTP2 := False,
     gs_transport := (gs_transport p)\<lparr>tr_tls := Some (upstreamTLSConfig upstreamCAs), tr_upstreamProxy := False,
       tr_idleConnTimeout := 600, tr_responseHeaderTimeout := 300, tr_expectContinueTimeout := 30,
       tr_disableKeepAlives := False, tr_maxIdleConns := 100, tr_maxIdleConnsPerHost := 10,
       tr_maxConnsPerHost := 0, tr_forceAttemptHTTP2 := False\<rparr>\<rparr>"

subsection \<open>Servers\<close>

datatype hook = CloseAudit | StopProxy | StopControl | RemoveCADir | CloseLogFile | WriteHAR string | PrintSummary

text \<open>The shutdown manager, if there is one, as the functions registered with it so far.\<close>

definition registerHook :: "hook \<Rightarrow> hook list option \<Rightarrow> hook list option" where
  "registerHook h mgr = map_option (\<lambda>hs. hs @ [h]) mgr"

record 'pool proxy_server =
  ps_address :: string
  ps_port :: int
  ps_secret :: string
  ps_goproxy :: "'pool goproxy_server"
  ps_connect :: connect_handler
  ps_request :: handler
  ps_start :: px
  ps_staticSecrets :: "string list"
  ps_started :: bool
  ps_listener :: "string option"
  ps_httpClosed :: bool
  ps_serving :: bool

definition noHandlers :: handler where
  "noHandlers fl = (fl, None)"

definition tunnelAll :: connect_handler where
  "tunnelAll host fl = (fl, OkConnect, None)"

definition disabledAudit :: audit_logger where
  "disabledAudit = \<lparr>al_enabled = False, al_writer = (\<lambda>_. None), al_attempts = 0, al_entries = []\<rparr>"

definition startState :: "registry \<Rightarrow> secret_registry option \<Rightarrow> auth_registry option \<Rightarrow> audit_logger \<Rightarrow> px" where
  "startState r secrets auths audit = \<lparr>px_registry = r, px_secrets = secrets, px_auths = auths, px_audit = audit,
     px_warned = [], px_colorIndex = 0\<rparr>"

definition newTransparent ::
  "'pool goproxy_server \<Rightarrow> config \<Rightarrow> hook list option \<Rightarrow> 'pool proxy_server \<times> hook list option" where
  "newTransparent gs0 cfg mgr =
     (\<lparr>ps_address = srv_address (cfg_server cfg), ps_port = srv_port (cfg_server cfg), ps_secret = '''',
       ps_goproxy = (configureTransport None gs0)\<lparr>gs_verbose := (lc_level (cfg_logging cfg) = ''debug'')\<rparr>,
       ps_connect = tunnelAll, ps_request = noHandlers, ps_start = startState [] None None disabledAudit,
       ps_staticSecrets = [], ps_started = False, ps_listener = None, ps_httpClosed = False, ps_serving = False\<rparr>,
      registerHook StopProxy mgr)"

record 'pool mitm_options =
  mo_secrets :: "secret_registry option"
  mo_auths :: "auth_registry option"
  mo_audit :: "audit_logger option"
  mo_upstreamCAs :: "'pool option"

definition noOptions :: "'pool mitm_options" where
  "noOptions = \<lparr>mo_secrets = None, mo_auths = None, mo_audit = None, mo_upstreamCAs = None\<rparr>"

text \<open>The audit sink: an injected one, or one of the server's own, which is disabled when it cannot be
  created and closed at shutdown.\<close>

definition auditSink ::
  "(string \<Rightarrow> go_error + (nat \<Rightarrow> go_error option)) \<Rightarrow> (nat \<Rightarrow> go_error option) \<Rightarrow> audit_config \<Rightarrow> audit_logger option
   \<Rightarrow> hook list option \<Rightarrow> audit_logger \<times> hook list option" where
  "auditSink openFile stdout ac injected mgr = (case injected of
     Some l \<Rightarrow> (l, mgr)
   | None \<Rightarrow> (case newAuditLogger openFile stdout (ac_enabled ac) (ac_path ac) of
         Inl _ \<Rightarrow> disabledAudit | Inr l \<Rightarrow> l,
       registerHook CloseAudit mgr))"

definition newWithMITM ::
  "goproxy \<Rightarrow> env \<Rightarrow> (string \<Rightarrow> go_error + (nat \<Rightarrow> go_error option)) \<Rightarrow> (nat \<Rightarrow> go_error option)
   \<Rightarrow> 'pool goproxy_server \<Rightarrow> config \<Rightarrow> registry \<Rightarrow> string \<Rightarrow> 'pool mitm_options option \<Rightarrow> hook list option
   \<Rightarrow> go_error + 'pool proxy_server \<times> hook list option" where
  "newWithMITM gp ev openFile stdout gs0 cfg registry proxySecret opts mgr =
     (if proxySecret = ''''
      then Inl (Errorf ''refusing to start credential-injecting proxy without a proxy access secret: generate one with GenerateProxySecret()'' [])
      else (let options = (case opts of Some o' \<Rightarrow> o' | None \<Rightarrow> noOptions) in
        case auditSink openFile stdout (cfg_audit cfg) (mo_audit options) mgr of (audit, mgr') \<Rightarrow>
          Inr (\<lparr>ps_address = srv_address (cfg_server cfg), ps_port = srv_port (cfg_server cfg), ps_secret = proxySecret,
             ps_goproxy = configureTransport (mo_upstreamCAs options) (gs0\<lparr>gs_verbose := (lc_level (cfg_logging cfg) = ''debug'')\<rparr>),
             ps_connect = proxyAuthConnectHandler proxySecret (connectHandler ev),
             ps_request = mitmPipeline gp ev proxySecret,
             ps_start = startState registry (mo_secrets options) (mo_auths options) audit,
             ps_staticSecrets = proxySecret # map (\<lambda>(_, sc). sc_placeholder sc) (cfg_services cfg),
             ps_started = False, ps_listener = None, ps_httpClosed = False, ps_serving = False\<rparr>,
            registerHook StopProxy mgr')))"

text \<open>The examining proxy: \<open>examineConnect\<close> and \<open>examineRequest\<close> are the handlers of package
  \<open>examine\<close>, \<open>recording\<close> says whether a recorder was given.\<close>

definition newExamineProxy ::
  "goproxy \<Rightarrow> env \<Rightarrow> connect_handler \<Rightarrow> handler \<Rightarrow> bool \<Rightarrow> 'pool goproxy_server \<Rightarrow> config \<Rightarrow> string \<Rightarrow> hook list option
   \<Rightarrow> go_error + 'pool proxy_server \<times> hook list option" where
  "newExamineProxy gp ev examineConnect examineRequest recording gs0 cfg proxySecret mgr =
     (if proxySecret = ''''
      then Inl (Errorf ''refusing to start examine proxy without a proxy access secret: generate one with GenerateProxySecret()'' [])
      else Inr (\<lparr>ps_address = srv_address (cfg_server cfg), ps_port = srv_port (cfg_server cfg), ps_secret = proxySecret,
             ps_goproxy = configureTransport None (gs0\<lparr>gs_verbose := False\<rparr>),
             ps_connect = proxyAuthConnectHandler proxySecret examineConnect,
             ps_request = examinePipeline gp ev proxySecret examineRequest recording,
             ps_start = startState [] None None disabledAudit, ps_staticSecrets = [],
             ps_started = False, ps_listener = None, ps_httpClosed = False, ps_serving = False\<rparr>,
            registerHook StopProxy mgr))"

text \<open>What the server's recorder scrubs, given the secrets resolved by now.\<close>

definition serverSources :: "'pool proxy_server \<Rightarrow> secret_registry option \<Rightarrow> string list list" where
  "serverSources s secrets = ps_staticSecrets s # (case secrets of Some r \<Rightarrow> [resolvedValues r] | None \<Rightarrow> [])"

subsection \<open>Start and Stop\<close>

definition getProxyURLString :: "string \<Rightarrow> int \<Rightarrow> string" where
  "getProxyURLString host port = ''http://'' @ host @ '':'' @ show_int port"

definition startServer :: "(string \<Rightarrow> go_error + string) \<Rightarrow> 'pool proxy_server \<Rightarrow> go_error option \<times> 'pool proxy_server" where
  "startServer listen s =
     (if ps_started s then (Some (Errorf ''server already started'' []), s)
      else case listen (ps_address s @ '':'' @ show_int (ps_port s)) of
        Inl err \<Rightarrow> (Some (Wrapf ''failed to start listener: %w'' [] err), s)
      | Inr addr \<Rightarrow> (None, s\<lparr>ps_listener := Some addr, ps_started := True, ps_serving := \<not> ps_httpClosed s\<rparr>))"

text \<open>\<open>http.Server.Shutdown\<close> closes the server at once; its error is that of the context.\<close>

definition stopServer :: "go_error option \<Rightarrow> 'pool proxy_server \<Rightarrow> go_error option \<times> 'pool proxy_server" where
  "stopServer shutdownErr s =
     (if \<not> ps_started s then (None, s)
      else case shutdownErr of
        Some err \<Rightarrow> (Some (Wrapf ''failed to shutdown server: %w'' [] err), s\<lparr>ps_httpClosed := True, ps_serving := False\<rparr>)
      | None \<Rightarrow> (None, s\<lparr>ps_httpClosed := True, ps_serving := False, ps_started := False\<rparr>))"

definition serverAddr :: "'pool proxy_server \<Rightarrow> string" where
  "serverAddr s = (case ps_listener s of Some addr \<Rightarrow> addr | None \<Rightarrow> '''')"

definition proxyURL :: "'pool proxy_server \<Rightarrow> string" where
  "proxyURL s = (let addr = serverAddr s in
     if addr = '''' then ''''
     else if ps_secret s \<noteq> '''' then ''http://'' @ proxyAuthUser @ '':'' @ ps_secret s @ ''@'' @ addr
     else ''http://'' @ addr)"

text \<open>Every sequence of starts and stops.\<close>

inductive server_life :: "'pool proxy_server \<Rightarrow> 'pool proxy_server \<Rightarrow> bool" for s0 where
  life_new: "server_life s0 s0"
| life_start: "server_life s0 s \<Longrightarrow> server_life s0 (snd (startServer listen s))"
| life_stop: "server_life s0 s \<Longrightarrow> server_life s0 (snd (stopServer err s))"

inductive_cases server_lifeE: "server_life s0 s"

subsection \<open>Lemmas\<close>

text \<open>What each constructor guarantees of the server's outbound side and of its gate.\<close>

definition trusts_only :: "'pool option \<Rightarrow> 'pool proxy_server \<Rightarrow> bool" where
  "trusts_only roots s \<longleftrightarrow> \<not> gs_allowHTTP2 (ps_goproxy s) \<and> \<not> tr_upstreamProxy (gs_transport (ps_goproxy s)) \<and>
     tr_tls (gs_transport (ps_goproxy s)) =
       Some \<lparr>tls_rootCAs = roots, tls_minVersion = versionTLS12, tls_insecureSkipVerify = False\<rparr>"

definition gated :: "'pool proxy_server \<Rightarrow> bool" where
  "gated s \<longleftrightarrow> ps_secret s \<noteq> '''' \<and>
     (\<forall>fl. \<not> validateProxyAuth (fl_req fl) (ps_secret s) \<longrightarrow>
        (\<forall>host. ps_connect s host fl = (fl, RejectConnect, Some (Challenge proxyAuthChallenge))) \<and>
        (\<not> authenticated fl \<longrightarrow> ps_request s fl = (fl, Some (Challenge proxyAuthChallenge))))"

lemma proxyAuthHandler_challenges:
  "\<not> authenticated fl \<Longrightarrow> \<not> validateProxyAuth (fl_req fl) secret \<Longrightarrow>
     proxyAuthHandler secret fl = (fl, Some (Challenge proxyAuthChallenge))"
  by (auto simp: proxyAuthHandler_def authenticated_def split: option.splits)

lemma gp_run_challenges:
  assumes "goproxy_ok gp" "\<not> authenticated fl" "\<not> validateProxyAuth (fl_req fl) secret"
  shows "gp_run gp (proxyAuthHandler secret # hs) fl = (fl, Some (Challenge proxyAuthChallenge))"
  using proxyAuthHandler_challenges [OF assms(2,3)] assms(1) by (simp add: goproxy_ok_def)

lemma connect_challenges:
  "\<not> validateProxyAuth (fl_req fl) secret \<Longrightarrow>
     proxyAuthConnectHandler secret next_handler host fl = (fl, RejectConnect, Some (Challenge proxyAuthChallenge))"
  by (simp add: proxyAuthConnectHandler_def)

lemma server_life_inv:
  assumes "server_life s0 s" "\<not> ps_started s0" "\<not> ps_serving s0"
  shows "(ps_serving s \<longrightarrow> ps_started s \<and> \<not> ps_httpClosed s \<and> ps_listener s \<noteq> None) \<and>
    (ps_started s \<longrightarrow> ps_listener s \<noteq> None) \<and> ps_secret s = ps_secret s0 \<and>
    ps_request s = ps_request s0 \<and> ps_connect s = ps_connect s0 \<and> ps_goproxy s = ps_goproxy s0"
  using assms
proof (induction rule: server_life.induct)
  case life_new
  then show ?case by simp
next
  case (life_start s listen)
  then show ?case by (auto simp: startServer_def split: sum.splits)
next
  case (life_stop s err)
  then show ?case by (auto simp: stopServer_def split: option.splits)
qed

lemma httpClosed_kept:
  assumes "server_life s s'" "ps_httpClosed s" "\<not> ps_serving s"
  shows "ps_httpClosed s' \<and> \<not> ps_serving s'"
  using assms
proof (induction rule: server_life.induct)
  case life_new
  then show ?case by simp
next
  case (life_start s listen)
  then show ?case by (auto simp: startServer_def split: sum.splits)
next
  case (life_stop s err)
  then show ?case by (auto simp: stopServer_def split: option.splits)
qed

lemma mitm_life:
  assumes gp: "goproxy_ok gp"
    and new: "newWithMITM gp ev openFile stdout gs0 cfg r secret opts mgr = Inr (s, mgr')"
    and life: "server_life s s'"
  shows "gated s' \<and> trusts_only (case opts of Some opt \<Rightarrow> mo_upstreamCAs opt | None \<Rightarrow> None) s'"
proof -
  have s: "ps_secret s = secret" "secret \<noteq> ''''" "ps_connect s = proxyAuthConnectHandler secret (connectHandler ev)"
      "ps_request s = mitmPipeline gp ev secret" "\<not> ps_started s" "\<not> ps_serving s"
      "trusts_only (case opts of Some opt \<Rightarrow> mo_upstreamCAs opt | None \<Rightarrow> None) s"
    using new by (auto simp: newWithMITM_def Let_def trusts_only_def configureTransport_def upstreamTLSConfig_def
        noOptions_def split: prod.splits if_splits option.splits)
  show ?thesis
    using server_life_inv [OF life s(5,6)] s gp_run_challenges [OF gp] connect_challenges
    by (auto simp: gated_def trusts_only_def mitmPipeline_def mitmHandlers_def)
qed

lemma examine_life:
  assumes gp: "goproxy_ok gp"
    and new: "newExamineProxy gp ev examineConnect examineRequest recording gs0 cfg secret mgr = Inr (t, mgr')"
    and life: "server_life t t'"
  shows "gated t' \<and> trusts_only None t'"
proof -
  have s: "ps_secret t = secret" "secret \<noteq> ''''" "ps_connect t = proxyAuthConnectHandler secret examineConnect"
      "ps_request t = examinePipeline gp ev secret examineRequest recording" "\<not> ps_started t" "\<not> ps_serving t"
      "trusts_only None t"
    using new by (auto simp: newExamineProxy_def trusts_only_def configureTransport_def upstreamTLSConfig_def split: if_splits)
  show ?thesis
    using server_life_inv [OF life s(5,6)] s gp_run_challenges [OF gp] connect_challenges
    by (auto simp: gated_def trusts_only_def examinePipeline_def)
qed

lemma transparent_life:
  assumes life: "server_life (fst (newTransparent gs0 cfg mgr)) u"
  shows "trusts_only None u"
proof -
  have "\<not> ps_started (fst (newTransparent gs0 cfg mgr))" "\<not> ps_serving (fst (newTransparent gs0 cfg mgr))"
      "trusts_only None (fst (newTransparent gs0 cfg mgr))"
    by (auto simp: newTransparent_def trusts_only_def configureTransport_def upstreamTLSConfig_def)
  then show ?thesis using server_life_inv [OF life] by (auto simp: trusts_only_def)
qed

subsection \<open>Properties\<close>


definition insecure_goproxy :: "unit goproxy_server" where
  "insecure_goproxy = \<lparr>gs_transport = \<lparr>tr_tls = Some \<lparr>tls_rootCAs = None, tls_minVersion = 0, tls_insecureSkipVerify = True\<rparr>,
       tr_upstreamProxy = True, tr_idleConnTimeout = 0, tr_responseHeaderTimeout = 0, tr_expectContinueTimeout = 0,
       tr_disableKeepAlives = False, tr_maxIdleConns = 0, tr_maxIdleConnsPerHost = 0, tr_maxConnsPerHost = 0,
       tr_forceAttemptHTTP2 = True\<rparr>, gs_allowHTTP2 = True, gs_verbose = False\<rparr>"


text \<open>A server that was stopped never serves again. After an orderly \<open>Stop\<close> a further
  \<open>Start\<close> binds the listener and reports success, but the shut-down \<open>http.Server\<close> refuses to
  serve, now and after any further starts and stops. \<open>Addr\<close>, documented to be empty when the server
  is not started, still names the old listener after \<open>Stop\<close>.\<close>

theorem stopped_server_never_serves_again:
  assumes "startServer listen s = (None, s1)" "stopServer None s1 = (None, s2)"
  shows "(\<exists>addr. ps_listener s1 = Some addr \<and> serverAddr s2 = addr) \<and> \<not> ps_started s2 \<and>
    (\<forall>s3. server_life s2 s3 \<longrightarrow> \<not> ps_serving s3) \<and>
    (\<forall>listen2 addr2. listen2 (ps_address s @ '':'' @ show_int (ps_port s)) = Inr addr2 \<longrightarrow>
       (\<exists>s3. startServer listen2 s2 = (None, s3) \<and> ps_started s3 \<and> serverAddr s3 = addr2 \<and> \<not> ps_serving s3))"
proof -
  obtain addr where s1: "s1 = s\<lparr>ps_listener := Some addr, ps_started := True, ps_serving := \<not> ps_httpClosed s\<rparr>"
    using assms(1) by (auto simp: startServer_def split: if_splits sum.splits)
  have s2: "s2 = s1\<lparr>ps_httpClosed := True, ps_serving := False, ps_started := False\<rparr>"
    using assms(2) s1 by (auto simp: stopServer_def)
  show ?thesis
    using httpClosed_kept [of s2] s1 s2 by (auto simp: serverAddr_def startServer_def)
qed

definition demo_server :: "unit proxy_server" where
  "demo_server = fst (newTransparent insecure_goproxy demo_config None)"

theorem stopped_server_never_serves_again_witness:
  "\<exists>s1 s2 s3. startServer (\<lambda>_. Inr ''127.0.0.1:8443'') demo_server = (None, s1) \<and> ps_serving s1 \<and>
     stopServer None s1 = (None, s2) \<and> serverAddr s2 = ''127.0.0.1:8443'' \<and>
     startServer (\<lambda>_. Inr ''127.0.0.1:9000'') s2 = (None, s3) \<and> \<not> ps_serving s3"
proof -
  obtain s1 where s1: "startServer (\<lambda>_. Inr ''127.0.0.1:8443'') demo_server = (None, s1)" "ps_serving s1"
      "ps_listener s1 = Some ''127.0.0.1:8443''" "ps_started s1"
    by (simp add: startServer_def demo_server_def newTransparent_def)
  obtain s2 where s2: "stopServer None s1 = (None, s2)" using s1(4) by (simp add: stopServer_def)
  note gone = stopped_server_never_serves_again [OF s1(1) s2]
  from gone [THEN conjunct2, THEN conjunct2, THEN conjunct2, rule_format, of "\<lambda>_. Inr ''127.0.0.1:9000''", OF refl]
  obtain s3 where "startServer (\<lambda>_. Inr ''127.0.0.1:9000'') s2 = (None, s3)" "\<not> ps_serving s3" by auto
  moreover from gone s1(3) have "serverAddr s2 = ''127.0.0.1:8443''" by simp
  ultimately show ?thesis using s1(1,2) s2
    by (intro exI [of _ s1] exI [of _ s2] exI [of _ s3] conjI)
qed

end
