(* ===== verification/Color_Handler.thy ===== *)
theory Color_Handler
  imports Log Errors
begin

text \<open>
  \<open>internal/log/color_handler.go\<close>: the two \<open>slog\<close> handlers of the program. The text handler draws a
  record for the terminal, with ANSI colors; the logfmt handler writes it as pairs. A record's time
  comes as its two formatted texts. An attribute value is what \<open>slog.Value.Any\<close> returns; a value of
  another type is \<open>VAny\<close> with the text of \<open>%v\<close>. The order in which the text handler ranges over its
  attribute map is the argument \<open>iter\<close>; the quoting of a text with bytes outside ASCII is the
  argument \<open>quoteUnicode\<close>. \<open>WithAttrs\<close> appends to the slice of its receiver; a logger is derived by
  one chain of calls, so no two handlers share the slice's spare room and it is a list.
\<close>

subsection \<open>Colors\<close>

definition esc :: char where
  "esc = CHR 0x1B"

definition reset :: string where
  "reset = esc # ''[0m''"

definition bold :: string where
  "bold = esc # ''[1m''"

definition dim :: string where
  "dim = esc # ''[2m''"

definition red :: string where
  "red = esc # ''[31m''"

definition green :: string where
  "green = esc # ''[32m''"

definition yellow :: string where
  "yellow = esc # ''[33m''"

definition blue :: string where
  "blue = esc # ''[34m''"

definition magenta :: string where
  "magenta = esc # ''[35m''"

definition cyan :: string where
  "cyan = esc # ''[36m''"

definition gray :: string where
  "gray = esc # ''[90m''"

definition fg24 :: "int \<Rightarrow> int \<Rightarrow> int \<Rightarrow> string" where
  "fg24 r g b = esc # ''[38;2;'' @ show_int r @ '';'' @ show_int g @ '';'' @ show_int b @ ''m''"

definition bg24 :: "int \<Rightarrow> int \<Rightarrow> int \<Rightarrow> string" where
  "bg24 r g b = esc # ''[48;2;'' @ show_int r @ '';'' @ show_int g @ '';'' @ show_int b @ ''m''"

text \<open>Division truncates toward zero.\<close>

definition darken :: "color \<Rightarrow> color" where
  "darken c = (case c of (r, g, b) \<Rightarrow> (sgn r * (\<bar>r\<bar> div 3), sgn g * (\<bar>g\<bar> div 3), sgn b * (\<bar>b\<bar> div 3)))"

subsection \<open>Attributes and records\<close>

type_synonym attr_map = "(string, attr_val) gomap"

definition value_text :: "attr_val \<Rightarrow> string" where
  "value_text v = (case v of VStr s \<Rightarrow> s | VInt n \<Rightarrow> show_int n | VFloat t _ \<Rightarrow> t
     | VBool b \<Rightarrow> (if b then ''true'' else ''false'') | VStrs ss \<Rightarrow> CHR ''['' # str_join '' '' ss @ '']'' | VAny t \<Rightarrow> t)"

definition getString :: "attr_map \<Rightarrow> string \<Rightarrow> string" where
  "getString attrs key = (case map_get attrs key of Some v \<Rightarrow> value_text v | None \<Rightarrow> '''')"

definition getInt :: "attr_map \<Rightarrow> string \<Rightarrow> int" where
  "getInt attrs key = (case map_get attrs key of Some (VInt n) \<Rightarrow> n | Some (VFloat _ n) \<Rightarrow> n | _ \<Rightarrow> 0)"

definition getStringSlice :: "attr_map \<Rightarrow> string \<Rightarrow> string list" where
  "getStringSlice attrs key = (case map_get attrs key of Some (VStrs ss) \<Rightarrow> ss | _ \<Rightarrow> [])"

definition getBool :: "attr_map \<Rightarrow> string \<Rightarrow> bool" where
  "getBool attrs key = (case map_get attrs key of Some (VBool b) \<Rightarrow> b | _ \<Rightarrow> False)"

definition getColorFromAttrs :: "attr_map \<Rightarrow> (string \<times> string) option" where
  "getColorFromAttrs attrs =
     (let r = getInt attrs ''color_r''; g = getInt attrs ''color_g''; b = getInt attrs ''color_b'' in
      if r = 0 \<and> g = 0 \<and> b = 0 then None
      else case darken (r, g, b) of (dr, dg, db) \<Rightarrow> Some (fg24 r g b, bg24 dr dg db))"

record slog_record =
  lr_clock :: string
  lr_stamp :: string
  lr_level :: int
  lr_message :: string
  lr_attrs :: "(string \<times> attr_val) list"

record log_handler =
  lh_minLevel :: "int option"
  lh_attrs :: "(string \<times> attr_val) list"
  lh_group :: string

definition levelDebug :: int where "levelDebug = -4"
definition levelInfo :: int where "levelInfo = 0"
definition levelWarn :: int where "levelWarn = 4"
definition levelError :: int where "levelError = 8"

definition newHandler :: "int option \<Rightarrow> log_handler" where
  "newHandler level = \<lparr>lh_minLevel = level, lh_attrs = [], lh_group = ''''\<rparr>"

definition handlerEnabled :: "log_handler \<Rightarrow> int \<Rightarrow> bool" where
  "handlerEnabled h level \<longleftrightarrow> (case lh_minLevel h of Some l \<Rightarrow> l | None \<Rightarrow> levelInfo) \<le> level"

definition withAttrs :: "(string \<times> attr_val) list \<Rightarrow> log_handler \<Rightarrow> log_handler" where
  "withAttrs attrs h = h\<lparr>lh_attrs := lh_attrs h @ attrs\<rparr>"

definition withGroup :: "string \<Rightarrow> log_handler \<Rightarrow> log_handler" where
  "withGroup name h = h\<lparr>lh_group := (if lh_group h \<noteq> '''' then lh_group h @ ''.'' @ name else name)\<rparr>"

subsection \<open>The text handler\<close>

definition newline :: char where
  "newline = CHR 0x0A"

text \<open>The tag of a line: the last four bytes of the request id on the connection's color.\<close>

definition shortID :: "string \<Rightarrow> string" where
  "shortID requestID = (if length requestID > 4 then drop (length requestID - 4) requestID else requestID)"

definition corrTag :: "string \<Rightarrow> string \<times> string \<Rightarrow> string \<Rightarrow> string" where
  "corrTag kind color requestID = (case color of (colorFg, colorBg) \<Rightarrow>
     colorBg @ colorFg @ bold @ ''['' @ kind @ '':'' @ shortID requestID @ '']'' @ reset @ '' '')"

definition missingColor :: string where
  "missingColor = red @ ''[ERR: no color]'' @ reset @ '' ''"

definition examineTag :: "string \<Rightarrow> attr_map \<Rightarrow> string" where
  "examineTag kind attrs = (case getColorFromAttrs attrs of
     None \<Rightarrow> missingColor | Some color \<Rightarrow> corrTag kind color (getString attrs ''request_id''))"

text \<open>A labelled block below the line.\<close>

definition block :: "string \<Rightarrow> string \<Rightarrow> string \<Rightarrow> string" where
  "block label color s = newline # ''    '' @ dim @ label @ '': '' @ reset @ color @ s @ reset"

definition listBlock :: "string \<Rightarrow> string \<Rightarrow> attr_map \<Rightarrow> string" where
  "listBlock key color attrs = (let ss = getStringSlice attrs key in
     if ss = [] then '''' else block key color (str_join '', '' ss))"

definition indentLines :: "string \<Rightarrow> string" where
  "indentLines s = concat (map (\<lambda>c. if c = newline then newline # ''    '' else [c]) s)"

definition bodyBlocks :: "attr_map \<Rightarrow> string" where
  "bodyBlocks attrs = (let body = getString attrs ''body''; bodyErr = getString attrs ''body_error'' in
     (if body = '''' then '''' else block ''body'' gray (indentLines body)) @
     (if bodyErr = '''' then '''' else block ''body_error'' red bodyErr))"

definition headerText :: "string \<Rightarrow> string" where
  "headerText header = (case str_index header '': '' of
     Some i \<Rightarrow> take i header @ reset @ dim @ ''='' @ reset @ yellow @ drop (i + 2) header
   | None \<Rightarrow> header)"

definition formatExamineRequest :: "attr_map \<Rightarrow> string" where
  "formatExamineRequest attrs =
     (let url = getString attrs ''url''; authHeaders = getStringSlice attrs ''auth_headers'' in
      examineTag ''req'' attrs @ getString attrs ''method'' @ '' '' @
      (if url \<noteq> '''' then url else getString attrs ''host'') @
      (if authHeaders = [] then ''''
       else dim @ '' | '' @ reset @ yellow @ bold @ str_join '', '' (map headerText authHeaders) @ reset) @
      listBlock ''params'' cyan attrs @ listBlock ''cookies'' magenta attrs @ bodyBlocks attrs)"

definition statusColor :: "int \<Rightarrow> string" where
  "statusColor status = (if status \<ge> 500 then red else if status \<ge> 400 then yellow
     else if status \<ge> 300 then cyan else if status \<ge> 200 then green else '''')"

definition formatExamineResponse :: "attr_map \<Rightarrow> string" where
  "formatExamineResponse attrs = (let status = getInt attrs ''status''; host = getString attrs ''host'' in
     examineTag ''res'' attrs @ statusColor status @ bold @ show_int status @ reset @ '' '' @
     getString attrs ''method'' @ '' '' @ getString attrs ''path'' @
     (if host = '''' then '''' else dim @ '' @ '' @ reset @ host) @
     listBlock ''auth_headers'' yellow attrs @ listBlock ''set_cookies'' magenta attrs @ bodyBlocks attrs)"

definition formatInjectRequest :: "attr_map \<Rightarrow> string" where
  "formatInjectRequest attrs = (case getColorFromAttrs attrs of
     None \<Rightarrow> red @ bold @
       ''[ERROR: missing correlation color in inject request log - check requestIDHandler]'' @ reset
   | Some color \<Rightarrow> corrTag ''req'' color (getString attrs ''request_id'') @
       getString attrs ''path'' @ dim @ '' @ '' @ reset @ getString attrs ''host'' @ '' '' @
       green @ ''('' @ getString attrs ''auth_strategy'' @ '')'' @ reset)"

definition formatStrippedWarning :: "attr_map \<Rightarrow> string" where
  "formatStrippedWarning attrs = (let stripped = getStringSlice attrs ''stripped_headers'' in
     if stripped = [] then ''''
     else case getColorFromAttrs attrs of None \<Rightarrow> ''''
     | Some color \<Rightarrow> corrTag ''req'' color (getString attrs ''request_id'') @
         yellow @ bold @ ''stripped: '' @ str_join '', '' stripped @ reset @ dim @
         '' - you may be sending credentials to a 3rd party'' @ reset)"

definition formatInjectResponse :: "attr_map \<Rightarrow> string" where
  "formatInjectResponse attrs = (let status = getInt attrs ''status''; duration = getInt attrs ''duration_ms'' in
     case getColorFromAttrs attrs of
       None \<Rightarrow> red @ bold @
         ''[ERROR: missing correlation color in inject response log - check recordResponseHandler]'' @ reset
     | Some color \<Rightarrow> corrTag ''res'' color (getString attrs ''request_id'') @
         statusColor status @ bold @ show_int status @ reset @
         (if duration > 0
          then dim @ '' in '' @ reset @ (if duration > 1000 then yellow else green) @ show_int duration @ ''ms'' @ reset
          else ''''))"

definition detailColors :: "string \<Rightarrow> bool \<Rightarrow> string" where
  "detailColors detailColor showBg =
     (if detailColor = ''green'' then (if showBg then bg24 40 100 40 @ fg24 150 255 150 @ bold else green)
      else if detailColor = ''orange'' then (if showBg then bg24 100 60 20 @ fg24 255 180 80 @ bold else fg24 255 140 0)
      else if detailColor = ''blue'' then (if showBg then bg24 30 50 100 @ fg24 150 200 255 @ bold else blue)
      else if detailColor = ''lightblue'' then (if showBg then bg24 20 40 80 @ fg24 150 200 255 @ bold else fg24 150 200 255)
      else '''')"

definition formatDetail :: "attr_map \<Rightarrow> string" where
  "formatDetail attrs = (let detailText = getString attrs ''detail_text''; detailColor = getString attrs ''detail_color'' in
     case getColorFromAttrs attrs of
       None \<Rightarrow> detailText
     | Some color \<Rightarrow> corrTag ''req'' color (getString attrs ''request_id'') @
         detailColors detailColor (getBool attrs ''detail_bg'') @ detailText @
         (if detailColor \<noteq> '''' then reset else ''''))"

definition levelBadge :: "int \<Rightarrow> string" where
  "levelBadge level =
     (if level = levelDebug then gray @ ''DBG'' @ reset
      else if level = levelInfo then green @ ''INF'' @ reset
      else if level = levelWarn then yellow @ bold @ ''WRN'' @ reset
      else if level = levelError then red @ bold @ ''ERR'' @ reset
      else '''')"

definition genericPair :: "string \<times> attr_val \<Rightarrow> string" where
  "genericPair p = (case p of (k, v) \<Rightarrow> dim @ k @ ''='' @ reset @
     (if k = ''error'' then red @ value_text v @ reset
      else if k \<in> {''host'', ''path'', ''url'', ''address''} then blue @ value_text v @ reset
      else if k \<in> {''status'', ''port''} then cyan @ value_text v @ reset
      else value_text v))"

definition formatGeneric :: "(attr_map \<Rightarrow> attr_map) \<Rightarrow> string \<Rightarrow> int \<Rightarrow> attr_map \<Rightarrow> string" where
  "formatGeneric iter msg level attrs = levelBadge level @ '' '' @ msg @
     (if attrs = [] then ''''
      else dim @ '' | '' @ reset @ str_join '' '' (map genericPair (iter attrs)))"

definition clockText :: "slog_record \<Rightarrow> string" where
  "clockText r = dim @ gray @ lr_clock r @ reset @ '' ''"

definition collectAttrs :: "log_handler \<Rightarrow> slog_record \<Rightarrow> attr_map" where
  "collectAttrs h r = foldl (\<lambda>m (k, v). map_put k v m) [] (lh_attrs h @ lr_attrs r)"

text \<open>What one record writes, if anything.\<close>

definition textHandle :: "(attr_map \<Rightarrow> attr_map) \<Rightarrow> log_handler \<Rightarrow> slog_record \<Rightarrow> string option" where
  "textHandle iter h r = (let attrs = collectAttrs h r; msg = lr_message r in
     if msg = ''stripped auth headers from request'' then None
     else Some (clockText r @
       (if msg = ''request'' then formatExamineRequest attrs
        else if msg = ''response'' then formatExamineResponse attrs
        else if msg = ''injected credential'' then formatInjectRequest attrs @
          (if getStringSlice attrs ''stripped_headers'' = [] then ''''
           else newline # clockText r @ formatStrippedWarning attrs)
        else if msg = ''request completed'' then formatInjectResponse attrs
        else if msg = ''detail'' then formatDetail attrs
        else formatGeneric iter msg (lr_level r) attrs) @ [newline]))"

subsection \<open>The logfmt handler\<close>

definition hex_char :: "nat \<Rightarrow> char" where
  "hex_char n = (if n < 10 then char_of (48 + n) else char_of (87 + n))"

text \<open>\<open>strconv.Quote\<close>, byte by byte for an ASCII text.\<close>

definition quoteByte :: "char \<Rightarrow> string" where
  "quoteByte c =
     (if c = CHR 0x22 \<or> c = CHR 0x5C then [CHR 0x5C, c]
      else if c = CHR 0x07 then CHR 0x5C # ''a'' else if c = CHR 0x08 then CHR 0x5C # ''b''
      else if c = CHR 0x0C then CHR 0x5C # ''f'' else if c = CHR 0x0A then CHR 0x5C # ''n''
      else if c = CHR 0x0D then CHR 0x5C # ''r'' else if c = CHR 0x09 then CHR 0x5C # ''t''
      else if c = CHR 0x0B then CHR 0x5C # ''v''
      else if of_char c < (32 :: nat) \<or> of_char c = (127 :: nat)
        then CHR 0x5C # ''x'' @ [hex_char (of_char c div 16), hex_char (of_char c mod 16)]
      else [c])"

definition goQuote :: "(string \<Rightarrow> string) \<Rightarrow> string \<Rightarrow> string" where
  "goQuote quoteUnicode s =
     (if is_ascii s then CHR 0x22 # concat (map quoteByte s) @ [CHR 0x22] else quoteUnicode s)"

definition logfmtSpecial :: string where
  "logfmtSpecial = [CHR '' '', CHR 0x09, CHR 0x0A, CHR 0x22, CHR ''='']"

definition quoteLogfmt :: "(string \<Rightarrow> string) \<Rightarrow> string \<Rightarrow> string" where
  "quoteLogfmt quoteUnicode s = (if contains_any s logfmtSpecial then goQuote quoteUnicode s else s)"

definition levelText :: "int \<Rightarrow> string" where
  "levelText l = (let str = (\<lambda>base d. if d = 0 then base else base @ (if d > 0 then ''+'' else '''') @ show_int d) in
     if l < levelInfo then str ''DEBUG'' (l - levelDebug) else if l < levelWarn then str ''INFO'' (l - levelInfo)
     else if l < levelError then str ''WARN'' (l - levelWarn) else str ''ERROR'' (l - levelError))"

definition writeAttr :: "(string \<Rightarrow> string) \<Rightarrow> string \<Rightarrow> string \<times> attr_val \<Rightarrow> string" where
  "writeAttr quoteUnicode grp a = (case a of (k, v) \<Rightarrow>
     if k = '''' then ''''
     else '' '' @ (if grp \<noteq> '''' then grp @ ''.'' else '''') @ k @ ''='' @ quoteLogfmt quoteUnicode (value_text v))"

definition logfmtHandle :: "(string \<Rightarrow> string) \<Rightarrow> log_handler \<Rightarrow> slog_record \<Rightarrow> string" where
  "logfmtHandle quoteUnicode h r = ''level='' @ levelText (lr_level r) @ '' time='' @ lr_stamp r @
     '' msg='' @ quoteLogfmt quoteUnicode (lr_message r) @
     concat (map (writeAttr quoteUnicode (lh_group h)) (lh_attrs h @ lr_attrs r)) @ [newline]"

subsection \<open>No color outlives its record\<close>

text \<open>Whether a terminal that reads a text has a color or weight set afterwards: \<open>reset\<close> clears
  them, any other escape sequence may set one.\<close>

fun styled :: "bool \<Rightarrow> string \<Rightarrow> bool" where
  "styled st [] = st"
| "styled st (c # s) = (if c = esc then styled (\<not> has_prefix s ''[0m'') s else styled st s)"

definition plain :: "string \<Rightarrow> bool" where
  "plain s \<longleftrightarrow> esc \<notin> set s"

fun plain_val :: "attr_val \<Rightarrow> bool" where
  "plain_val (VStr s) = plain s"
| "plain_val (VFloat t _) = plain t"
| "plain_val (VStrs ss) = list_all plain ss"
| "plain_val (VAny t) = plain t"
| "plain_val _ = True"

definition plain_attrs :: "(string \<times> attr_val) list \<Rightarrow> bool" where
  "plain_attrs m \<longleftrightarrow> (\<forall>(k, v) \<in> set m. plain k \<and> plain_val v)"

named_theorems ansi

lemma plain_simps [simp]: "plain []" "plain (c # s) \<longleftrightarrow> c \<noteq> esc \<and> plain s" "plain (a @ b) \<longleftrightarrow> plain a \<and> plain b"
  by (auto simp: plain_def)

lemma plain_digits: "plain (show_nat n)"
proof (induction n rule: show_nat.induct)
  case (1 n)
  have d: "digit_char k \<noteq> esc" if "k < 10" for k
  proof
    assume "digit_char k = esc"
    then have "of_char (char_of (48 + k) :: char) = (of_char esc :: nat)" by (simp add: digit_char_def)
    then show False using that by (simp add: esc_def of_char_of)
  qed
  show ?case using 1 d [of "n mod 10"] d [of n] by (subst show_nat.simps) auto
qed

lemma plain_int [simp]: "plain (show_int i)"
  by (simp add: show_int_def plain_digits esc_def)

lemma styled_plain [ansi]: "plain t \<Longrightarrow> styled st (t @ s) = styled st s"
  by (induction t) auto

lemma styled_esc: "plain t \<Longrightarrow> t \<noteq> [] \<Longrightarrow> hd t = CHR ''['' \<Longrightarrow> \<not> has_prefix (t @ s) ''[0m'' \<Longrightarrow>
    styled st (esc # t @ s) = styled True s"
  by (simp add: styled_plain)

lemma styled_colors [ansi]:
  "styled st (reset @ s) = styled False s" "styled st (bold @ s) = styled True s" "styled st (dim @ s) = styled True s"
  "styled st (red @ s) = styled True s" "styled st (green @ s) = styled True s" "styled st (yellow @ s) = styled True s"
  "styled st (blue @ s) = styled True s" "styled st (magenta @ s) = styled True s" "styled st (cyan @ s) = styled True s"
  "styled st (gray @ s) = styled True s"
  by (simp_all add: reset_def bold_def dim_def red_def green_def yellow_def blue_def magenta_def cyan_def gray_def esc_def)

lemma styled_rgb [ansi]: "styled st (fg24 r g b @ s) = styled True s" "styled st (bg24 r g b @ s) = styled True s"
  using styled_plain [of "show_int r @ '';'' @ show_int g @ '';'' @ show_int b @ ''m''" True s]
  by (simp_all add: fg24_def bg24_def esc_def)

lemma str_join_plain: "list_all plain ss \<Longrightarrow> plain sep \<Longrightarrow> plain (str_join sep ss)"
  by (induction sep ss rule: str_join.induct) auto

lemma value_text_plain: "plain_val v \<Longrightarrow> plain (value_text v)"
  by (cases v) (auto simp: value_text_def esc_def intro: str_join_plain)

lemma getString_plain: "plain_attrs m \<Longrightarrow> plain (getString m k)"
  using value_text_plain map_of_SomeD [of m k]
  by (fastforce simp: getString_def plain_attrs_def split: option.splits)

lemma getStringSlice_plain: "plain_attrs m \<Longrightarrow> list_all plain (getStringSlice m k)"
  using map_of_SomeD [of m k]
  by (fastforce simp: getStringSlice_def plain_attrs_def split: option.splits attr_val.splits)

lemma plain_drop: "plain s \<Longrightarrow> plain (drop n s)" "plain s \<Longrightarrow> plain (take n s)"
  by (auto simp: plain_def dest: in_set_dropD in_set_takeD)

lemma shortID_plain: "plain s \<Longrightarrow> plain (shortID s)"
  by (simp add: shortID_def plain_drop)

lemma styled_Cons [ansi]: "c \<noteq> esc \<Longrightarrow> styled st (c # s) = styled st s"
  by simp

lemma esc_neq [simp]: "newline \<noteq> esc"
  by (simp add: newline_def esc_def)

lemma space_plain [simp]: "plain '' ''"
  by (simp add: esc_def)

lemma corrTag_styled [ansi]:
  assumes "getColorFromAttrs m = Some color" "plain kind" "plain rid"
  shows "styled st (corrTag kind color rid @ s) = styled False s"
proof -
  obtain r g b dr dg db where c: "color = (fg24 r g b, bg24 dr dg db)"
    using assms(1) by (auto simp: getColorFromAttrs_def Let_def split: if_splits prod.splits)
  have "styled True (''['' @ kind @ '':'' @ shortID rid @ '']'' @ t) = styled True t" for t
    using styled_plain [of "''['' @ kind @ '':'' @ shortID rid @ '']''"] assms(2,3) shortID_plain
    by (simp add: esc_def)
  moreover have "styled False ('' '' @ t) = styled False t" for t by (simp add: esc_def)
  ultimately show ?thesis by (simp add: corrTag_def c ansi del: styled.simps append.simps)
qed

lemma block_styled [ansi]: "plain label \<Longrightarrow> plain t \<Longrightarrow> c \<in> {cyan, magenta, gray, red, yellow} \<Longrightarrow>
    styled False (block label c t @ s) = styled False s"
  using styled_plain [of "newline # ''    ''" False] styled_plain [of "label @ '': ''" True]
  by (auto simp: block_def ansi esc_def newline_def simp del: styled.simps(2))

lemma listBlock_styled [ansi]: "plain_attrs m \<Longrightarrow> plain key \<Longrightarrow> c \<in> {cyan, magenta, gray, red, yellow} \<Longrightarrow>
    styled False (listBlock key c m @ s) = styled False s"
  using block_styled [of key "str_join '', '' (getStringSlice m key)" c s] str_join_plain [of "getStringSlice m key" "'', ''"]
    getStringSlice_plain [of m key]
  by (auto simp: listBlock_def Let_def esc_def)

lemma indentLines_plain: "plain t \<Longrightarrow> plain (indentLines t)"
  by (induction t) (auto simp: indentLines_def esc_def newline_def)

lemma bodyBlocks_styled [ansi]: "plain_attrs m \<Longrightarrow> styled False (bodyBlocks m @ s) = styled False s"
  using block_styled [of "''body''" "indentLines (getString m ''body'')" gray]
    block_styled [of "''body_error''" "getString m ''body_error''" red s]
    getString_plain [of m] indentLines_plain
  by (auto simp: bodyBlocks_def Let_def esc_def)

lemma examineTag_styled [ansi]: "plain_attrs m \<Longrightarrow> plain kind \<Longrightarrow> styled False (examineTag kind m @ s) = styled False s"
  using corrTag_styled [of m _ kind "getString m ''request_id''" False s] getString_plain [of m "''request_id''"]
  by (auto simp: examineTag_def missingColor_def ansi esc_def split: option.splits)

lemma headerText_styled: "plain h \<Longrightarrow> styled True (headerText h @ s) = styled True s"
  using styled_plain [of "take i h" for i] styled_plain [of "drop i h" for i] styled_plain [of h True s]
  by (auto simp: headerText_def ansi plain_drop esc_def split: option.splits)

lemma str_join_styled:
  assumes "\<And>x s. x \<in> set xs \<Longrightarrow> styled st (f x @ s) = styled st s" "plain sep"
  shows "styled st (str_join sep (map f xs) @ s) = styled st s"
  using assms(1)
proof (induction xs arbitrary: s rule: induct_list012)
  case (3 x y zs)
  then show ?case using styled_plain [OF assms(2)] by simp
qed auto

lemma authHeaders_styled [ansi]:
  "plain_attrs m \<Longrightarrow> styled True (str_join '', '' (map headerText (getStringSlice m k)) @ s) = styled True s"
  using getStringSlice_plain [of m k]
  by (intro str_join_styled) (auto simp: headerText_styled list_all_iff esc_def)

lemma statusColor_styled [ansi]: "styled st (statusColor n @ bold @ s) = styled True s"
  by (auto simp: statusColor_def ansi)

lemma styled_getString [ansi]: "plain_attrs m \<Longrightarrow> styled st (getString m k @ s) = styled st s"
  by (simp add: styled_plain getString_plain)

lemma styled_int [ansi]: "styled st (show_int i @ s) = styled st s"
  by (simp add: styled_plain)

lemma styled_slice [ansi]: "plain_attrs m \<Longrightarrow> styled st (str_join '', '' (getStringSlice m k) @ s) = styled st s"
  by (intro styled_plain str_join_plain getStringSlice_plain) (simp_all add: esc_def)

lemma formatExamineRequest_styled [ansi]:
  "plain_attrs m \<Longrightarrow> styled False (formatExamineRequest m @ s) = styled False s"
  by (simp add: formatExamineRequest_def Let_def ansi esc_def)

lemma formatExamineResponse_styled [ansi]:
  "plain_attrs m \<Longrightarrow> styled False (formatExamineResponse m @ s) = styled False s"
  by (simp add: formatExamineResponse_def Let_def ansi esc_def)

lemma formatInjectRequest_styled [ansi]:
  "plain_attrs m \<Longrightarrow> styled False (formatInjectRequest m @ s) = styled False s"
  by (simp add: formatInjectRequest_def ansi esc_def getString_plain split: option.split)

lemma formatStrippedWarning_styled [ansi]:
  "plain_attrs m \<Longrightarrow> styled False (formatStrippedWarning m @ s) = styled False s"
  by (simp add: formatStrippedWarning_def Let_def ansi esc_def getString_plain split: option.split)

lemma formatInjectResponse_styled [ansi]:
  "plain_attrs m \<Longrightarrow> styled False (formatInjectResponse m @ s) = styled False s"
  by (simp add: formatInjectResponse_def Let_def ansi esc_def getString_plain split: option.split)

lemma formatDetail_styled [ansi]:
  "plain_attrs m \<Longrightarrow> styled False (formatDetail m @ s) = styled False s"
  by (auto simp: formatDetail_def Let_def detailColors_def ansi esc_def getString_plain split: option.split)

lemma genericPair_styled: "plain k \<Longrightarrow> plain_val v \<Longrightarrow> styled False (genericPair (k, v) @ s) = styled False s"
  by (simp add: genericPair_def ansi value_text_plain styled_plain [of k] esc_def)

lemma formatGeneric_styled [ansi]:
  assumes "plain_attrs m" "plain msg" "set (iter m) = set m"
  shows "styled False (formatGeneric iter msg level m @ s) = styled False s"
proof -
  have j: "styled False (str_join '' '' (map genericPair (iter m)) @ s) = styled False s" for s
    using assms(1,3) by (intro str_join_styled) (auto simp: plain_attrs_def genericPair_styled esc_def)
  show ?thesis
    using assms(2) j by (simp add: formatGeneric_def levelBadge_def ansi esc_def)
qed

lemma plain_attrs_collect:
  assumes "plain_attrs (lh_attrs h)" "plain_attrs (lr_attrs r)"
  shows "plain_attrs (collectAttrs h r)"
proof -
  have "plain_attrs m \<Longrightarrow> plain_attrs xs \<Longrightarrow> plain_attrs (foldl (\<lambda>m (k, v). map_put k v m) m xs)" for m xs
  proof (induction xs arbitrary: m)
    case (Cons x xs)
    obtain k v where x: "x = (k, v)" by fastforce
    have "plain_attrs (map_put k v m)" if "plain_attrs m" "plain k" "plain_val v" for m
      using that by (induction m) (auto simp: plain_attrs_def)
    moreover have "plain k" "plain_val v" "plain_attrs xs"
      using Cons.prems(2) x by (simp_all add: plain_attrs_def)
    ultimately have "plain_attrs (map_put k v m)" "plain_attrs xs" using Cons.prems(1) by simp_all
    from Cons.IH [OF this] show ?case by (simp add: x)
  qed simp
  moreover have "plain_attrs []" "plain_attrs (lh_attrs h @ lr_attrs r)"
    using assms unfolding plain_attrs_def by auto
  ultimately show ?thesis unfolding collectAttrs_def .
qed

text \<open>No color outlives its record. Whatever a record says, the text the terminal handler writes
  for it ends with a newline and leaves the terminal with no color or weight set, so the next line
  starts plain, provided that no attribute, the message included, has an escape character of its own.
  The one record that is folded into the next writes nothing.\<close>

theorem no_color_outlives_its_record:
  assumes "plain_attrs (lh_attrs h)" "plain_attrs (lr_attrs r)" "plain (lr_message r)" "plain (lr_clock r)"
    and "\<And>m. set (iter m) = set m"
  shows "(textHandle iter h r = None \<longleftrightarrow> lr_message r = ''stripped auth headers from request'') \<and>
    (\<forall>out. textHandle iter h r = Some out \<longrightarrow> last out = newline \<and> (\<forall>s. styled False (out @ s) = styled False s))"
proof -
  note plain = plain_attrs_collect [OF assms(1,2)]
  have clock: "styled False (clockText r @ s) = styled False s" for s
    using assms(4) by (simp add: clockText_def ansi esc_def)
  show ?thesis
    using plain clock assms(3,5) by (auto simp: textHandle_def Let_def ansi split: if_splits)
qed

definition demo_tagged :: slog_record where
  "demo_tagged = \<lparr>lr_clock = ''10:00:00'', lr_stamp = ''2025-01-01T10:00:00.000Z'', lr_level = 0,
     lr_message = ''injected credential'', lr_attrs = [(''path'', VStr ''/v1''), (''host'', VStr ''h''),
       (''auth_strategy'', VStr ''bearer''), (''request_id'', VStr ''req-ab12''), (''color_r'', VInt 255)]\<rparr>"

theorem no_color_outlives_its_record_witness:
  "\<exists>out. textHandle (\<lambda>m. m) (newHandler None) demo_tagged = Some out \<and> \<not> styled False out"
proof -
  have "plain_attrs (lh_attrs (newHandler None))" "plain_attrs (lr_attrs demo_tagged)" "plain (lr_message demo_tagged)"
      "plain (lr_clock demo_tagged)"
    by (simp_all add: newHandler_def demo_tagged_def plain_attrs_def esc_def)
  from no_color_outlives_its_record [OF this, of "\<lambda>m. m"]
  obtain out where out: "textHandle (\<lambda>m. m) (newHandler None) demo_tagged = Some out"
      "\<forall>s. styled False (out @ s) = styled False s"
    by (auto simp: demo_tagged_def)
  from out(2) [rule_format, of "[]"] out(1) show ?thesis by simp
qed

text \<open>The terminal log can be forged by whoever chooses a path. The line of an injection shows the
  decoded path of the request as it is, newlines and escape characters included: whatever the
  handler writes for any other record, there is a path with which an injected request's output
  contains exactly that text as lines of its own.\<close>

theorem injection_line_can_be_forged:
  assumes "textHandle iter h forged = Some line" "lr_message r = ''injected credential''"
    "map_get (collectAttrs h r) ''path'' = Some (VStr (''/'' @ newline # line))"
    "getColorFromAttrs (collectAttrs h r) = Some color"
  shows "\<exists>before after. textHandle iter h r = Some (before @ newline # line @ after)"
proof -
  define rid where "rid = getString (collectAttrs h r) ''request_id''"
  have "\<exists>after. textHandle iter h r =
      Some (clockText r @ corrTag ''req'' color rid @ ''/'' @ newline # line @ after)"
    using assms(2-4) by (simp add: textHandle_def Let_def formatInjectRequest_def getString_def value_text_def rid_def)
  then show ?thesis by (metis append.assoc)
qed

theorem injection_line_can_be_forged_witness:
  "\<exists>line before after. textHandle (\<lambda>m. m) (newHandler None) demo_tagged = Some line \<and>
     textHandle (\<lambda>m. m) (newHandler None) (demo_tagged\<lparr>lr_attrs := (''path'', VStr (''/'' @ newline # line)) # tl (lr_attrs demo_tagged)\<rparr>)
       = Some (before @ newline # line @ after)"
proof -
  obtain line where line: "textHandle (\<lambda>m. m) (newHandler None) demo_tagged = Some line"
    by (simp add: textHandle_def demo_tagged_def Let_def)
  let ?r = "demo_tagged\<lparr>lr_attrs := (''path'', VStr (''/'' @ newline # line)) # tl (lr_attrs demo_tagged)\<rparr>"
  have m: "lr_message ?r = ''injected credential''"
      "map_get (collectAttrs (newHandler None) ?r) ''path'' = Some (VStr (''/'' @ newline # line))"
      "getColorFromAttrs (collectAttrs (newHandler None) ?r) = Some (fg24 255 0 0, bg24 85 0 0)"
    by (simp_all add: demo_tagged_def newHandler_def collectAttrs_def getColorFromAttrs_def getInt_def darken_def)
  from injection_line_can_be_forged [OF line m] line show ?thesis by blast
qed

subsection \<open>Reading a logfmt line\<close>

text \<open>A reader of logfmt: a value is quoted, with Go's escapes, or runs to the next space.\<close>

definition hex_val :: "char \<Rightarrow> nat" where
  "hex_val c = (let n = of_char c in if n < 58 then n - 48 else n - 87)"

definition unescape :: "char \<Rightarrow> char" where
  "unescape c = (if c = CHR ''a'' then CHR 0x07 else if c = CHR ''b'' then CHR 0x08 else if c = CHR ''f'' then CHR 0x0C
     else if c = CHR ''n'' then CHR 0x0A else if c = CHR ''r'' then CHR 0x0D else if c = CHR ''t'' then CHR 0x09
     else if c = CHR ''v'' then CHR 0x0B else c)"

fun readQuoted :: "nat \<Rightarrow> string \<Rightarrow> (string \<times> string) option" where
  "readQuoted 0 s = None"
| "readQuoted (Suc n) s = (case s of [] \<Rightarrow> None
     | c # s1 \<Rightarrow>
         if c = CHR 0x22 then Some ([], s1)
         else if c = CHR 0x5C then (case s1 of [] \<Rightarrow> None
           | e # s2 \<Rightarrow>
               if e = CHR ''x'' then (case s2 of a # b # s3 \<Rightarrow>
                   map_option (\<lambda>(v, t). (char_of (hex_val a * 16 + hex_val b) # v, t)) (readQuoted n s3) | _ \<Rightarrow> None)
               else map_option (\<lambda>(v, t). (unescape e # v, t)) (readQuoted n s2))
         else map_option (\<lambda>(v, t). (c # v, t)) (readQuoted n s1))"

definition readValue :: "string \<Rightarrow> (string \<times> string) option" where
  "readValue s = (case s of c # t \<Rightarrow> if c = CHR 0x22 then readQuoted (length t) t
       else Some (takeWhile (\<lambda>c. c \<noteq> CHR '' '') s, dropWhile (\<lambda>c. c \<noteq> CHR '' '') s)
     | [] \<Rightarrow> Some ([], []))"

text \<open>Pairs separated by single spaces; the fuel is the length of the line.\<close>

fun readPairs :: "nat \<Rightarrow> string \<Rightarrow> (string \<times> string) list option" where
  "readPairs 0 s = None"
| "readPairs (Suc n) s = (case cut_byte (CHR ''='') s of None \<Rightarrow> None
     | Some (k, t) \<Rightarrow> (case readValue t of None \<Rightarrow> None
         | Some (v, rest) \<Rightarrow> (case rest of [] \<Rightarrow> Some [(k, v)]
             | _ # rest2 \<Rightarrow> map_option (\<lambda>ps. (k, v) # ps) (readPairs n rest2))))"

definition readLogfmt :: "string \<Rightarrow> (string \<times> string) list option" where
  "readLogfmt line = readPairs (length line) line"

lemma hex_val_char: "n < 16 \<Longrightarrow> hex_val (hex_char n) = n"
  by (auto simp: hex_val_def hex_char_def Let_def of_char_of)

lemma quoteByte_read:
  assumes "of_char c < (128 :: nat)"
  shows "readQuoted (Suc n) (quoteByte c @ s) = map_option (\<lambda>(v, t). (c # v, t)) (readQuoted n s)"
proof -
  have hex: "char_of (hex_val (hex_char (of_char c div 16)) * 16 + hex_val (hex_char (of_char c mod 16))) = c"
    using assms by (subst hex_val_char, simp)+ simp
  show ?thesis
    by (simp add: quoteByte_def unescape_def hex)
qed

lemma readQuoted_quoted:
  "is_ascii s \<Longrightarrow> length s < n \<Longrightarrow> readQuoted n (concat (map quoteByte s) @ CHR 0x22 # t) = Some (s, t)"
proof (induction s arbitrary: n)
  case Nil
  then show ?case by (cases n) auto
next
  case (Cons c s)
  then obtain m where n: "n = Suc m" "length s < m" by (cases n) auto
  show ?case using quoteByte_read [of c m "concat (map quoteByte s) @ CHR 0x22 # t"] Cons n by simp
qed

lemma quoteByte_nonempty: "length (quoteByte c) \<ge> 1"
  by (simp add: quoteByte_def)

lemma quoted_length: "length s \<le> length (concat (map quoteByte s))"
proof (induction s)
  case (Cons c s)
  then show ?case using quoteByte_nonempty [of c] by simp
qed simp

lemma span_up_to:
  "c \<notin> set s \<Longrightarrow> t = [] \<or> hd t = c \<Longrightarrow>
     takeWhile (\<lambda>x. x \<noteq> c) (s @ t) = s \<and> dropWhile (\<lambda>x. x \<noteq> c) (s @ t) = t"
  by (induction s) (cases t, auto)

lemma readValue_quoteLogfmt:
  assumes "is_ascii s" "t = [] \<or> (\<exists>u. t = CHR '' '' # u)"
  shows "readValue (quoteLogfmt q s @ t) = Some (s, t)"
proof (cases "contains_any s logfmtSpecial")
  case True
  then show ?thesis
    using readQuoted_quoted [OF assms(1), of _ t] quoted_length [of s] assms(1)
    by (simp add: quoteLogfmt_def goQuote_def readValue_def less_Suc_eq_le trans_le_add1 del: readQuoted.simps)
next
  case False
  then have s: "\<forall>c \<in> set s. c \<noteq> CHR '' '' \<and> c \<noteq> CHR 0x22"
    by (auto simp: contains_any_def list_ex_iff logfmtSpecial_def)
  have tw: "takeWhile (\<lambda>c. c \<noteq> CHR '' '') (s @ t) = s" "dropWhile (\<lambda>c. c \<noteq> CHR '' '') (s @ t) = t"
    using span_up_to [of "CHR '' ''" s t] s assms(2) by force+
  show ?thesis
  proof (cases s)
    case Nil
    then show ?thesis using assms(2) by (auto simp: quoteLogfmt_def contains_any_def readValue_def)
  next
    case (Cons c u)
    have "c \<noteq> CHR 0x22" using s Cons by simp
    then show ?thesis using False tw by (simp add: Cons quoteLogfmt_def readValue_def del: takeWhile.simps dropWhile.simps)
  qed
qed

definition logfmt_word :: "string \<Rightarrow> bool" where
  "logfmt_word s \<longleftrightarrow> is_ascii s \<and> \<not> contains_any s logfmtSpecial"

definition pairText :: "(string \<Rightarrow> string) \<Rightarrow> string \<times> string \<Rightarrow> string" where
  "pairText q p = fst p @ CHR ''='' # quoteLogfmt q (snd p)"

text \<open>The pairs a record stands for: its attributes of a non-empty key, qualified by the group.\<close>

definition attrPairs :: "string \<Rightarrow> (string \<times> attr_val) list \<Rightarrow> (string \<times> string) list" where
  "attrPairs grp attrs = map (\<lambda>(k, v). ((if grp \<noteq> '''' then grp @ ''.'' else '''') @ k, value_text v))
     (filter (\<lambda>(k, v). k \<noteq> '''') attrs)"

definition recordPairs :: "log_handler \<Rightarrow> slog_record \<Rightarrow> (string \<times> string) list" where
  "recordPairs h r = (''level'', levelText (lr_level r)) # (''time'', lr_stamp r) # (''msg'', lr_message r) #
     attrPairs (lh_group h) (lh_attrs h @ lr_attrs r)"

lemma show_nat_digits: "c \<in> set (show_nat n) \<Longrightarrow> 48 \<le> (of_char c :: nat) \<and> of_char c < (58 :: nat)"
proof (induction n rule: show_nat.induct)
  case (1 n)
  have d: "48 \<le> (of_char (digit_char k) :: nat) \<and> of_char (digit_char k) < (58 :: nat)" if "k < 10" for k
    using that by (simp add: digit_char_def of_char_of)
  have "set (show_nat n) = (if n < 10 then {digit_char n} else set (show_nat (n div 10)) \<union> {digit_char (n mod 10)})"
    by (subst show_nat.simps) simp
  then show ?case using 1 d [of n] d [of "n mod 10"] by (auto split: if_splits)
qed

lemma logfmt_word_append [simp]: "logfmt_word (a @ b) \<longleftrightarrow> logfmt_word a \<and> logfmt_word b"
  by (auto simp: logfmt_word_def contains_any_def)

lemma logfmt_word_Cons [simp]:
  "logfmt_word (c # s) \<longleftrightarrow> of_char c < (128 :: nat) \<and> c \<notin> set logfmtSpecial \<and> logfmt_word s"
  by (auto simp: logfmt_word_def contains_any_def)

lemma logfmt_word_Nil [simp]: "logfmt_word []"
  by (simp add: logfmt_word_def contains_any_def)

lemma logfmt_word_nat: "logfmt_word (show_nat n)"
  using show_nat_digits [of _ n]
  by (fastforce simp: logfmt_word_def contains_any_def list_ex_iff logfmtSpecial_def is_ascii_def list_all_iff)

lemma logfmt_word_int: "logfmt_word (show_int i)"
  by (simp add: show_int_def logfmt_word_nat logfmtSpecial_def)

lemma logfmt_word_level: "logfmt_word (levelText l)"
  by (simp add: levelText_def Let_def logfmt_word_int logfmtSpecial_def)

lemma readPairs_join:
  assumes "ps \<noteq> []" "length ps \<le> n" "\<And>k v. (k, v) \<in> set ps \<Longrightarrow> CHR ''='' \<notin> set k \<and> is_ascii v"
  shows "readPairs n (str_join '' '' (map (pairText q) ps)) = Some ps"
  using assms
proof (induction ps arbitrary: n rule: induct_list012)
  case (2 p)
  obtain k v where p: "p = (k, v)" by fastforce
  obtain m where n: "n = Suc m" using 2(2) by (cases n) auto
  have "cut_byte (CHR ''='') (pairText q p) = Some (k, quoteLogfmt q v)" "is_ascii v"
    using 2(3) [of k v] p by (simp_all add: cut_byte_Some_iff pairText_def)
  then show ?case using readValue_quoteLogfmt [of v "[]" q] n p by simp
next
  case (3 p p' ps)
  obtain k v where p: "p = (k, v)" by fastforce
  obtain m where n: "n = Suc m" using 3(4) by (cases n) auto
  let ?t = "CHR '' '' # str_join '' '' (map (pairText q) (p' # ps))"
  have "cut_byte (CHR ''='') (pairText q p @ ?t) = Some (k, quoteLogfmt q v @ ?t)" "is_ascii v"
    using 3(5) [of k v] p by (simp_all add: cut_byte_Some_iff pairText_def)
  moreover have "readPairs m (str_join '' '' (map (pairText q) (p' # ps))) = Some (p' # ps)"
  proof (rule 3(2))
    show "CHR ''='' \<notin> set k' \<and> is_ascii v'" if "(k', v') \<in> set (p' # ps)" for k' v'
      by (rule 3(5)) (use that in auto)
  qed (use 3(4) n in auto)
  ultimately show ?case using readValue_quoteLogfmt [of v ?t q] n p by simp
qed simp

lemma join_spaces: "str_join '' '' (x # xs) = x @ concat (map (\<lambda>y. '' '' @ y) xs)"
  by (induction xs arbitrary: x) auto

lemma writeAttrs_pairs:
  "concat (map (writeAttr q grp) attrs) = concat (map (\<lambda>p. '' '' @ pairText q p) (attrPairs grp attrs))"
  by (induction attrs) (auto simp: writeAttr_def attrPairs_def pairText_def)

lemma attrPairs_append: "attrPairs grp (xs @ ys) = attrPairs grp xs @ attrPairs grp ys"
  by (simp add: attrPairs_def)

lemma logfmtHandle_pairs:
  assumes "logfmt_word (lr_stamp r)"
  shows "logfmtHandle q h r = str_join '' '' (map (pairText q) (recordPairs h r)) @ [newline]"
  using assms logfmt_word_level [of "lr_level r"] unfolding recordPairs_def list.map join_spaces
  by (simp add: logfmtHandle_def writeAttrs_pairs pairText_def quoteLogfmt_def logfmt_word_def comp_def
      attrPairs_append)

lemma quoteLogfmt_one_line: "is_ascii s \<Longrightarrow> newline \<notin> set (quoteLogfmt q s)"
proof -
  have "newline \<notin> set (quoteByte c)" if "of_char c < (128 :: nat)" for c
  proof
    assume "newline \<in> set (quoteByte c)"
    then have "newline = hex_char (of_char c div 16) \<or> newline = hex_char (of_char c mod 16)"
      by (auto simp: quoteByte_def newline_def split: if_splits)
    moreover have "newline \<noteq> hex_char n" if "n < 16" for n
    proof
      assume "newline = hex_char n"
      then have "of_char newline = (of_char (hex_char n) :: nat)" by simp
      then show False using that by (simp add: hex_char_def newline_def of_char_of split: if_splits)
    qed
    ultimately show False using \<open>of_char c < 128\<close> by fastforce
  qed
  then have "is_ascii t \<Longrightarrow> newline \<notin> set (concat (map quoteByte t))" for t by (induction t) auto
  then show "is_ascii s \<Longrightarrow> newline \<notin> set (quoteLogfmt q s)"
    by (auto simp: quoteLogfmt_def goQuote_def contains_any_def list_ex_iff logfmtSpecial_def newline_def)
qed

lemma str_join_set: "set (str_join sep xs) \<subseteq> set sep \<union> (\<Union>x \<in> set xs. set x)"
  by (induction sep xs rule: str_join.induct) auto

lemma attrPairs_ok:
  assumes "grp = '''' \<or> logfmt_word grp" "list_all (\<lambda>(k, v). logfmt_word k \<and> is_ascii (value_text v)) attrs"
    "(k, v) \<in> set (attrPairs grp attrs)"
  shows "logfmt_word k \<and> is_ascii v"
proof -
  have "logfmt_word ''.''" by code_simp
  then show ?thesis using assms logfmt_word_append [of "''.''"]
    by (auto simp: attrPairs_def list_all_iff split: if_splits)
qed

subsection \<open>The logger\<close>

text \<open>\<open>setup.go\<close> and the calls of \<open>logger.go\<close>. The logger's own level is set by \<open>Setup\<close> after
  \<open>SetLogger\<close> has reset it; the JSON handler is the standard library's, the argument \<open>json\<close>.\<close>

datatype log_format = TextFormat | JSONFormat | LogfmtFormat

record logger =
  lo_format :: log_format
  lo_handler :: log_handler
  lo_currentLevel :: int

definition parseLevel :: "string \<Rightarrow> int" where
  "parseLevel level = (if level = ''debug'' then levelDebug else if level = ''info'' then levelInfo
     else if level = ''warn'' then levelWarn else if level = ''error'' then levelError else levelInfo)"

definition setupFormat :: "string \<Rightarrow> log_format" where
  "setupFormat f = (if f = ''json'' then JSONFormat else if f = ''logfmt'' then LogfmtFormat else TextFormat)"

definition setupLogging :: "string \<Rightarrow> string \<Rightarrow> logger" where
  "setupLogging level f = \<lparr>lo_format = setupFormat f, lo_handler = newHandler (Some (parseLevel level)),
     lo_currentLevel = parseLevel level\<rparr>"

definition fromContext :: "string \<Rightarrow> color \<Rightarrow> log_handler \<Rightarrow> log_handler" where
  "fromContext requestID color h =
     (let h' = (if requestID \<noteq> '''' then withAttrs [(''request_id'', VStr requestID)] h else h) in
      case color of (r, g, b) \<Rightarrow>
        if r \<noteq> 0 \<or> g \<noteq> 0 \<or> b \<noteq> 0
        then withAttrs [(''color_r'', VInt r), (''color_g'', VInt g), (''color_b'', VInt b)] h' else h')"

definition arg_value :: "log_arg \<Rightarrow> attr_val" where
  "arg_value a = (case a of LStr s \<Rightarrow> VStr s | LAny v \<Rightarrow> v)"

fun argsToAttrs :: "log_arg list \<Rightarrow> (string \<times> attr_val) list" where
  "argsToAttrs [] = []"
| "argsToAttrs [LStr s] = [(''!BADKEY'', VStr s)]"
| "argsToAttrs (LStr k # v # rest) = (k, arg_value v) # argsToAttrs rest"
| "argsToAttrs (LAny v # rest) = (''!BADKEY'', v) # argsToAttrs rest"

definition logRecord :: "string \<times> string \<Rightarrow> int \<Rightarrow> string \<Rightarrow> log_arg list \<Rightarrow> slog_record" where
  "logRecord now level msg args = \<lparr>lr_clock = fst now, lr_stamp = snd now, lr_level = level, lr_message = msg,
     lr_attrs = argsToAttrs (redactSensitiveArgs args)\<rparr>"

text \<open>What a call writes: the level of the logger applies to all calls but \<open>Error\<close>, the level of the
  handler to all.\<close>

definition logCall ::
  "(attr_map \<Rightarrow> attr_map) \<Rightarrow> (string \<Rightarrow> string) \<Rightarrow> (log_handler \<Rightarrow> slog_record \<Rightarrow> string) \<Rightarrow> logger \<Rightarrow> string \<Rightarrow> color
   \<Rightarrow> string \<times> string \<Rightarrow> int \<Rightarrow> string \<Rightarrow> log_arg list \<Rightarrow> string option" where
  "logCall iter quoteUnicode json lg requestID color now level msg args =
     (if level \<noteq> levelError \<and> lo_currentLevel lg > level then None
      else let h = fromContext requestID color (lo_handler lg); r = logRecord now level msg args in
        if \<not> handlerEnabled h level then None
        else case lo_format lg of
          TextFormat \<Rightarrow> textHandle iter h r
        | LogfmtFormat \<Rightarrow> Some (logfmtHandle quoteUnicode h r)
        | JSONFormat \<Rightarrow> Some (json h r))"

definition logError ::
  "(attr_map \<Rightarrow> attr_map) \<Rightarrow> (string \<Rightarrow> string) \<Rightarrow> (log_handler \<Rightarrow> slog_record \<Rightarrow> string) \<Rightarrow> logger \<Rightarrow> string \<Rightarrow> color
   \<Rightarrow> string \<times> string \<Rightarrow> string \<Rightarrow> go_error \<Rightarrow> log_arg list \<Rightarrow> string option" where
  "logError iter quoteUnicode json lg requestID color now msg err args =
     logCall iter quoteUnicode json lg requestID color now levelError msg (LStr ''error'' # LStr (error_text err) # args)"

lemma argsToAttrs_pairs:
  "argsToAttrs (redactSensitiveArgs (concat (map (\<lambda>(k, v). [LStr k, v]) kvs))) =
     map (\<lambda>(k, v). (k, case v of LStr s \<Rightarrow> VStr (if isSensitiveKey k then ''[REDACTED]'' else s) | LAny w \<Rightarrow> w)) kvs"
  by (induction kvs) (auto simp: arg_value_def split: log_arg.splits)

definition ctxPairs :: "string \<Rightarrow> color \<Rightarrow> (string \<times> string) list" where
  "ctxPairs requestID color = (if requestID \<noteq> '''' then [(''request_id'', requestID)] else []) @
     (case color of (r, g, b) \<Rightarrow> if r \<noteq> 0 \<or> g \<noteq> 0 \<or> b \<noteq> 0
        then [(''color_r'', show_int r), (''color_g'', show_int g), (''color_b'', show_int b)] else [])"

definition loggedText :: "string \<Rightarrow> log_arg \<Rightarrow> string" where
  "loggedText k v = (case v of LStr s \<Rightarrow> if isSensitiveKey k then ''[REDACTED]'' else s | LAny w \<Rightarrow> value_text w)"

lemma ctx_attrs:
  "attrPairs '''' (lh_attrs (fromContext rid color (newHandler l))) = ctxPairs rid color"
  "lh_group (fromContext rid color (newHandler l)) = ''''" "lh_minLevel (fromContext rid color (newHandler l)) = l"
  by (auto simp: fromContext_def newHandler_def withAttrs_def ctxPairs_def attrPairs_def value_text_def Let_def split: prod.splits)

lemma arg_attrs:
  "list_all (\<lambda>(k, v). k \<noteq> '''') kvs \<Longrightarrow>
     attrPairs '''' (argsToAttrs (redactSensitiveArgs (concat (map (\<lambda>(k, v). [LStr k, v]) kvs)))) =
       map (\<lambda>(k, v). (k, loggedText k v)) kvs"
  unfolding argsToAttrs_pairs
  by (induction kvs) (auto simp: attrPairs_def loggedText_def value_text_def split: log_arg.splits)

lemma words_read_back:
  assumes "\<And>k v. (k, v) \<in> set ps \<Longrightarrow> logfmt_word k \<and> is_ascii v" "ps \<noteq> []"
  shows "readLogfmt (str_join '' '' (map (pairText q) ps)) = Some ps \<and> newline \<notin> set (str_join '' '' (map (pairText q) ps))"
proof -
  have k: "CHR ''='' \<notin> set k \<and> newline \<notin> set k" if "logfmt_word k" for k
    using that by (auto simp: logfmt_word_def contains_any_def list_ex_iff logfmtSpecial_def newline_def)
  have "length ps \<le> length (str_join '' '' (map (pairText q) ps))"
    by (induction ps rule: induct_list012) (auto simp: pairText_def)
  then have "readLogfmt (str_join '' '' (map (pairText q) ps)) = Some ps"
    unfolding readLogfmt_def using assms k by (intro readPairs_join) blast+
  moreover have "newline \<notin> set (pairText q p)" if "p \<in> set ps" for p
    using that assms(1) [of "fst p" "snd p"] k [of "fst p"] quoteLogfmt_one_line [of "snd p" q]
    by (simp add: pairText_def) (simp add: newline_def)
  ultimately show ?thesis using str_join_set [of "'' ''" "map (pairText q) ps"] by (auto simp: newline_def)
qed

text \<open>C32: A logfmt line reads back as what was logged, with its secrets replaced. After \<open>Setup\<close> with
  the logfmt format a call writes nothing exactly when its level is below the configured one;
  otherwise it writes one line, whatever bytes of ASCII the message and the values have, and a reader
  gets back the level, time, message and context and every argument, in order, each string under a
  sensitive key as \<open>[REDACTED]\<close> and every other value as it is.\<close>

theorem logged_line_reads_back:
  assumes "is_ascii msg" "is_ascii rid" "logfmt_word (snd now)"
    and args: "list_all (\<lambda>(k, v). k \<noteq> '''' \<and> logfmt_word k \<and> is_ascii (loggedText k v)) kvs"
  shows "case logCall iter q json (setupLogging lvl ''logfmt'') rid color now level msg (concat (map (\<lambda>(k, v). [LStr k, v]) kvs)) of
      None \<Rightarrow> level < parseLevel lvl
    | Some line \<Rightarrow> parseLevel lvl \<le> level \<and> (\<exists>text'. line = text' @ [newline] \<and> newline \<notin> set text' \<and>
        readLogfmt text' = Some ([(''level'', levelText level), (''time'', snd now), (''msg'', msg)] @
          ctxPairs rid color @ map (\<lambda>(k, v). (k, loggedText k v)) kvs))"
proof -
  let ?h = "fromContext rid color (newHandler (Some (parseLevel lvl)))"
  let ?r = "logRecord now level msg (concat (map (\<lambda>(k, v). [LStr k, v]) kvs))"
  let ?ps = "recordPairs ?h ?r"
  have ne: "list_all (\<lambda>(k, v). k \<noteq> '''') kvs" using args by (auto simp: list_all_iff)
  have ps: "?ps = [(''level'', levelText level), (''time'', snd now), (''msg'', msg)] @ ctxPairs rid color @
      map (\<lambda>(k, v). (k, loggedText k v)) kvs"
    using arg_attrs [OF ne] by (simp add: recordPairs_def logRecord_def ctx_attrs attrPairs_append)
  have "logfmt_word k \<and> is_ascii v" if "(k, v) \<in> set ?ps" for k v
  proof -
    have w: "logfmt_word ''level''" "logfmt_word ''time''" "logfmt_word ''msg''" "logfmt_word ''request_id''"
        "logfmt_word ''color_r''" "logfmt_word ''color_g''" "logfmt_word ''color_b''" by code_simp+
    have a: "is_ascii (levelText level)" "is_ascii (snd now)" "is_ascii (show_int i)" for i
      using logfmt_word_level [of level] logfmt_word_int [of i] assms(3) by (simp_all add: logfmt_word_def)
    show ?thesis
      using that args assms(1,2) w a unfolding ps by (auto simp: ctxPairs_def list_all_iff split: prod.splits if_splits)
  qed
  then have "readLogfmt (str_join '' '' (map (pairText q) ?ps)) = Some ?ps \<and>
      newline \<notin> set (str_join '' '' (map (pairText q) ?ps))"
    by (intro words_read_back) (auto simp: ps)
  moreover have "logfmtHandle q ?h ?r = str_join '' '' (map (pairText q) ?ps) @ [newline]"
    using assms(3) by (intro logfmtHandle_pairs) (simp add: logRecord_def)
  moreover have "logCall iter q json (setupLogging lvl ''logfmt'') rid color now level msg (concat (map (\<lambda>(k, v). [LStr k, v]) kvs)) =
      (if level < parseLevel lvl then None else Some (logfmtHandle q ?h ?r))"
    by (auto simp: logCall_def setupLogging_def setupFormat_def Let_def handlerEnabled_def ctx_attrs)
  ultimately show ?thesis by (simp add: ps)
qed

theorem logged_line_reads_back_witness:
  "\<exists>line text'. logCall (\<lambda>m. m) (\<lambda>s. s) (\<lambda>_ _. '''') (setupLogging ''info'' ''logfmt'') ''req-ab12'' (0, 0, 0)
      (''10:00:00'', ''2025-01-01T10:00:00.000Z'') 0 ''two words'' [LStr ''api_key'', LStr ''sk-1'', LStr ''n'', LAny (VInt 7)] = Some line \<and>
     line = text' @ [newline] \<and> newline \<notin> set text' \<and>
     readLogfmt text' = Some [(''level'', ''INFO''), (''time'', ''2025-01-01T10:00:00.000Z''), (''msg'', ''two words''),
       (''request_id'', ''req-ab12''), (''api_key'', ''[REDACTED]''), (''n'', ''7'')]"
proof -
  let ?kvs = "[(''api_key'', LStr ''sk-1''), (''n'', LAny (VInt 7))]"
  have h: "is_ascii ''two words''" "is_ascii ''req-ab12''" "logfmt_word (snd (''10:00:00'', ''2025-01-01T10:00:00.000Z''))"
      "list_all (\<lambda>(k, v). k \<noteq> '''' \<and> logfmt_word k \<and> is_ascii (loggedText k v)) ?kvs"
      "map (\<lambda>(k, v). (k, loggedText k v)) ?kvs = [(''api_key'', ''[REDACTED]''), (''n'', ''7'')]"
      "levelText 0 = ''INFO''" "parseLevel ''info'' = 0"
    by code_simp+
  from logged_line_reads_back [OF h(1-4), where iter = "\<lambda>m. m" and q = "\<lambda>s. s" and json = "\<lambda>_ _. ''''"
      and lvl = "''info''" and color = "(0, 0, 0)" and level = 0]
  show ?thesis unfolding h(5-7) by (auto simp: ctxPairs_def split: option.splits)
qed

end
