(* ===== verification/Examine.thy ===== *)
theory Examine
  imports Color_Handler Proxy_Auth
begin

text \<open>
  Package \<open>examine\<close>: the passthrough mode that logs requests to show where a program puts its
  credentials (\<open>headers.go\<close>, \<open>tracker.go\<close>, \<open>logger.go\<close>, \<open>handlers.go\<close>, \<open>report.go\<close>), and the final
  configuration printed by \<open>cmd/examine.go\<close>. An operation that logs returns its log calls (level,
  message, arguments) in order. A Go slice out of range panics: the value \<open>None\<close>. What \<open>net/http\<close>
  and \<open>net/url\<close> parse out of a message (query, cookies) is the record \<open>parsed\<close>, an argument.
\<close>

subsection \<open>Which headers are shown\<close>

definition alwaysIncludeHeaders :: "string list" where
  "alwaysIncludeHeaders = [''authorization'', ''x-api-key'', ''x-auth-token'', ''x-access-token'',
     ''x-secret-token'', ''api-key'', ''api-token'', ''access-token'', ''x-token'', ''x-key'']"

definition knownAuthSchemes :: "string list" where
  "knownAuthSchemes = [''Bearer '', ''Basic '', ''Digest '', ''AWS4-HMAC-SHA256 '', ''AWS4-HMAC-SHA512 '',
     ''Hawk '', ''DPoP '', ''VAPID '', ''HOBA '', ''Mutual '', ''scram-sha-1 '', ''scram-sha-256 '']"

definition noAuthHeaderPatterns :: "string list" where
  "noAuthHeaderPatterns = [''accept'', ''accept-charset'', ''accept-encoding'', ''accept-language'',
     ''content-type'', ''content-length'', ''content-encoding'', ''content-language'',
     ''cache-control'', ''pragma'', ''expires'', ''if-match'', ''if-modified-since'', ''if-none-match'',
     ''if-unmodified-since'', ''etag'', ''last-modified'', ''age'',
     ''connection'', ''keep-alive'', ''upgrade'', ''transfer-encoding'', ''te'', ''trailer'',
     ''host'', ''referer'', ''origin'', ''from'',
     ''user-agent'', ''sec-ch-ua'', ''sec-ch-ua-mobile'', ''sec-ch-ua-platform'', ''sec-fetch-dest'',
     ''sec-fetch-mode'', ''sec-fetch-site'', ''sec-fetch-user'', ''upgrade-insecure-requests'',
     ''access-control-request-method'', ''access-control-request-headers'', ''access-control-allow-origin'',
     ''access-control-allow-methods'', ''access-control-allow-headers'', ''access-control-max-age'',
     ''access-control-allow-credentials'', ''access-control-expose-headers'',
     ''date'', ''vary'', ''via'', ''warning'', ''dnt'', ''x-requested-with'', ''range'', ''if-range'',
     ''sec-websocket-key'', ''sec-websocket-version'', ''sec-websocket-extensions'', ''sec-websocket-protocol'',
     ''x-stainless-*'']"

text \<open>\<open>filepath.Match\<close> for a pattern whose only special character is the star, as in this list: a star
  matches any run of bytes but the separator.\<close>

function matchPattern :: "string \<Rightarrow> string \<Rightarrow> bool" where
  "matchPattern [] name = (name = [])"
| "matchPattern (c # p) name =
     (if c = CHR ''*''
      then matchPattern p name \<or> (case name of [] \<Rightarrow> False | d # t \<Rightarrow> d \<noteq> CHR ''/'' \<and> matchPattern (c # p) t)
      else (case name of [] \<Rightarrow> False | d # t \<Rightarrow> c = d \<and> matchPattern p t))"
  by pat_completeness auto
termination
  by (relation "measure (\<lambda>(p, s). length p + length s)") auto

definition isAuthRelevant :: "string \<Rightarrow> string \<Rightarrow> bool" where
  "isAuthRelevant name v = (let nameLower = to_lower name in
     if nameLower \<in> set alwaysIncludeHeaders then True
     else if list_ex (\<lambda>scheme. has_prefix v scheme \<or> has_prefix (to_lower v) (to_lower scheme)) knownAuthSchemes then True
     else if list_ex (\<lambda>pattern. matchPattern pattern nameLower) noAuthHeaderPatterns then False
     else if length v < 20 then False
     else True)"

definition isStandardAuthHeader :: "string \<Rightarrow> bool" where
  "isStandardAuthHeader name = (let nameLower = to_lower name in
     if nameLower \<in> set alwaysIncludeHeaders then True
     else if has_suffix nameLower ''apikey'' \<or> has_suffix nameLower ''api-key'' then True
     else False)"

definition truncateMiddle :: "string \<Rightarrow> nat \<Rightarrow> nat \<Rightarrow> string" where
  "truncateMiddle s startChars endChars =
     (if length s \<le> startChars + endChars + 3 then s
      else take startChars s @ ''...'' @ drop (length s - endChars) s)"

definition formatHeaders :: "headers \<Rightarrow> string" where
  "formatHeaders h = (let parts = concat (map (\<lambda>(name, vals).
       map (\<lambda>v. name @ '': '' @ v) (filter (isAuthRelevant name) vals)) h) in
     if parts = [] then ''(none)'' else str_join '', '' parts)"

subsection \<open>The tracker\<close>

record discovery =
  di_header :: string
  di_urls :: "string list"
  di_truncated :: string
  di_sentinel :: bool
  di_standard :: bool

record tracker =
  tk_discoveries :: "(string, discovery) gomap"
  tk_seen :: "string list"

definition newDiscoveryTracker :: tracker where
  "newDiscoveryTracker = \<lparr>tk_discoveries = [], tk_seen = []\<rparr>"

definition trackHeader :: "string \<Rightarrow> string \<Rightarrow> string \<Rightarrow> bool \<Rightarrow> bool \<Rightarrow> tracker \<Rightarrow> tracker" where
  "trackHeader name url truncated foundSentinel isStandard dt = (let key = to_lower name in
     case map_get (tk_discoveries dt) key of
       Some d \<Rightarrow> if url \<in> set (di_urls d) then dt
         else dt\<lparr>tk_discoveries := map_put key (d\<lparr>di_urls := di_urls d @ [url]\<rparr>) (tk_discoveries dt)\<rparr>
     | None \<Rightarrow> dt\<lparr>tk_discoveries := map_put key \<lparr>di_header = name, di_urls = [url], di_truncated = truncated,
         di_sentinel = foundSentinel, di_standard = isStandard\<rparr> (tk_discoveries dt)\<rparr>)"

definition hasSeenHeader :: "string \<Rightarrow> tracker \<Rightarrow> bool" where
  "hasSeenHeader name dt \<longleftrightarrow> to_lower name \<in> set (tk_seen dt)"

definition markHeaderSeen :: "string \<Rightarrow> tracker \<Rightarrow> tracker" where
  "markHeaderSeen name dt = dt\<lparr>tk_seen := List.insert (to_lower name) (tk_seen dt)\<rparr>"

definition getDiscoveries :: "tracker \<Rightarrow> discovery list" where
  "getDiscoveries dt = map snd (tk_discoveries dt)"

subsection \<open>The logger\<close>

record examine_config =
  ec_showBody :: bool
  ec_showParams :: bool
  ec_showCookies :: bool
  ec_showResponse :: bool
  ec_maxBodyBytes :: int
  ec_allHeaders :: bool
  ec_sentinel :: string

record examine_logger =
  el_config :: examine_config
  el_tracker :: tracker
  el_commandName :: string

definition newLogger :: "examine_config \<Rightarrow> examine_logger" where
  "newLogger config = \<lparr>el_config = config\<lparr>
       ec_maxBodyBytes := (if ec_maxBodyBytes config = 0 then 4096 else ec_maxBodyBytes config),
       ec_sentinel := (if ec_sentinel config = '''' then ''chaperone-sentinel'' else ec_sentinel config)\<rparr>,
     el_tracker = newDiscoveryTracker, el_commandName = ''''\<rparr>"

definition setCommandName :: "string \<Rightarrow> examine_logger \<Rightarrow> examine_logger" where
  "setCommandName cmd l = l\<lparr>el_commandName := cmd\<rparr>"

definition shouldLogHeader :: "examine_logger \<Rightarrow> string \<Rightarrow> string \<Rightarrow> bool" where
  "shouldLogHeader l name v = (if ec_allHeaders (el_config l) then True else isAuthRelevant name v)"

type_synonym log_call = "int \<times> string \<times> log_arg list"

definition logDetail :: "(string \<times> log_arg) list \<Rightarrow> log_call" where
  "logDetail args = (levelInfo, ''detail'', concat (map (\<lambda>(k, v). [LStr k, v]) args))"

definition checkMark :: string where
  "checkMark = [CHR 0xE2, CHR 0x9C, CHR 0x93]"

definition logAuthHeaderLine ::
  "string \<Rightarrow> string \<Rightarrow> string \<Rightarrow> examine_logger \<Rightarrow> bool \<times> examine_logger \<times> log_call list" where
  "logAuthHeaderLine name v url l =
     (let truncated = truncateMiddle v 8 4;
          isStandard = isStandardAuthHeader name;
          foundSentinel = str_contains v (ec_sentinel (el_config l));
          dt = trackHeader name url truncated foundSentinel isStandard (el_tracker l) in
      if hasSeenHeader name dt then (foundSentinel, l\<lparr>el_tracker := dt\<rparr>, [])
      else (let (detailText, color) =
              (if foundSentinel then (checkMark @ '' SENTINEL FOUND in header: '' @ name, ''lightblue'')
               else if isStandard then (''Found auth header: '' @ name @ '': '' @ truncated, ''green'')
               else (''Interesting header: '' @ name @ ''='' @ truncated, ''orange'')) in
        (foundSentinel, l\<lparr>el_tracker := markHeaderSeen name dt\<rparr>,
         [logDetail [(''detail_text'', LStr detailText), (''detail_color'', LStr color), (''detail_bg'', LAny (VBool True))]])))"

definition headerStep ::
  "string \<Rightarrow> bool \<times> examine_logger \<times> log_call list \<Rightarrow> string \<times> string \<Rightarrow> bool \<times> examine_logger \<times> log_call list" where
  "headerStep url st nv = (case st of (found, l, calls) \<Rightarrow> case nv of (name, v) \<Rightarrow>
     if shouldLogHeader l name v
     then (case logAuthHeaderLine name v url l of (f, l', calls') \<Rightarrow> (found \<or> f, l', calls @ calls'))
     else st)"

definition headerPairs :: "headers \<Rightarrow> (string \<times> string) list" where
  "headerPairs h = concat (map (\<lambda>(name, vals). map (Pair name) vals) h)"

record parsed =
  pa_query :: "(string, string list) gomap"
  pa_cookies :: "(string \<times> string) list"
  pa_setCookies :: "(string \<times> string \<times> bool \<times> bool) list"

text \<open>A body is read to its end and put back; what is logged of it is cut. A body that cannot be read
  is put back up to the error.\<close>

definition logBody :: "examine_config \<Rightarrow> body \<Rightarrow> (log_arg list \<times> body) option" where
  "logBody c b = (if \<not> ec_showBody c then Some ([], b)
     else case b of
       NilBody \<Rightarrow> Some ([], NilBody)
     | Body s (Some err) \<Rightarrow> Some ([LStr ''body_error'', LStr (error_text err)], Body s None)
     | Body s None \<Rightarrow>
         if s = '''' then Some ([], Body '''' None)
         else if int (length s) > ec_maxBodyBytes c
           then (if ec_maxBodyBytes c < 0 then None
                 else Some ([LStr ''body'', LStr (take (nat (ec_maxBodyBytes c)) s @ ''... (truncated)'')], Body s None))
         else Some ([LStr ''body'', LStr s], Body s None))"

definition logRequest ::
  "parsed \<Rightarrow> request \<Rightarrow> examine_logger \<Rightarrow> (bool \<times> request \<times> examine_logger \<times> log_call list) option" where
  "logRequest pa r l = (let c = el_config l;
       params = (if ec_showParams c \<and> pa_query pa \<noteq> []
         then [LStr ''params'', LAny (VStrs (concat (map (\<lambda>(key, vals). map (\<lambda>v. key @ ''='' @ v) vals) (pa_query pa))))] else []);
       cookies = (if ec_showCookies c \<and> pa_cookies pa \<noteq> []
         then [LStr ''cookies'', LAny (VStrs (map (\<lambda>(n, v). n @ ''='' @ v) (pa_cookies pa)))] else []) in
     case logBody c (rq_body r) of
       None \<Rightarrow> None
     | Some (bodyArgs, b) \<Rightarrow>
         (let args = [LStr ''method'', LStr (rq_method r), LStr ''url'', LStr (rq_url r), LStr ''host'', LStr (rq_host r)] @
                params @ cookies @ bodyArgs;
              (found, l', calls) = foldl (headerStep (rq_url r)) (False, l, []) (headerPairs (rq_header r)) in
          Some (found, r\<lparr>rq_body := b\<rparr>, l', (levelInfo, ''request'', args) # calls)))"

definition logResponse ::
  "parsed \<Rightarrow> request option \<Rightarrow> response option \<Rightarrow> examine_logger \<Rightarrow> (response option \<times> log_call list) option" where
  "logResponse pa req ro l = (let c = el_config l in
     case ro of
       None \<Rightarrow> Some (None, [])
     | Some resp \<Rightarrow>
         if \<not> ec_showResponse c then Some (Some resp, [])
         else (let
             ofReq = (case req of Some r \<Rightarrow> [LStr ''method'', LStr (rq_method r), LStr ''host'', LStr (rq_host r),
                 LStr ''path'', LStr (rq_path r)] | None \<Rightarrow> []);
             authHeaders = map (\<lambda>(n, v). n @ '': '' @ truncateMiddle v 8 4)
                 (filter (\<lambda>(n, v). shouldLogHeader l n v) (headerPairs (rs_header resp)));
             cookies = (if ec_showCookies c \<and> pa_setCookies pa \<noteq> []
               then [LStr ''set_cookies'', LAny (VStrs (map (\<lambda>(n, v, secure, httpOnly).
                   n @ ''='' @ v @ (if secure then '' [Secure]'' else '''') @ (if httpOnly then '' [HttpOnly]'' else ''''))
                   (pa_setCookies pa)))] else []) in
           case logBody c (rs_body resp) of
             None \<Rightarrow> None
           | Some (bodyArgs, b) \<Rightarrow> Some (Some (resp\<lparr>rs_body := b\<rparr>),
               [(levelInfo, ''response'', [LStr ''status'', LAny (VInt (rs_status resp))] @ ofReq @
                 (if authHeaders = [] then [] else [LStr ''auth_headers'', LAny (VStrs authHeaders)]) @ cookies @ bodyArgs)])))"

subsection \<open>The handlers\<close>

text \<open>The sentinel channel, if there is one, is closed once.\<close>

record examine_state =
  es_logger :: examine_logger
  es_closed :: bool

definition examineRequestHandler ::
  "bool \<Rightarrow> parsed \<Rightarrow> request \<Rightarrow> examine_state \<Rightarrow> (request \<times> reply option \<times> examine_state \<times> log_call list) option" where
  "examineRequestHandler hasChan pa r es = (case logRequest pa r (es_logger es) of
     None \<Rightarrow> None
   | Some (foundSentinel, r', l, calls) \<Rightarrow>
       Some (r', None, \<lparr>es_logger = l, es_closed = (es_closed es \<or> foundSentinel \<and> hasChan)\<rparr>, calls))"

definition examineResponseHandler ::
  "parsed \<Rightarrow> request option \<Rightarrow> response option \<Rightarrow> examine_state \<Rightarrow> (response option \<times> log_call list) option" where
  "examineResponseHandler pa req ro es = logResponse pa req ro (es_logger es)"

text \<open>Every CONNECT is intercepted, whatever the registry says.\<close>

definition examineConnectHandler :: "env \<Rightarrow> connect_handler" where
  "examineConnectHandler ev host fl =
     (fl\<lparr>fl_req := (fl_req fl)\<lparr>rq_requestID := ev_freshID ev\<rparr>\<rparr>, ConnectMitm, None)"

subsection \<open>The report\<close>

definition extractHostFromURL :: "string \<Rightarrow> string" where
  "extractHostFromURL url = (if url = '''' then ''api.example.com''
     else case str_index url ''://'' of
       None \<Rightarrow> ''api.example.com''
     | Some i \<Rightarrow> takeWhile (\<lambda>c. c \<notin> {CHR '':'', CHR ''/'', CHR ''?''}) (drop (i + 3) url))"

definition guessAuthStrategy :: "string \<Rightarrow> string" where
  "guessAuthStrategy name = (if to_lower name = ''authorization'' then ''bearer'' else ''header:'' @ name)"

definition colored :: "string \<Rightarrow> string \<Rightarrow> log_call" where
  "colored color s = logDetail [(''detail_text'', LStr s), (''detail_color'', LStr color), (''detail_bg'', LAny (VBool True))]"

definition plainLine :: "string \<Rightarrow> log_call" where
  "plainLine s = logDetail [(''detail_text'', LStr s)]"

definition titleLine :: "string \<Rightarrow> log_call" where
  "titleLine s = logDetail [(''detail_text'', LStr s), (''detail_color'', LStr ''blue'')]"

definition headerSection :: "string \<Rightarrow> string \<Rightarrow> discovery list \<Rightarrow> log_call list" where
  "headerSection color title ds = (if ds = [] then []
     else [colored color title, plainLine ''''] @
       concat (map (\<lambda>d. [colored color (di_header d)] @ map (\<lambda>url. plainLine (''  - '' @ url)) (di_urls d) @ [plainLine '''']) ds))"

definition discoveredHost :: "discovery \<Rightarrow> string" where
  "discoveredHost d = (case di_urls d of url # _ \<Rightarrow> extractHostFromURL url | [] \<Rightarrow> ''api.example.com'')"

definition serviceNameOf :: "examine_logger \<Rightarrow> string" where
  "serviceNameOf l = (if el_commandName l \<noteq> '''' then el_commandName l else ''myservice'')"

definition dq :: char where
  "dq = CHR 0x22"

definition quoted :: "string \<Rightarrow> string" where
  "quoted s = dq # s @ [dq]"

text \<open>The lines of the suggestion, and the three categories it is taken from.\<close>

definition exampleConfigLines :: "bool \<Rightarrow> string \<Rightarrow> discovery \<Rightarrow> string list" where
  "exampleConfigLines macOS serviceName d =
     ['''', ''[services.'' @ serviceName @ '']'', ''host_pattern = '' @ quoted (discoveredHost d),
      ''auth_strategy = '' @ quoted (guessAuthStrategy (di_header d))] @
     (if macOS then (let credentialName = ''chaperone/'' @ serviceName in
        ['''',
         ''# to add to MacOS keychain, run: security add-generic-password -s '' @ quoted credentialName @ '' -a '' @
           quoted '''' @ '' -w '' @ quoted ''<YOUR_API_KEY>'' @ '' # MacOS Only'',
         ''# credential_ref = '' @ quoted (''keychain:'' @ credentialName) @ '' # MacOS Only''])
      else []) @
     [''# credential_ref = '' @ quoted ''env:YOUR_API_KEY'', ''# credential_ref = '' @ quoted ''file:/path/to/secret'']"

definition printExampleConfig ::
  "bool \<Rightarrow> examine_logger \<Rightarrow> discovery list \<Rightarrow> discovery list \<Rightarrow> discovery list \<Rightarrow> log_call list" where
  "printExampleConfig macOS l sentinels standards possible = titleLine ''=== Example Config Block ==='' #
     (case sentinels @ standards @ possible of
        [] \<Rightarrow> [plainLine ''# No auth headers discovered. Check --all-headers flag or examine your requests.'']
      | d # _ \<Rightarrow> map plainLine (exampleConfigLines macOS (serviceNameOf l) d))"

definition printSummaryReport :: "bool \<Rightarrow> examine_logger \<Rightarrow> log_call list" where
  "printSummaryReport macOS l = (let discoveries = getDiscoveries (el_tracker l);
       sentinels = filter di_sentinel discoveries;
       standards = filter (\<lambda>d. \<not> di_sentinel d \<and> di_standard d) discoveries;
       possible = filter (\<lambda>d. \<not> di_sentinel d \<and> \<not> di_standard d) discoveries in
     if discoveries = [] then [(levelInfo, ''No auth headers discovered during examination'', [])]
     else titleLine ''=== Auth Discovery Summary ==='' #
       headerSection ''lightblue'' (checkMark @ '' Sentinel value found in:'') sentinels @
       headerSection ''green'' (checkMark @ '' Standard auth headers found:'') standards @
       headerSection ''orange'' ''? Interesting headers:'' possible @
       printExampleConfig macOS l sentinels standards possible)"

text \<open>The configuration printed by the command at its end: the discovery it is about, and its lines.\<close>

definition completeConfigDiscovery :: "discovery list \<Rightarrow> discovery option" where
  "completeConfigDiscovery ds = (case find di_sentinel ds of
     Some d \<Rightarrow> Some d
   | None \<Rightarrow> (case find di_standard ds of
       Some d \<Rightarrow> Some d
     | None \<Rightarrow> (case ds of d # _ \<Rightarrow> Some d | [] \<Rightarrow> None)))"

definition completeConfigLines :: "bool \<Rightarrow> string \<Rightarrow> discovery \<Rightarrow> string list" where
  "completeConfigLines macOS serviceName d =
     [''[services.'' @ serviceName @ '']'', ''host_pattern = '' @ quoted (discoveredHost d),
      ''auth_strategy = '' @ quoted (guessAuthStrategy (di_header d)),
      ''# Recommended: Use keychain or file for secure credential storage'', ''''] @
     (if macOS then (let keychainService = ''chaperone/'' @ serviceName in
        [''# macOS Keychain (Recommended):'',
         ''# security add-generic-password -s '' @ quoted keychainService @ '' -a '' @ quoted ''api_key'' @ '' -w '' @
           quoted ''YOUR_API_KEY'',
         ''# credential_ref = '' @ quoted (''keychain:'' @ keychainService @ ''/api_key'')])
      else [''# Secure file storage (Recommended):'', ''# credential_ref = '' @ quoted ''file:/path/to/secret'']) @
     ['''', ''# credential_ref = '' @ quoted ''env:YOUR_API_KEY'', '''']"

definition printCompleteConfig :: "bool \<Rightarrow> examine_logger \<Rightarrow> string list" where
  "printCompleteConfig macOS l = (case completeConfigDiscovery (getDiscoveries (el_tracker l)) of
     None \<Rightarrow> ['''', yellow @ ''No auth headers discovered.'' @ reset]
   | Some d \<Rightarrow> '''' # (cyan @ bold @ ''=== Complete Configuration ==='' @ reset) # '''' # completeConfigLines macOS (serviceNameOf l) d)"

subsection \<open>Lemmas\<close>

lemma headerStep_shown: "shouldLogHeader l name v \<Longrightarrow> headerStep url (found, l, calls) (name, v) =
    (case logAuthHeaderLine name v url l of (f, l', calls') \<Rightarrow> (found \<or> f, l', calls @ calls'))"
  by (simp add: headerStep_def)

lemma headerStep_hidden: "\<not> shouldLogHeader l name v \<Longrightarrow> headerStep url (found, l, calls) (name, v) = (found, l, calls)"
  by (simp add: headerStep_def)

lemma logAuthHeaderLine_config:
  "logAuthHeaderLine name v url l = (f, l', calls) \<Longrightarrow>
     el_config l' = el_config l \<and> el_commandName l' = el_commandName l \<and> f = str_contains v (ec_sentinel (el_config l))"
  by (auto simp: logAuthHeaderLine_def Let_def split: if_splits)

lemma shouldLogHeader_cong: "el_config l = el_config l' \<Longrightarrow> shouldLogHeader l = shouldLogHeader l'"
  by (auto simp: shouldLogHeader_def fun_eq_iff)

text \<open>What the tracker knows is what was shown: \<open>S\<close> is the set of pairs of a lower-case header name and
  a URL.\<close>

definition tracks :: "(string \<times> string) set \<Rightarrow> tracker \<Rightarrow> bool" where
  "tracks S dt \<longleftrightarrow> go_map_ok (tk_discoveries dt) \<and> distinct (tk_seen dt) \<and>
     (\<forall>k. k \<in> set (tk_seen dt) \<longleftrightarrow> map_get (tk_discoveries dt) k \<noteq> None) \<and>
     (\<forall>k. (\<exists>u. (k, u) \<in> S) \<longleftrightarrow> map_get (tk_discoveries dt) k \<noteq> None) \<and>
     (\<forall>k d. map_get (tk_discoveries dt) k = Some d \<longrightarrow>
        to_lower (di_header d) = k \<and> distinct (di_urls d) \<and> set (di_urls d) = {u. (k, u) \<in> S})"

lemma tracksD:
  assumes "tracks S dt"
  shows "k \<in> set (tk_seen dt) \<longleftrightarrow> map_get (tk_discoveries dt) k \<noteq> None"
    "(\<exists>u. (k, u) \<in> S) \<longleftrightarrow> map_get (tk_discoveries dt) k \<noteq> None"
    "map_get (tk_discoveries dt) k = Some d \<Longrightarrow>
       to_lower (di_header d) = k \<and> distinct (di_urls d) \<and> set (di_urls d) = {u. (k, u) \<in> S}"
  using assms unfolding tracks_def by blast+

lemma track_step:
  assumes "tracks S dt"
  shows "tracks (insert (to_lower name, url) S) (markHeaderSeen name (trackHeader name url t f st dt))"
proof -
  define dt' where "dt' = markHeaderSeen name (trackHeader name url t f st dt)"
  define S' where "S' = insert (to_lower name, url) S"
  have get: "map_get (tk_discoveries dt') k = (if k = to_lower name then Some (case map_get (tk_discoveries dt) k of
        Some d \<Rightarrow> if url \<in> set (di_urls d) then d else d\<lparr>di_urls := di_urls d @ [url]\<rparr>
      | None \<Rightarrow> \<lparr>di_header = name, di_urls = [url], di_truncated = t, di_sentinel = f, di_standard = st\<rparr>)
      else map_get (tk_discoveries dt) k)" for k
    by (auto simp: dt'_def trackHeader_def markHeaderSeen_def Let_def split: option.splits)
  have "go_map_ok (tk_discoveries dt')" "distinct (tk_seen dt')"
      "set (tk_seen dt') = insert (to_lower name) (set (tk_seen dt))"
    using assms by (auto simp: dt'_def tracks_def trackHeader_def markHeaderSeen_def Let_def split: option.splits)
  moreover have "to_lower (di_header d) = k \<and> distinct (di_urls d) \<and> set (di_urls d) = {u. (k, u) \<in> S'}"
    if d: "map_get (tk_discoveries dt') k = Some d" for k d
  proof (cases "k = to_lower name")
    case False
    then show ?thesis using d tracksD(3) [OF assms] by (simp add: get S'_def)
  next
    case True
    show ?thesis
    proof (cases "map_get (tk_discoveries dt) k")
      case None
      then have "(k, u) \<notin> S" for u using tracksD(2) [OF assms, of k] by simp
      then show ?thesis using d True \<open>map_get (tk_discoveries dt) k = None\<close> by (auto simp: get S'_def)
    next
      case (Some e)
      have e: "to_lower (di_header e) = k" "distinct (di_urls e)" "set (di_urls e) = {u. (k, u) \<in> S}"
        using tracksD(3) [OF assms Some] by blast+
      have S': "{u. (k, u) \<in> S'} = insert url (set (di_urls e))" by (auto simp: S'_def True e(3) [unfolded True])
      show ?thesis
      proof (cases "url \<in> set (di_urls e)")
        case True
        then have "d = e" using d Some \<open>k = to_lower name\<close> by (simp add: get)
        then show ?thesis using e S' True by (simp add: insert_absorb)
      next
        case False
        then have "d = e\<lparr>di_urls := di_urls e @ [url]\<rparr>" using d Some \<open>k = to_lower name\<close> by (simp add: get)
        then show ?thesis using e(1,2) S' False by simp
      qed
    qed
  qed
  moreover have "k \<in> insert (to_lower name) (set (tk_seen dt)) \<longleftrightarrow> map_get (tk_discoveries dt') k \<noteq> None"
      "(\<exists>u. (k, u) \<in> S') \<longleftrightarrow> map_get (tk_discoveries dt') k \<noteq> None" for k
    using tracksD(1,2) [OF assms, of k] by (auto simp: get S'_def)
  ultimately show ?thesis
    unfolding dt'_def [symmetric] S'_def [symmetric] tracks_def by simp
qed

lemma line_step:
  assumes "tracks S (el_tracker l)" "logAuthHeaderLine name v url l = (f, l', calls)"
  shows "tracks (insert (to_lower name, url) S) (el_tracker l') \<and>
    length calls + length (tk_seen (el_tracker l)) = length (tk_seen (el_tracker l'))"
proof -
  let ?dt = "trackHeader name url (truncateMiddle v 8 4) (str_contains v (ec_sentinel (el_config l))) (isStandardAuthHeader name) (el_tracker l)"
  have step: "tracks (insert (to_lower name, url) S) (markHeaderSeen name ?dt)" by (rule track_step [OF assms(1)])
  have seen: "tk_seen ?dt = tk_seen (el_tracker l)" by (auto simp: trackHeader_def Let_def split: option.splits)
  have same: "markHeaderSeen name ?dt = ?dt" if "hasSeenHeader name ?dt"
    using that by (simp add: hasSeenHeader_def markHeaderSeen_def)
  show ?thesis
  proof (cases "hasSeenHeader name ?dt")
    case True
    then have "l' = l\<lparr>el_tracker := ?dt\<rparr>" "calls = []"
      using assms(2) by (auto simp: logAuthHeaderLine_def Let_def)
    then show ?thesis using step same [OF True] seen by simp
  next
    case False
    then have "l' = l\<lparr>el_tracker := markHeaderSeen name ?dt\<rparr>" "length calls = 1"
      using assms(2) by (auto simp: logAuthHeaderLine_def Let_def split: if_splits)
    then show ?thesis using step seen False by (simp add: markHeaderSeen_def hasSeenHeader_def)
  qed
qed

lemma header_loop:
  assumes "tracks S (el_tracker l)"
  shows "case foldl (headerStep url) (found, l, calls) hs of (found', l', calls') \<Rightarrow>
    tracks (S \<union> {(to_lower n, url) | n v. (n, v) \<in> set hs \<and> shouldLogHeader l n v}) (el_tracker l') \<and>
    el_config l' = el_config l \<and> el_commandName l' = el_commandName l \<and>
    (found' \<longleftrightarrow> found \<or> (\<exists>(n, v) \<in> set hs. shouldLogHeader l n v \<and> str_contains v (ec_sentinel (el_config l)))) \<and>
    length calls' + length (tk_seen (el_tracker l)) = length calls + length (tk_seen (el_tracker l'))"
  using assms
proof (induction hs arbitrary: S found l calls)
  case (Cons nv hs)
  obtain n v where nv: "nv = (n, v)" by fastforce
  show ?case
  proof (cases "shouldLogHeader l n v")
    case True
    obtain f l1 cs where line: "logAuthHeaderLine n v url l = (f, l1, cs)" by (metis prod_cases3)
    note step = line_step [OF Cons.prems line] and cfg = logAuthHeaderLine_config [OF line]
    have same: "shouldLogHeader l1 = shouldLogHeader l" using cfg by (intro shouldLogHeader_cong) simp
    have set: "S \<union> {(to_lower m, url) | m w. (m, w) \<in> set (nv # hs) \<and> shouldLogHeader l m w} =
        insert (to_lower n, url) S \<union> {(to_lower m, url) | m w. (m, w) \<in> set hs \<and> shouldLogHeader l m w}"
      using True nv by auto
    show ?thesis
      using Cons.IH [OF step [THEN conjunct1], of "found \<or> f" "calls @ cs"] step cfg True unfolding set same
      by (auto simp: nv headerStep_shown line split: prod.splits)
  next
    case False
    have set: "{(to_lower m, url) | m w. (m, w) \<in> set (nv # hs) \<and> shouldLogHeader l m w} =
        {(to_lower m, url) | m w. (m, w) \<in> set hs \<and> shouldLogHeader l m w}"
      using False nv by auto
    show ?thesis
      using Cons.IH [OF Cons.prems, of found calls] False unfolding set
      by (auto simp: nv headerStep_hidden split: prod.splits)
  qed
qed simp

text \<open>A session: the requests a logger has seen, in order, and its log calls.\<close>

inductive session :: "examine_config \<Rightarrow> request list \<Rightarrow> examine_logger \<Rightarrow> log_call list \<Rightarrow> bool" for cfg where
  session_new: "session cfg [] (setCommandName cmd (newLogger cfg)) []"
| session_step: "session cfg rs l calls \<Longrightarrow> logRequest pa r l = Some (f, r', l', cs) \<Longrightarrow> session cfg (rs @ [r]) l' (calls @ cs)"

inductive_cases session_stepE: "session cfg (rs @ [r]) l calls"

definition shownIn :: "examine_logger \<Rightarrow> request \<Rightarrow> (string \<times> string) set" where
  "shownIn l r = {(to_lower n, rq_url r) | n v. (n, v) \<in> set (headerPairs (rq_header r)) \<and> shouldLogHeader l n v}"

lemma logRequest_cases:
  assumes "logRequest pa r l = Some (f, r', l', cs)"
  shows "\<exists>bodyArgs b args calls. logBody (el_config l) (rq_body r) = Some (bodyArgs, b) \<and> r' = r\<lparr>rq_body := b\<rparr> \<and>
    cs = (levelInfo, ''request'', args) # calls \<and>
    foldl (headerStep (rq_url r)) (False, l, []) (headerPairs (rq_header r)) = (f, l', calls)"
  using assms by (auto simp: logRequest_def Let_def split: option.splits prod.splits)

lemma session_inv:
  "session cfg rs l calls \<Longrightarrow> el_config l = el_config (newLogger cfg) \<and>
     tracks (\<Union>r \<in> set rs. shownIn (newLogger cfg) r) (el_tracker l) \<and>
     length calls = length rs + length (tk_seen (el_tracker l))"
proof (induction rule: session.induct)
  case (session_new cmd)
  show ?case by (simp add: newLogger_def setCommandName_def newDiscoveryTracker_def tracks_def)
next
  case (session_step rs l calls pa r f r' l' cs)
  let ?S = "\<Union>r \<in> set rs. shownIn (newLogger cfg) r"
  have same: "shouldLogHeader l = shouldLogHeader (newLogger cfg)"
    using session_step.IH by (intro shouldLogHeader_cong) simp
  obtain args details where c: "cs = (levelInfo, ''request'', args) # details"
      "foldl (headerStep (rq_url r)) (False, l, []) (headerPairs (rq_header r)) = (f, l', details)"
    using logRequest_cases [OF session_step.hyps(2)] by blast
  have "tracks (?S \<union> shownIn l r) (el_tracker l') \<and> el_config l' = el_config l \<and>
      length details + length (tk_seen (el_tracker l)) = length (tk_seen (el_tracker l'))"
    using header_loop [of ?S l, where url = "rq_url r" and found = False and calls = "[]" and hs = "headerPairs (rq_header r)"] session_step.IH c(2)
    unfolding shownIn_def by simp
  moreover have "shownIn l r = shownIn (newLogger cfg) r" by (simp add: shownIn_def same)
  ultimately show ?case using session_step.IH c(1) by (simp add: Un_commute)
qed

lemma session_length:
  assumes "session cfg rs l calls"
  shows "length calls = length rs + length (getDiscoveries (el_tracker l))"
proof -
  let ?dt = "el_tracker l"
  obtain S where t: "tracks S ?dt" and n: "length calls = length rs + length (tk_seen ?dt)"
    using session_inv [OF assms] by blast
  have "k \<in> set (tk_seen ?dt) \<longleftrightarrow> k \<in> set (map_keys (tk_discoveries ?dt))" for k
    by (simp only: tracksD(1) [OF t] map_get_None_iff not_not)
  then have "set (tk_seen ?dt) = set (map_keys (tk_discoveries ?dt))" by blast
  moreover have "distinct (tk_seen ?dt)" "distinct (map_keys (tk_discoveries ?dt))"
    using t by (simp_all add: tracks_def go_map_ok_def)
  ultimately have "length (tk_seen ?dt) = length (map_keys (tk_discoveries ?dt))"
    by (metis distinct_card)
  then show ?thesis using n by (simp add: getDiscoveries_def)
qed

text \<open>What the handler of a request leaves of a body.\<close>

definition examinedBody :: "examine_config \<Rightarrow> body \<Rightarrow> body" where
  "examinedBody c b = (case b of Body s (Some _) \<Rightarrow> if ec_showBody c then Body s None else b | _ \<Rightarrow> b)"

lemma logBody_ok: "0 \<le> ec_maxBodyBytes c \<Longrightarrow> \<exists>args. logBody c b = Some (args, examinedBody c b)"
  by (auto simp: logBody_def examinedBody_def split: body.splits option.splits)

lemma isAuthRelevant_short:
  assumes "is_ascii v" "length v < 20" "\<And>scheme. scheme \<in> set knownAuthSchemes \<Longrightarrow> \<not> has_prefix (to_lower v) (to_lower scheme)"
  shows "isAuthRelevant name v \<longleftrightarrow> to_lower name \<in> set alwaysIncludeHeaders"
proof -
  have "\<not> has_prefix v scheme" if "scheme \<in> set knownAuthSchemes" for scheme
    using assms(3) [OF that] to_lower_prefix [OF assms(1), of scheme] by blast
  then show ?thesis using assms(2,3) by (auto simp: isAuthRelevant_def Let_def list_ex_iff)
qed

subsection \<open>Properties\<close>

text \<open>C33: A session's discoveries are exactly what it was shown. After any sequence of requests a
  header is among the discoveries if and only if some request carried it, under whatever
  capitalization, with a value the filter lets through; its URLs are those of these requests, each
  once; and the session wrote one line for each request and one for each discovered header.\<close>

theorem discoveries_are_what_was_shown:
  assumes "session cfg rs l calls"
  shows "(\<forall>k. (\<exists>d. map_get (tk_discoveries (el_tracker l)) k = Some d) \<longleftrightarrow>
       (\<exists>r \<in> set rs. \<exists>u. (k, u) \<in> shownIn (newLogger cfg) r)) \<and>
    (\<forall>r \<in> set rs. \<forall>k u. (k, u) \<in> shownIn (newLogger cfg) r \<longrightarrow>
       (\<exists>d. map_get (tk_discoveries (el_tracker l)) k = Some d \<and> to_lower (di_header d) = k \<and> distinct (di_urls d) \<and>
          set (di_urls d) = {u. \<exists>r \<in> set rs. (k, u) \<in> shownIn (newLogger cfg) r})) \<and>
    length calls = length rs + length (getDiscoveries (el_tracker l))"
proof -
  let ?S = "\<Union>r \<in> set rs. shownIn (newLogger cfg) r"
  have t: "tracks ?S (el_tracker l)" using session_inv [OF assms] by blast
  have "(\<exists>d. map_get (tk_discoveries (el_tracker l)) k = Some d) \<longleftrightarrow>
      (\<exists>r \<in> set rs. \<exists>u. (k, u) \<in> shownIn (newLogger cfg) r)" for k
    using tracksD(2) [OF t, of k] by auto
  moreover have "\<exists>d. map_get (tk_discoveries (el_tracker l)) k = Some d \<and> to_lower (di_header d) = k \<and> distinct (di_urls d) \<and>
      set (di_urls d) = {u. \<exists>r \<in> set rs. (k, u) \<in> shownIn (newLogger cfg) r}"
    if "r \<in> set rs" "(k, u) \<in> shownIn (newLogger cfg) r" for r k u
  proof -
    have "map_get (tk_discoveries (el_tracker l)) k \<noteq> None" using tracksD(2) [OF t, of k] that by blast
    then obtain d where d: "map_get (tk_discoveries (el_tracker l)) k = Some d" by blast
    show ?thesis using d tracksD(3) [OF t d] by auto
  qed
  ultimately show ?thesis using session_length [OF assms] by auto
qed

lemma logRequest_returns:
  assumes "0 \<le> ec_maxBodyBytes (el_config l)"
  shows "\<exists>f l' cs. logRequest pa r l = Some (f, r\<lparr>rq_body := examinedBody (el_config l) (rq_body r)\<rparr>, l', cs)"
proof -
  obtain args where "logBody (el_config l) (rq_body r) = Some (args, examinedBody (el_config l) (rq_body r))"
    using logBody_ok [OF assms] by blast
  then show ?thesis by (auto simp: logRequest_def Let_def split: prod.splits)
qed

definition demo_examine :: examine_config where
  "demo_examine = \<lparr>ec_showBody = True, ec_showParams = False, ec_showCookies = False, ec_showResponse = False,
     ec_maxBodyBytes = 0, ec_allHeaders = False, ec_sentinel = ''''\<rparr>"

definition demo_parsed :: parsed where
  "demo_parsed = \<lparr>pa_query = [], pa_cookies = [], pa_setCookies = []\<rparr>"

definition demo_keyed :: request where
  "demo_keyed = demo_request\<lparr>rq_url := ''https://api.example.com/v1'', rq_header := [(''X-Api-Key'', [''k1''])]\<rparr>"

lemma demo_session: "\<exists>l calls. session demo_examine [demo_keyed] l calls"
proof -
  have "0 \<le> ec_maxBodyBytes (el_config (setCommandName '''' (newLogger demo_examine)))"
    by (simp add: setCommandName_def newLogger_def demo_examine_def)
  from logRequest_returns [OF this] session_step [OF session_new] show ?thesis by fastforce
qed

theorem discoveries_are_what_was_shown_witness:
  "\<exists>l calls d. session demo_examine [demo_keyed] l calls \<and>
     map_get (tk_discoveries (el_tracker l)) ''x-api-key'' = Some d \<and> set (di_urls d) = {''https://api.example.com/v1''}"
proof -
  obtain l calls where s: "session demo_examine [demo_keyed] l calls" using demo_session by blast
  have low: "to_lower ''X-Api-Key'' = ''x-api-key''" "shouldLogHeader (newLogger demo_examine) ''X-Api-Key'' ''k1''" by code_simp+
  have "shownIn (newLogger demo_examine) demo_keyed = {(''x-api-key'', ''https://api.example.com/v1'')}"
    using low by (auto simp: shownIn_def headerPairs_def demo_keyed_def)
  then show ?thesis using discoveries_are_what_was_shown [OF s] s by auto
qed

text \<open>C34: Examining changes nothing but a body that cannot be read. Whatever is shown, the request
  goes on as it came, and so does the response, every byte of the body included; only when bodies are shown and reading one
  fails does the body end, without the error, where the error was. No request is answered by the
  handler, and the sentinel channel is closed exactly when some shown header contains the sentinel.\<close>

theorem examining_is_transparent:
  assumes "session cfg rs l calls" "0 \<le> ec_maxBodyBytes cfg"
  shows "\<exists>es' cs. examineRequestHandler hasChan pa r \<lparr>es_logger = l, es_closed = closed\<rparr> =
      Some (r\<lparr>rq_body := examinedBody cfg (rq_body r)\<rparr>, None, es', cs) \<and>
    (es_closed es' \<longleftrightarrow> closed \<or> hasChan \<and> (\<exists>(n, v) \<in> set (headerPairs (rq_header r)).
       shouldLogHeader (newLogger cfg) n v \<and> str_contains v (ec_sentinel (el_config (newLogger cfg))))) \<and>
    (\<exists>cs'. examineResponseHandler pa (Some r) (Some resp) es' = Some (Some (resp\<lparr>rs_body :=
       (if ec_showResponse cfg then examinedBody cfg (rs_body resp) else rs_body resp)\<rparr>), cs'))"
proof -
  have cfg: "el_config l = el_config (newLogger cfg)" using session_inv [OF assms(1)] by blast
  have same: "shouldLogHeader l = shouldLogHeader (newLogger cfg)" by (rule shouldLogHeader_cong) (rule cfg)
  have max: "0 \<le> ec_maxBodyBytes (el_config l)" using assms(2) by (simp add: cfg newLogger_def)
  have eb: "examinedBody (el_config l) = examinedBody cfg"
  proof
    have "ec_showBody (el_config l) = ec_showBody cfg" by (simp add: cfg newLogger_def)
    then show "examinedBody (el_config l) b = examinedBody cfg b" for b unfolding examinedBody_def by (simp only:)
  qed
  obtain f l' cs where req: "logRequest pa r l = Some (f, r\<lparr>rq_body := examinedBody cfg (rq_body r)\<rparr>, l', cs)"
    using logRequest_returns [OF max] eb by metis
  obtain details where loop: "foldl (headerStep (rq_url r)) (False, l, []) (headerPairs (rq_header r)) = (f, l', details)"
    using logRequest_cases [OF req] by blast
  obtain S where t: "tracks S (el_tracker l)" using session_inv [OF assms(1)] by blast
  have found: "f \<longleftrightarrow> (\<exists>(n, v) \<in> set (headerPairs (rq_header r)). shouldLogHeader (newLogger cfg) n v \<and>
      str_contains v (ec_sentinel (el_config (newLogger cfg))))" and cfg': "el_config l' = el_config l"
    using header_loop [OF t, where url = "rq_url r" and found = False and calls = "[]" and hs = "headerPairs (rq_header r)"]
    unfolding loop same cfg by simp_all
  obtain args where body: "logBody (el_config l') (rs_body resp) = Some (args, examinedBody cfg (rs_body resp))"
    using logBody_ok [OF max] eb cfg' by metis
  have show_resp: "ec_showResponse (el_config l') = ec_showResponse cfg" by (simp add: cfg' cfg newLogger_def)
  have resp: "\<exists>cs'. examineResponseHandler pa (Some r) (Some resp) \<lparr>es_logger = l', es_closed = c\<rparr> = Some (Some (resp\<lparr>rs_body :=
       (if ec_showResponse cfg then examinedBody cfg (rs_body resp) else rs_body resp)\<rparr>), cs')" for c
    using body show_resp by (simp add: examineResponseHandler_def logResponse_def Let_def)
  have "examineRequestHandler hasChan pa r \<lparr>es_logger = l, es_closed = closed\<rparr> =
      Some (r\<lparr>rq_body := examinedBody cfg (rq_body r)\<rparr>, None, \<lparr>es_logger = l', es_closed = closed \<or> f \<and> hasChan\<rparr>, cs)"
    by (simp add: examineRequestHandler_def req)
  moreover have "(closed \<or> f \<and> hasChan) \<longleftrightarrow> closed \<or> hasChan \<and> (\<exists>(n, v) \<in> set (headerPairs (rq_header r)).
       shouldLogHeader (newLogger cfg) n v \<and> str_contains v (ec_sentinel (el_config (newLogger cfg))))"
    unfolding found by blast
  moreover note resp [of "closed \<or> f \<and> hasChan"]
  ultimately show ?thesis
    by (rule_tac x = "\<lparr>es_logger = l', es_closed = closed \<or> f \<and> hasChan\<rparr>" in exI, rule_tac x = cs in exI)
      (intro conjI; simp)
qed

theorem examining_is_transparent_witness:
  "\<exists>l calls es' cs. session demo_examine [demo_keyed] l calls \<and>
     examineRequestHandler True demo_parsed demo_keyed \<lparr>es_logger = l, es_closed = False\<rparr> =
       Some (demo_keyed\<lparr>rq_body := examinedBody demo_examine (rq_body demo_keyed)\<rparr>, None, es', cs) \<and> \<not> es_closed es'"
proof -
  obtain l calls where s: "session demo_examine [demo_keyed] l calls" using demo_session by blast
  have "0 \<le> ec_maxBodyBytes demo_examine" by (simp add: demo_examine_def)
  moreover have "\<not> str_contains ''k1'' (ec_sentinel (el_config (newLogger demo_examine)))" by code_simp
  then have "\<not> (\<exists>(n, v) \<in> set (headerPairs (rq_header demo_keyed)). shouldLogHeader (newLogger demo_examine) n v \<and>
      str_contains v (ec_sentinel (el_config (newLogger demo_examine))))"
    by (simp add: demo_keyed_def headerPairs_def)
  ultimately show ?thesis
    using examining_is_transparent [OF s, of True demo_parsed demo_keyed False demo_response] s by blast
qed

lemma relevant_threshold:
  "isAuthRelevant name ''chaperone-sentinel'' \<longleftrightarrow> to_lower name \<in> set alwaysIncludeHeaders"
proof (rule isAuthRelevant_short)
  show "is_ascii ''chaperone-sentinel''" by simp
  have "list_all (\<lambda>scheme. \<not> has_prefix (to_lower ''chaperone-sentinel'') (to_lower scheme)) knownAuthSchemes" by code_simp
  then show "\<not> has_prefix (to_lower ''chaperone-sentinel'') (to_lower scheme)" if "scheme \<in> set knownAuthSchemes" for scheme
    using that by (simp add: list_all_iff)
qed simp

text \<open>The default sentinel is too short to be found where it matters. The filter hides values of
  less than 20 bytes, and \<open>chaperone-sentinel\<close> has 18: a header that carries just the sentinel is
  looked at only if its name is one of the ten built-in ones. A program that puts its key in any
  other header is never recognized, its header is not discovered, and the run does not end.\<close>

theorem default_sentinel_is_missed:
  assumes "session cfg rs l calls" "ec_sentinel cfg = ''''" "\<not> ec_allHeaders cfg" "0 \<le> ec_maxBodyBytes cfg"
    and "rq_header r = [(name, [''chaperone-sentinel''])]" "to_lower name \<notin> set alwaysIncludeHeaders"
  shows "\<exists>r' l' cs. logRequest pa r l = Some (False, r', l', cs) \<and> el_tracker l' = el_tracker l \<and> length cs = 1"
proof -
  have cfg: "el_config l = el_config (newLogger cfg)" using session_inv [OF assms(1)] by blast
  have hidden: "\<not> shouldLogHeader l name ''chaperone-sentinel''"
    using assms(3,6) relevant_threshold [of name] by (simp add: shouldLogHeader_def cfg newLogger_def)
  have max: "0 \<le> ec_maxBodyBytes (el_config l)" using assms(4) by (simp add: cfg newLogger_def)
  obtain f l' cs where req: "logRequest pa r l = Some (f, r\<lparr>rq_body := examinedBody (el_config l) (rq_body r)\<rparr>, l', cs)"
    using logRequest_returns [OF max] by blast
  obtain args details where c: "cs = (levelInfo, ''request'', args) # details"
      "foldl (headerStep (rq_url r)) (False, l, []) (headerPairs (rq_header r)) = (f, l', details)"
    using logRequest_cases [OF req] by blast
  have "headerPairs (rq_header r) = [(name, ''chaperone-sentinel'')]" by (simp add: assms(5) headerPairs_def)
  then have "f = False" "l' = l" "details = []"
    using c(2) headerStep_hidden [OF hidden, of "rq_url r" False "[]"] by simp_all
  then show ?thesis using req c(1) by auto
qed

theorem default_sentinel_is_missed_witness:
  "\<exists>l calls r' l' cs. session demo_examine [demo_keyed] l calls \<and>
     logRequest demo_parsed (demo_request\<lparr>rq_header := [(''Xi-Api-Token'', [''chaperone-sentinel''])]\<rparr>) l = Some (False, r', l', cs) \<and>
     el_tracker l' = el_tracker l"
proof -
  obtain l calls where s: "session demo_examine [demo_keyed] l calls" using demo_session by blast
  have "to_lower ''Xi-Api-Token'' \<notin> set alwaysIncludeHeaders" by code_simp
  then show ?thesis
    using default_sentinel_is_missed [OF s, of "demo_request\<lparr>rq_header := [(''Xi-Api-Token'', [''chaperone-sentinel''])]\<rparr>"
        "''Xi-Api-Token''" demo_parsed] s
    by (simp add: demo_examine_def) blast
qed

lemma str_index_scheme: "CHR '':'' \<notin> set a \<Longrightarrow> str_index (a @ ''://'' @ t) ''://'' = Some (length a)"
  by (induction a) auto

text \<open>The suggested configuration fits the traffic it was derived from. For a discovery whose first
  URL is \<open>scheme://host\<close> followed by a port, a path or a query, the suggested host pattern is that
  host: a service registered under it is what the daemon looks up for the host, with or without a
  port. And the suggested strategy is bearer for \<open>Authorization\<close>, and otherwise the one that sets
  exactly the discovered header.\<close>

theorem suggestion_fits_the_traffic:
  assumes "di_urls d = (scheme @ ''://'' @ host @ rest) # urls" "CHR '':'' \<notin> set scheme"
    and "CHR ''/'' \<notin> set host" "CHR ''?'' \<notin> set host" "plain_host host"
    and "rest = '''' \<or> hd rest \<in> {CHR '':'', CHR ''/'', CHR ''?''}"
    and "registry_ok r" "hostPattern s = discoveredHost d" "reg_upsert (Some s) r = (None, r')"
    and "plain_host port" "is_trimmed (host @ CHR '':'' # port)" "is_trimmed host"
  shows "discoveredHost d = host \<and> reg_lookup host r' = Inr s \<and> reg_lookup (host @ CHR '':'' # port) r' = Inr s \<and>
    (if to_lower (di_header d) = ''authorization'' then canonicalAuthRef (guessAuthStrategy (di_header d)) '''' = ''bearer''
     else headerNameFromRef (canonicalAuthRef (guessAuthStrategy (di_header d)) '''') = (di_header d, True))"
proof -
  have ip: "str_index (scheme @ ''://'' @ host @ rest) ''://'' = Some (length scheme)"
    using assms(2) by (rule str_index_scheme)
  have url: "scheme @ ''://'' @ host @ rest \<noteq> ''''" by simp
  have "takeWhile (\<lambda>c. c \<notin> {CHR '':'', CHR ''/'', CHR ''?''}) (host @ rest) = host"
  proof -
    have "\<forall>c \<in> set host. c \<notin> {CHR '':'', CHR ''/'', CHR ''?''}" using assms(3-5) by (auto simp: plain_host_def)
    moreover have "takeWhile (\<lambda>c. c \<notin> {CHR '':'', CHR ''/'', CHR ''?''}) rest = []" using assms(6) by (cases rest) auto
    ultimately show ?thesis by (simp add: takeWhile_append2)
  qed
  then have host: "discoveredHost d = host"
    using assms(1) url by (simp add: discoveredHost_def extractHostFromURL_def ip [simplified])
  have key: "normalizeHostname host = serviceKey (hostPattern s)" "normalizeHostname (host @ CHR '':'' # port) = serviceKey (hostPattern s)"
    using assms(5,8,10-12) host normalizeHostname_no_colon [of host] normalizeHostname_port [of host port]
    by (simp_all add: plain_host_def serviceKey_def trim_space_fixed)
  show ?thesis
    using host upsert_then_lookup [OF assms(7,9)] key
    by (auto simp: guessAuthStrategy_def canonicalAuthRef_def headerNameFromRef_def headerPrefix_def cut_prefix_def has_prefix_def)
qed

definition demo_found :: discovery where
  "demo_found = \<lparr>di_header = ''X-Api-Key'', di_urls = [''https://api.example.com:443/v1''], di_truncated = ''k1'',
     di_sentinel = False, di_standard = True\<rparr>"

theorem suggestion_fits_the_traffic_witness:
  "\<exists>r'. reg_upsert (Some (demo_service\<lparr>hostPattern := ''api.example.com''\<rparr>)) newRegistry = (None, r') \<and>
     reg_lookup ''api.example.com:8443'' r' = Inr (demo_service\<lparr>hostPattern := ''api.example.com''\<rparr>)"
proof -
  let ?s = "demo_service\<lparr>hostPattern := ''api.example.com''\<rparr>"
  have "fst (reg_upsert (Some ?s) newRegistry) = None" by code_simp
  then obtain r' where up: "reg_upsert (Some ?s) newRegistry = (None, r')" by (cases "reg_upsert (Some ?s) newRegistry") simp
  have h: "plain_host ''api.example.com''" "plain_host ''8443''" "is_trimmed (''api.example.com'' @ CHR '':'' # ''8443'')"
      "is_trimmed ''api.example.com''" "hostPattern ?s = discoveredHost demo_found"
      "CHR '':'' \<notin> set ''https''" "CHR ''/'' \<notin> set ''api.example.com''" "CHR ''?'' \<notin> set ''api.example.com''"
    by code_simp+
  have u: "di_urls demo_found = (''https'' @ ''://'' @ ''api.example.com'' @ '':443/v1'') # []" by (simp add: demo_found_def)
  show ?thesis
    using suggestion_fits_the_traffic [OF u h(6-8,1) _ registry_ok_new h(5) up h(2-4)] up by auto
qed

text \<open>The suggested keychain reference does not find the suggested keychain item. Both reports tell
  the user of a Mac to store the key under the service \<open>chaperone/NAME\<close> and to refer to it as
  \<open>keychain:chaperone/NAME\<close> (or with \<open>/api_key\<close> after it). The provider splits a reference at its first slash and asks
  for the service \<open>chaperone\<close>, so with a keychain that holds the stored item only, fetching the
  reference fails with \<open>not found\<close>.\<close>

theorem suggested_keychain_reference_misses:
  assumes "serviceNameOf l = name" "name \<noteq> ''''" "os_goos os = ''darwin''"
    and "\<And>service account. os_security os service account =
       (if service = ''chaperone/'' @ name then (key, None) else (''The item could not be found.'', Some notFound))"
  shows "''# credential_ref = '' @ quoted (''keychain:'' @ ''chaperone/'' @ name) @ '' # MacOS Only''
       \<in> set (exampleConfigLines True (serviceNameOf l) d) \<and>
     keychainFetch os None (''chaperone/'' @ name) = Inl (Sentinel ErrSecretNotFound) \<and>
     ''# credential_ref = '' @ quoted (''keychain:'' @ (''chaperone/'' @ name) @ ''/api_key'')
       \<in> set (completeConfigLines True (serviceNameOf l) d) \<and>
     keychainFetch os None ((''chaperone/'' @ name) @ ''/api_key'') = Inl (Sentinel ErrSecretNotFound)"
proof -
  have miss: "keychainFetch os None (''chaperone/'' @ a) = Inl (Sentinel ErrSecretNotFound)" if "a \<noteq> ''''" for a
  proof -
    have "parseKeychainPath (''chaperone/'' @ a) = Inr (''chaperone'', a)"
      using that parseKeychainPath_Inr_iff [of "''chaperone/'' @ a" "''chaperone''" a] by simp
    moreover have "str_contains ''The item could not be found.'' ''could not be found''" by code_simp
    moreover have "''chaperone'' \<noteq> ''chaperone/'' @ name" by simp
    ultimately show ?thesis using assms(3) by (simp add: keychainFetch_def assms(4))
  qed
  show ?thesis
    using miss [of name] miss [of "name @ ''/api_key''"] assms(1,2)
    by (simp add: exampleConfigLines_def completeConfigLines_def Let_def)
qed

theorem suggested_keychain_reference_misses_witness:
  "\<exists>os. os_security os ''chaperone/myservice'' '''' = (''sk-1'', None) \<and>
     keychainFetch os None ''chaperone/myservice'' = Inl (Sentinel ErrSecretNotFound)"
proof -
  define os where "os = demo_os\<lparr>os_goos := ''darwin'', os_security := (\<lambda>service account.
     if service = ''chaperone/'' @ ''myservice'' then (''sk-1'', None) else (''The item could not be found.'', Some (Errorf '''' [])))\<rparr>"
  have "serviceNameOf (newLogger demo_examine) = ''myservice''" "os_goos os = ''darwin''"
    by (simp_all add: serviceNameOf_def newLogger_def os_def)
  moreover have "os_security os service account = (if service = ''chaperone/'' @ ''myservice'' then (''sk-1'', None)
      else (''The item could not be found.'', Some (Errorf '''' [])))" for service account
    by (simp add: os_def)
  ultimately have "keychainFetch os None (''chaperone/'' @ ''myservice'') = Inl (Sentinel ErrSecretNotFound)"
    using suggested_keychain_reference_misses [of "newLogger demo_examine" "''myservice''" os] by blast
  then show ?thesis by (intro exI [of _ os]) (simp add: os_def)
qed

subsection \<open>How much is shown\<close>

lemma truncateMiddle_bound: "length (truncateMiddle s a b) \<le> a + b + 3"
  by (auto simp: truncateMiddle_def)

definition detail_bounded :: "string set \<Rightarrow> log_call \<Rightarrow> bool" where
  "detail_bounded names call \<longleftrightarrow> (case call of (lvl, msg, args) \<Rightarrow> msg = ''detail'' \<longrightarrow>
     (\<exists>n \<in> names. \<exists>t color. args = [LStr ''detail_text'', LStr t, LStr ''detail_color'', LStr color,
        LStr ''detail_bg'', LAny (VBool True)] \<and> length t \<le> length n + 36))"

lemma detail_bounded_mono: "detail_bounded N c \<Longrightarrow> N \<subseteq> M \<Longrightarrow> detail_bounded M c"
  unfolding detail_bounded_def by (auto split: prod.splits)

definition cut_values :: "tracker \<Rightarrow> bool" where
  "cut_values dt \<longleftrightarrow> (\<forall>d \<in> set (getDiscoveries dt). length (di_truncated d) \<le> 15)"

lemma map_put_subset: "p \<in> set (map_put k v m) \<Longrightarrow> p = (k, v) \<or> p \<in> set m"
  by (induction m) (auto split: if_splits)

lemma trackHeader_cut:
  "cut_values dt \<Longrightarrow> length t \<le> 15 \<Longrightarrow> cut_values (trackHeader n u t f s dt)"
  by (auto simp: trackHeader_def cut_values_def getDiscoveries_def Let_def split: option.splits
      dest!: map_of_SomeD map_put_subset)

lemma logAuthHeaderLine_bounded:
  assumes "logAuthHeaderLine n v url l = (f, l', cs)" "cut_values (el_tracker l)"
  shows "cut_values (el_tracker l')" "\<forall>c \<in> set cs. detail_bounded {n} c"
proof -
  have t: "length (truncateMiddle v 8 4) \<le> 15" using truncateMiddle_bound [of v 8 4] by simp
  have mark: "cut_values (markHeaderSeen n dt) = cut_values dt" for dt by (simp add: cut_values_def markHeaderSeen_def getDiscoveries_def)
  show "cut_values (el_tracker l')"
    using assms trackHeader_cut [OF assms(2) t] by (auto simp: logAuthHeaderLine_def Let_def mark split: if_splits)
  show "\<forall>c \<in> set cs. detail_bounded {n} c"
    using assms(1) t by (auto simp: logAuthHeaderLine_def Let_def logDetail_def detail_bounded_def checkMark_def split: if_splits)
qed

lemma header_loop_bounded:
  "foldl (headerStep url) (found, l, calls) hs = (found', l', calls') \<Longrightarrow> cut_values (el_tracker l) \<Longrightarrow>
   \<forall>c \<in> set calls. detail_bounded N c \<Longrightarrow> fst ` set hs \<subseteq> N \<Longrightarrow>
   cut_values (el_tracker l') \<and> (\<forall>c \<in> set calls'. detail_bounded N c)"
proof (induction hs arbitrary: found l calls)
  case (Cons h hs)
  obtain n v where h: "h = (n, v)" by fastforce
  show ?case
  proof (cases "shouldLogHeader l n v")
    case True
    obtain f l1 cs where line: "logAuthHeaderLine n v url l = (f, l1, cs)" by (metis prod_cases3)
    note b = logAuthHeaderLine_bounded [OF line Cons.prems(2)]
    have "\<forall>c \<in> set (calls @ cs). detail_bounded N c"
      using b(2) Cons.prems(3,4) detail_bounded_mono [of "{n}" _ N] by (auto simp: h)
    then show ?thesis
      using Cons.IH [of "found \<or> f" l1 "calls @ cs"] Cons.prems(1,4) b(1) line True by (simp add: h headerStep_shown)
  next
    case False
    then show ?thesis using Cons.IH [of found l calls] Cons.prems by (simp add: h headerStep_hidden)
  qed
qed simp

lemma session_bounded:
  "session cfg rs l calls \<Longrightarrow> cut_values (el_tracker l) \<and>
     (\<forall>c \<in> set calls. detail_bounded (\<Union>r \<in> set rs. fst ` set (headerPairs (rq_header r))) c)"
proof (induction rule: session.induct)
  case (session_new cmd)
  show ?case by (simp add: newLogger_def setCommandName_def newDiscoveryTracker_def cut_values_def getDiscoveries_def)
next
  case (session_step rs l calls pa r f r' l' cs)
  let ?N = "\<Union>r \<in> set (rs @ [r]). fst ` set (headerPairs (rq_header r))"
  obtain args details where c: "cs = (levelInfo, ''request'', args) # details"
      "foldl (headerStep (rq_url r)) (False, l, []) (headerPairs (rq_header r)) = (f, l', details)"
    using logRequest_cases [OF session_step.hyps(2)] by blast
  have "cut_values (el_tracker l') \<and> (\<forall>c \<in> set details. detail_bounded ?N c)"
    using header_loop_bounded [OF c(2), where N = ?N] session_step.IH by auto
  moreover have "\<forall>c \<in> set calls. detail_bounded ?N c"
    using session_step.IH detail_bounded_mono [of _ _ ?N] by auto
  moreover have "detail_bounded ?N (levelInfo, ''request'', args)" by (simp add: detail_bounded_def)
  ultimately show ?case unfolding c(1) by (metis Un_iff set_ConsD set_append)
qed



end
