(* ===== verification/Control_Client.thy ===== *)
theory Control_Client
  imports Control
begin

text \<open>
  \<open>control/client.go\<close>, the typed client of the control socket, and package \<open>mcpgrants\<close>, the tools an
  agent calls, which relay to it. The JSON encoders and decoders of both ends are the record \<open>codec\<close>,
  an argument; so is the connection: \<open>down\<close> is the error of \<open>http.Client.Do\<close> when no daemon answers,
  and otherwise the request reaches the server's handlers. A tool error is the result the MCP
  library makes of a handler's error: its text, with \<open>IsError\<close> set.
\<close>

subsection \<open>The client\<close>

record codec =
  cd_marshalGrant :: "grant_request \<Rightarrow> go_error + string"
  cd_marshalRevoke :: "string \<Rightarrow> go_error + string"
  cd_encode :: "control_body \<Rightarrow> string"
  cd_error :: "string \<Rightarrow> string option"
  cd_grant :: "string \<Rightarrow> go_error + service_view"
  cd_revoke :: "string \<Rightarrow> go_error + string \<times> bool"
  cd_list :: "string \<Rightarrow> go_error + service_view list"
  cd_listGrantable :: "string \<Rightarrow> go_error + pairing_view list"

record connection =
  cn_socketPath :: string
  cn_down :: "go_error option"
  cn_codec :: codec
  cn_decoders :: decoders
  cn_enforcer :: enforcer

definition exchange ::
  "connection \<Rightarrow> string \<Rightarrow> string \<Rightarrow> string \<Rightarrow> control_state \<Rightarrow> (go_error + int \<times> string) \<times> control_state" where
  "exchange c verb path body st = (case cn_down c of
     Some err \<Rightarrow> (Inl err, st)
   | None \<Rightarrow> (case serveControl (cn_decoders c) (cn_enforcer c) path verb body st of
       ((status, b), st') \<Rightarrow> (Inr (status, cd_encode (cn_codec c) b), st')))"

definition clientDo ::
  "connection \<Rightarrow> string \<Rightarrow> string \<Rightarrow> go_error + string \<Rightarrow> (string \<Rightarrow> go_error + 'a) \<Rightarrow> control_state
   \<Rightarrow> (go_error + 'a) \<times> control_state" where
  "clientDo c verb path reqBody decode st = (case reqBody of
     Inl err \<Rightarrow> (Inl (Wrapf ''control: encode request: %w'' [] err), st)
   | Inr body \<Rightarrow> (case exchange c verb path body st of
       (Inl err, st') \<Rightarrow> (Inl (Wrapf ''control plane not reachable at %s (is the chaperone daemon running?): %w''
           [Str (cn_socketPath c)] err), st')
     | (Inr (status, resp), st') \<Rightarrow>
         (if status div 100 \<noteq> 2
          then (case cd_error (cn_codec c) resp of
              Some msg \<Rightarrow> if msg \<noteq> '''' then Inl (Errorf ''%s'' [Str msg])
                else Inl (Errorf ''control: request failed with status %d'' [Num status])
            | None \<Rightarrow> Inl (Errorf ''control: request failed with status %d'' [Num status]), st')
          else (case decode resp of
              Inl err \<Rightarrow> Inl (Wrapf ''control: decode response: %w'' [] err)
            | Inr v \<Rightarrow> Inr v, st'))))"

definition clientGrant :: "connection \<Rightarrow> grant_request \<Rightarrow> control_state \<Rightarrow> (go_error + service_view) \<times> control_state" where
  "clientGrant c req = clientDo c ''POST'' ''/grant'' (cd_marshalGrant (cn_codec c) req) (cd_grant (cn_codec c))"

definition clientRevoke :: "connection \<Rightarrow> string \<Rightarrow> control_state \<Rightarrow> (go_error + string \<times> bool) \<times> control_state" where
  "clientRevoke c host = clientDo c ''POST'' ''/revoke'' (cd_marshalRevoke (cn_codec c) host) (cd_revoke (cn_codec c))"

definition clientList :: "connection \<Rightarrow> control_state \<Rightarrow> (go_error + service_view list) \<times> control_state" where
  "clientList c = clientDo c ''GET'' ''/list'' (Inr '''') (cd_list (cn_codec c))"

definition clientListGrantable :: "connection \<Rightarrow> control_state \<Rightarrow> (go_error + pairing_view list) \<times> control_state" where
  "clientListGrantable c = clientDo c ''GET'' ''/list-grantable'' (Inr '''') (cd_listGrantable (cn_codec c))"

subsection \<open>The tools\<close>

datatype tool_call = ListGrantableTool | GrantTool grant_request | RevokeTool string | ListTool

definition tool_name :: "tool_call \<Rightarrow> string" where
  "tool_name t = (case t of ListGrantableTool \<Rightarrow> ''chaperone_list_grantable'' | GrantTool _ \<Rightarrow> ''chaperone_grant''
     | RevokeTool _ \<Rightarrow> ''chaperone_revoke'' | ListTool \<Rightarrow> ''chaperone_list'')"

datatype tool_result = ToolResult control_body | ToolError string

definition toolResult :: "('a \<Rightarrow> control_body) \<Rightarrow> (go_error + 'a) \<times> control_state \<Rightarrow> tool_result \<times> control_state" where
  "toolResult f rs = (case rs of (Inl err, st) \<Rightarrow> (ToolError (error_text err), st) | (Inr v, st) \<Rightarrow> (ToolResult (f v), st))"

definition callTool :: "connection \<Rightarrow> tool_call \<Rightarrow> control_state \<Rightarrow> tool_result \<times> control_state" where
  "callTool c t st = (case t of
     ListGrantableTool \<Rightarrow> toolResult ListGrantableBody (clientListGrantable c st)
   | GrantTool req \<Rightarrow> toolResult GrantBody (clientGrant c req st)
   | RevokeTool host \<Rightarrow> toolResult (\<lambda>(h, b). RevokeBody h b) (clientRevoke c host st)
   | ListTool \<Rightarrow> toolResult ListBody (clientList c st))"

text \<open>Every sequence of tool calls, each over a connection of its own: the daemon may be away for some.\<close>

inductive agent_run :: "decoders \<Rightarrow> enforcer \<Rightarrow> control_state \<Rightarrow> control_state \<Rightarrow> bool" for d e st0 where
  agent_start: "agent_run d e st0 st0"
| agent_call: "agent_run d e st0 st \<Longrightarrow> cn_decoders c = d \<Longrightarrow> cn_enforcer c = e \<Longrightarrow>
     agent_run d e st0 (snd (callTool c t st))"

inductive_cases agent_runE: "agent_run d e st0 st"

subsection \<open>Lemmas\<close>

text \<open>A codec is faithful on a body when the client reads what the server wrote.\<close>

definition body_faithful :: "codec \<Rightarrow> control_body \<Rightarrow> bool" where
  "body_faithful c b \<longleftrightarrow> (case b of
     GrantBody v \<Rightarrow> cd_grant c (cd_encode c b) = Inr v
   | RevokeBody h r \<Rightarrow> cd_revoke c (cd_encode c b) = Inr (h, r)
   | ListBody vs \<Rightarrow> cd_list c (cd_encode c b) = Inr vs
   | ListGrantableBody ps \<Rightarrow> cd_listGrantable c (cd_encode c b) = Inr ps
   | ErrorBody err \<Rightarrow> cd_error c (cd_encode c b) = Some (error_text err)
   | NotFoundPage \<Rightarrow> True)"

lemma clientDo_serves:
  "clientDo c verb path (Inr body) decode st = (res, st') \<Longrightarrow>
     st' = (if cn_down c = None then snd (serveControl (cn_decoders c) (cn_enforcer c) path verb body st) else st)"
  by (auto simp: clientDo_def exchange_def split: option.splits sum.splits prod.splits if_splits)

lemma clientDo_state:
  "snd (clientDo c verb path rb decode st) = st \<or>
   (\<exists>body. snd (clientDo c verb path rb decode st) = snd (serveControl (cn_decoders c) (cn_enforcer c) path verb body st))"
proof (cases rb)
  case (Inl err)
  then show ?thesis by (simp add: clientDo_def)
next
  case (Inr body)
  then show ?thesis using clientDo_serves [of c verb path body decode st] by (metis prod.collapse)
qed

lemma callTool_state:
  "snd (callTool c t st) = st \<or>
   (\<exists>path verb body. snd (callTool c t st) = snd (serveControl (cn_decoders c) (cn_enforcer c) path verb body st))"
proof -
  have res: "snd (toolResult f rs) = snd rs" for f :: "'a \<Rightarrow> control_body" and rs
    by (auto simp: toolResult_def split: prod.splits sum.splits)
  show ?thesis
    by (cases t; simp add: callTool_def res clientListGrantable_def clientGrant_def clientRevoke_def clientList_def)
      (metis clientDo_state)+
qed

lemma agent_reaches: "agent_run d e st0 st \<Longrightarrow> control_reachable d e st0 st"
proof (induction rule: agent_run.induct)
  case agent_start
  show ?case by (rule control_init)
next
  case (agent_call st c t)
  then show ?case using callTool_state [of c t st] control_serve by metis
qed

lemma sprintf_nonempty: "fmt \<noteq> '''' \<Longrightarrow> hd fmt \<noteq> CHR ''%'' \<Longrightarrow> sprintf fmt args \<noteq> ''''"
  by (cases "(fmt, args)" rule: sprintf.cases) auto

lemma authorize_error_text: "authorize e (Some s) = Some err \<Longrightarrow> error_text err \<noteq> ''''"
  by (auto simp: authorize_def operatorOnlyFieldsEmpty_def Let_def sprintf_nonempty split: option.splits if_splits)

definition response :: "connection \<Rightarrow> string \<Rightarrow> string \<Rightarrow> string \<Rightarrow> control_state \<Rightarrow> control_body" where
  "response c verb path body st = snd (fst (serveControl (cn_decoders c) (cn_enforcer c) path verb body st))"

lemma error_text_verbatim: "error_text (Errorf ''%s'' [Str m]) = m"
  by simp

subsection \<open>Properties\<close>

text \<open>The client sees what the operation returned. With a daemon at the other end and a codec that
  is faithful on the request and on the response, each of the four calls returns exactly the result
  of the daemon's own operation and changes the daemon's state exactly as it does; and when the
  operation fails, the text of the client's error is the text of the daemon's, word for word.\<close>

theorem client_sees_what_the_daemon_did:
  assumes "cn_down c = None"
    and "cd_marshalGrant (cn_codec c) req = Inr gbody" "dec_grant (cn_decoders c) gbody = Inr req"
    and "cd_marshalRevoke (cn_codec c) host = Inr rbody" "dec_revoke (cn_decoders c) rbody = Inr host"
    and "body_faithful (cn_codec c) (response c ''POST'' ''/grant'' gbody st)"
    and "body_faithful (cn_codec c) (response c ''POST'' ''/revoke'' rbody st)"
    and "body_faithful (cn_codec c) (response c ''GET'' ''/list'' '''' st)"
    and "body_faithful (cn_codec c) (response c ''GET'' ''/list-grantable'' '''' st)"
  shows "(case apiGrant (cn_enforcer c) req st of
      (Inr v, st') \<Rightarrow> clientGrant c req st = (Inr v, st')
    | (Inl e, st') \<Rightarrow> \<exists>err. clientGrant c req st = (Inl err, st') \<and> error_text err = error_text (api_message e)) \<and>
    (case apiRevoke host st of
      (Inr v, st') \<Rightarrow> clientRevoke c host st = (Inr v, st')
    | (Inl e, st') \<Rightarrow> \<exists>err. clientRevoke c host st = (Inl err, st') \<and> error_text err = error_text (api_message e)) \<and>
    clientList c st = (Inr (apiList st), st) \<and>
    clientListGrantable c st = (Inr (apiListGrantable (cn_enforcer c)), st)"
proof (intro conjI)
  show "case apiGrant (cn_enforcer c) req st of
      (Inr v, st') \<Rightarrow> clientGrant c req st = (Inr v, st')
    | (Inl e, st') \<Rightarrow> \<exists>err. clientGrant c req st = (Inl err, st') \<and> error_text err = error_text (api_message e)"
  proof -
    obtain res st' where api: "apiGrant (cn_enforcer c) req st = (res, st')" by (cases "apiGrant (cn_enforcer c) req st")
    show ?thesis
    proof (cases res)
      case (Inl ae)
      then have srv: "serveControl (cn_decoders c) (cn_enforcer c) ''/grant'' ''POST'' gbody st =
          ((statusFor ae, ErrorBody (api_message ae)), st')"
        using api assms(3) by (simp add: serveControl_def handleGrant_def)
      have ne: "error_text (api_message ae) \<noteq> ''''"
        using api Inl by (cases rule: apiGrant_cases)
          (auto simp: api_message_def authorize_error_text sprintf_nonempty)
      have "statusFor ae div 100 \<noteq> 2" by (simp add: statusFor_def split: api_error.splits err_kind.splits)
      then show ?thesis
        using assms(1,2,6) api Inl ne srv
        by (simp add: clientGrant_def clientDo_def exchange_def response_def body_faithful_def)
    next
      case (Inr v)
      then have "serveControl (cn_decoders c) (cn_enforcer c) ''/grant'' ''POST'' gbody st = ((200, GrantBody v), st')"
        using api assms(3) by (simp add: serveControl_def handleGrant_def)
      then show ?thesis
        using assms(1,2,6) api Inr by (simp add: clientGrant_def clientDo_def exchange_def response_def body_faithful_def)
    qed
  qed
  show "case apiRevoke host st of
      (Inr v, st') \<Rightarrow> clientRevoke c host st = (Inr v, st')
    | (Inl e, st') \<Rightarrow> \<exists>err. clientRevoke c host st = (Inl err, st') \<and> error_text err = error_text (api_message e)"
  proof (cases "host = ''''")
    case True
    then show ?thesis
      using assms(1,4,5,7)
      by (simp add: clientRevoke_def clientDo_def exchange_def response_def body_faithful_def serveControl_def handleRevoke_def
          apiRevoke_def statusFor_def api_message_def)
  next
    case False
    obtain err r where "reg_unregister host (cs_registry st) = (err, r)" by (cases "reg_unregister host (cs_registry st)")
    with False obtain v st' where api: "apiRevoke host st = (Inr v, st')" by (simp add: apiRevoke_def Let_def)
    then have "serveControl (cn_decoders c) (cn_enforcer c) ''/revoke'' ''POST'' rbody st = ((200, RevokeBody (fst v) (snd v)), st')"
      using assms(5) by (simp add: serveControl_def handleRevoke_def split: prod.splits)
    then show ?thesis
      using assms(1,4,7) api by (simp add: clientRevoke_def clientDo_def exchange_def response_def body_faithful_def)
  qed
  show "clientList c st = (Inr (apiList st), st)"
    using assms(1,8) by (simp add: clientList_def clientDo_def exchange_def response_def body_faithful_def serveControl_def handleList_def)
  show "clientListGrantable c st = (Inr (apiListGrantable (cn_enforcer c)), st)"
    using assms(1,9)
    by (simp add: clientListGrantable_def clientDo_def exchange_def response_def body_faithful_def serveControl_def handleListGrantable_def)
qed

text \<open>An agent cannot leave the operator's universe, and an absent daemon is never mistaken for an
  empty one. Whatever tools an agent calls in whatever order, a service the daemon then resolves for
  any host was there at the start or lies within a grantable entry of the configuration. And a call
  while no daemon listens ends in a tool error and changes nothing.\<close>

theorem agent_stays_within_the_universe:
  assumes "newEnforcer gs = Inr e" "registry_ok (cs_registry st0)" "agent_run d e st0 st"
  shows "(\<forall>h s. reg_lookup h (cs_registry st) = Inr s \<longrightarrow>
      (\<exists>k. map_get (cs_registry st0) k = Some s) \<or> (\<exists>g \<in> set gs. within_grantable g s)) \<and>
    (\<forall>c t err. cn_down c = Some err \<longrightarrow> (\<exists>msg. callTool c t st = (ToolError msg, st)))"
proof (intro conjI allI impI)
  show "(\<exists>k. map_get (cs_registry st0) k = Some s) \<or> (\<exists>g \<in> set gs. within_grantable g s)"
    if "reg_lookup h (cs_registry st) = Inr s" for h s
    using control_reachable_approved [OF assms(1,2) agent_reaches [OF assms(3)] that] .
  show "\<exists>msg. callTool c t st = (ToolError msg, st)" if "cn_down c = Some err" for c t err
    using that by (cases t)
      (auto simp: callTool_def toolResult_def clientGrant_def clientRevoke_def clientList_def clientListGrantable_def
        clientDo_def exchange_def split: sum.splits)
qed

definition demo_codec :: codec where
  "demo_codec = \<lparr>cd_marshalGrant = (\<lambda>_. Inr ''{}''), cd_marshalRevoke = (\<lambda>_. Inr ''{}''), cd_encode = (\<lambda>_. ''{}''),
     cd_error = (\<lambda>_. None), cd_grant = (\<lambda>_. Inr (serviceView (grantedService demo_grant))),
     cd_revoke = (\<lambda>_. Inr (''h'', False)), cd_list = (\<lambda>_. Inr []),
     cd_listGrantable = (\<lambda>_. Inr (apiListGrantable demo_enforcer))\<rparr>"

definition demo_connection :: connection where
  "demo_connection = \<lparr>cn_socketPath = ''/s'', cn_down = None, cn_codec = demo_codec,
     cn_decoders = \<lparr>dec_grant = (\<lambda>_. Inr demo_grant), dec_revoke = (\<lambda>_. Inr ''h'')\<rparr>, cn_enforcer = demo_enforcer\<rparr>"

theorem client_sees_what_the_daemon_did_witness:
  "\<exists>st'. clientGrant demo_connection demo_grant demo_state = (Inr (serviceView (grantedService demo_grant)), st')"
proof -
  have api: "fst (apiGrant demo_enforcer demo_grant demo_state) = Inr (serviceView (grantedService demo_grant))" by code_simp
  have f: "body_faithful demo_codec (response demo_connection ''POST'' ''/grant'' ''{}'' demo_state)"
      "body_faithful demo_codec (response demo_connection ''POST'' ''/revoke'' ''{}'' demo_state)"
      "body_faithful demo_codec (response demo_connection ''GET'' ''/list'' '''' demo_state)"
      "body_faithful demo_codec (response demo_connection ''GET'' ''/list-grantable'' '''' demo_state)"
    by code_simp+
  have c: "cn_down demo_connection = None" "cn_codec demo_connection = demo_codec" "cn_enforcer demo_connection = demo_enforcer"
      "cd_marshalGrant demo_codec demo_grant = Inr ''{}''" "dec_grant (cn_decoders demo_connection) ''{}'' = Inr demo_grant"
      "cd_marshalRevoke demo_codec ''h'' = Inr ''{}''" "dec_revoke (cn_decoders demo_connection) ''{}'' = Inr ''h''"
    by (simp_all add: demo_connection_def demo_codec_def)
  obtain st' where "apiGrant demo_enforcer demo_grant demo_state = (Inr (serviceView (grantedService demo_grant)), st')"
    using api by (metis prod.collapse)
  with client_sees_what_the_daemon_did [of demo_connection, unfolded c(2,3), OF c(1,4-7) f] show ?thesis by auto
qed

theorem agent_stays_within_the_universe_witness:
  "\<exists>st. agent_run (cn_decoders demo_connection) demo_enforcer demo_state st \<and>
     (\<exists>g \<in> set [demo_grantable]. within_grantable g (grantedService demo_grant))"
proof -
  let ?st = "snd (callTool demo_connection (GrantTool demo_grant) demo_state)"
  have run: "agent_run (cn_decoders demo_connection) demo_enforcer demo_state ?st"
    by (intro agent_call agent_start) (simp_all add: demo_connection_def)
  have "reg_lookup ''api.example.com:443'' (cs_registry ?st) = Inr (grantedService demo_grant)" by code_simp
  moreover have "registry_ok (cs_registry demo_state)" "cs_registry demo_state = []" by code_simp+
  ultimately show ?thesis
    using agent_stays_within_the_universe [OF demo_enforcer_eq _ run] run by fastforce
qed

end
