(* ===== verification/Control_Socket.thy ===== *)
theory Control_Socket
  imports Errors
begin

text \<open>
  The life of the control socket: \<open>NewServer\<close>, \<open>Start\<close>, \<open>Stop\<close> and \<open>listenUnix\<close> of \<open>control/server.go\<close>.
  The world is what lies at the one path: nothing, a socket bound by some listener, or another file,
  with its mode; and which listeners are open. A system call fails as the operating system makes it
  fail, the record \<open>sys\<close>. Binding fails with \<open>EADDRINUSE\<close> on whatever lies at the path; a dial
  reaches the open listener that bound the file; closing a listener made by \<open>net.Listen\<close> unlinks its
  path. A daemon's start is a sequence of steps, so that the starts of several daemons interleave.
\<close>

datatype sock_entry = SockFile nat | PlainFile

record sock_world =
  sw_entry :: "sock_entry option"
  sw_mode :: nat
  sw_open :: "nat set"

datatype sys_error = AddrInUse | NotExist | SysError go_error

record sys =
  sys_bind :: "go_error option"
  sys_dial :: "go_error option"
  sys_remove :: "go_error option"
  sys_chmod :: "go_error option"
  sys_shutdown :: "go_error option"
  sys_umasked :: nat

definition sysListen :: "sys \<Rightarrow> nat \<Rightarrow> sock_world \<Rightarrow> sys_error option \<times> sock_world" where
  "sysListen y i w = (case sys_bind y of
     Some err \<Rightarrow> (Some (SysError err), w)
   | None \<Rightarrow> if sw_entry w \<noteq> None then (Some AddrInUse, w)
       else (None, w\<lparr>sw_entry := Some (SockFile i), sw_mode := sys_umasked y, sw_open := insert i (sw_open w)\<rparr>))"

definition sysDial :: "sys \<Rightarrow> sock_world \<Rightarrow> bool" where
  "sysDial y w \<longleftrightarrow> sys_dial y = None \<and> (case sw_entry w of Some (SockFile i) \<Rightarrow> i \<in> sw_open w | _ \<Rightarrow> False)"

definition sysRemove :: "sys \<Rightarrow> sock_world \<Rightarrow> sys_error option \<times> sock_world" where
  "sysRemove y w = (if sw_entry w = None then (Some NotExist, w)
     else case sys_remove y of Some err \<Rightarrow> (Some (SysError err), w) | None \<Rightarrow> (None, w\<lparr>sw_entry := None\<rparr>))"

definition sysChmod :: "sys \<Rightarrow> nat \<Rightarrow> sock_world \<Rightarrow> sys_error option \<times> sock_world" where
  "sysChmod y m w = (if sw_entry w = None then (Some NotExist, w)
     else case sys_chmod y of Some err \<Rightarrow> (Some (SysError err), w) | None \<Rightarrow> (None, w\<lparr>sw_mode := m\<rparr>))"

definition closeListener :: "nat \<Rightarrow> sock_world \<Rightarrow> sock_world" where
  "closeListener i w = w\<lparr>sw_open := sw_open w - {i}, sw_entry := None\<rparr>"

definition sys_text :: "sys_error \<Rightarrow> go_error" where
  "sys_text e = (case e of AddrInUse \<Rightarrow> Errorf ''address already in use'' [] | NotExist \<Rightarrow> Sentinel ErrNotExist | SysError err \<Rightarrow> err)"

subsection \<open>Starting in steps\<close>

datatype start_state = NotStarted | InUse | Stale | Cleared | Bound | Serving | StartFailed go_error | Stopped

definition startStep :: "string \<Rightarrow> sys \<Rightarrow> nat \<Rightarrow> start_state \<Rightarrow> sock_world \<Rightarrow> start_state \<times> sock_world" where
  "startStep path y i st w = (case st of
     NotStarted \<Rightarrow> (case sysListen y i w of
         (None, w') \<Rightarrow> (Bound, w')
       | (Some AddrInUse, w') \<Rightarrow> (InUse, w')
       | (Some err, w') \<Rightarrow> (StartFailed (Wrapf ''control: listen on %s: %w'' [Str path] (sys_text err)), w'))
   | InUse \<Rightarrow> (if sysDial y w
         then (StartFailed (Errorf ''control: another chaperone daemon is already listening on %s'' [Str path]), w)
         else (Stale, w))
   | Stale \<Rightarrow> (case sysRemove y w of
         (Some (SysError err), w') \<Rightarrow> (StartFailed (Wrapf ''control: remove stale socket %s: %w'' [Str path] err), w')
       | (_, w') \<Rightarrow> (Cleared, w'))
   | Cleared \<Rightarrow> (case sysListen y i w of
         (None, w') \<Rightarrow> (Bound, w')
       | (Some err, w') \<Rightarrow> (StartFailed (Wrapf ''control: listen on %s after clearing stale socket: %w'' [Str path] (sys_text err)), w'))
   | Bound \<Rightarrow> (case sysChmod y 0x180 w of
         (Some err, w') \<Rightarrow> (StartFailed (Wrapf ''control: chmod socket: %w'' [] (sys_text err)), closeListener i w')
       | (None, w') \<Rightarrow> (Serving, w'))
   | _ \<Rightarrow> (st, w))"

text \<open>\<open>listenUnix\<close> and \<open>Start\<close> of a daemon that nobody interrupts: at most five steps.\<close>

definition listenUnix :: "string \<Rightarrow> sys \<Rightarrow> nat \<Rightarrow> sock_world \<Rightarrow> start_state \<times> sock_world" where
  "listenUnix path y i w = (case startStep path y i NotStarted w of
     (InUse, w1) \<Rightarrow> (case startStep path y i InUse w1 of
         (Stale, w2) \<Rightarrow> (case startStep path y i Stale w2 of
             (Cleared, w3) \<Rightarrow> startStep path y i Cleared w3
           | r \<Rightarrow> r)
       | r \<Rightarrow> r)
   | r \<Rightarrow> r)"

definition startControl :: "string \<Rightarrow> sys \<Rightarrow> nat \<Rightarrow> sock_world \<Rightarrow> go_error option \<times> sock_world" where
  "startControl path y i w = (case listenUnix path y i w of
     (Bound, w1) \<Rightarrow> (case startStep path y i Bound w1 of
         (StartFailed err, w2) \<Rightarrow> (Some err, w2) | (_, w2) \<Rightarrow> (None, w2))
   | (StartFailed err, w1) \<Rightarrow> (Some err, w1)
   | (_, w1) \<Rightarrow> (None, w1))"

text \<open>\<open>Shutdown\<close> closes the listeners even when it then fails.\<close>

definition stopControl :: "sys \<Rightarrow> nat \<Rightarrow> sock_world \<Rightarrow> go_error option \<times> sock_world" where
  "stopControl y i w = (let w1 = closeListener i w in case sys_shutdown y of
     Some err \<Rightarrow> (Some (Wrapf ''control: shutdown: %w'' [] err), w1)
   | None \<Rightarrow> (case sysRemove y w1 of
       (Some (SysError err), w2) \<Rightarrow> (Some (Wrapf ''control: remove socket: %w'' [] err), w2)
     | (_, w2) \<Rightarrow> (None, w2)))"

definition newControlServer :: "bool \<Rightarrow> string \<Rightarrow> go_error option" where
  "newControlServer hasAPI socketPath =
     (if \<not> hasAPI then Some (Errorf ''control: api is required'' [])
      else if socketPath = '''' then Some (Errorf ''control: socket path is required'' [])
      else None)"

text \<open>Any number of daemons at the same path, each at some point of its life.\<close>

inductive daemons :: "string \<Rightarrow> sock_world \<Rightarrow> (nat \<Rightarrow> start_state) \<Rightarrow> sock_world \<Rightarrow> bool" for path w0 where
  daemons_init: "daemons path w0 (\<lambda>_. NotStarted) w0"
| daemons_step: "daemons path w0 p w \<Longrightarrow> startStep path y i (p i) w = (s, w') \<Longrightarrow> daemons path w0 (p(i := s)) w'"
| daemons_stop: "daemons path w0 p w \<Longrightarrow> p i = Serving \<Longrightarrow> stopControl y i w = (r, w') \<Longrightarrow> daemons path w0 (p(i := Stopped)) w'"

inductive_cases daemonsE: "daemons path w0 p w"

definition healthy :: "sys \<Rightarrow> bool" where
  "healthy y \<longleftrightarrow> sys_bind y = None \<and> sys_dial y = None \<and> sys_remove y = None \<and> sys_chmod y = None \<and> sys_shutdown y = None"

definition reaches :: "nat \<Rightarrow> sock_world \<Rightarrow> bool" where
  "reaches i w \<longleftrightarrow> sw_entry w = Some (SockFile i) \<and> i \<in> sw_open w"

subsection \<open>Lemmas\<close>

lemma daemons_inv:
  assumes "daemons path w0 p w" "sw_open w0 = {}"
  shows "(\<forall>i. i \<in> sw_open w \<longleftrightarrow> p i \<in> {Bound, Serving}) \<and> (\<forall>i. reaches i w \<longrightarrow> p i \<in> {Bound, Serving})"
  using assms
proof (induction rule: daemons.induct)
  case daemons_init
  then show ?case by (auto simp: reaches_def)
next
  case (daemons_step p w y i s w')
  have "\<forall>j. j \<in> sw_open w' \<longleftrightarrow> (p(i := s)) j \<in> {Bound, Serving}"
    using daemons_step
    by (cases "p i")
      (auto simp: startStep_def sysListen_def sysRemove_def sysChmod_def closeListener_def
        split: option.splits if_splits sys_error.splits)
  then show ?case by (auto simp: reaches_def)
next
  case (daemons_stop p w i y r w')
  have "sw_open w' = sw_open w - {i}"
    using daemons_stop.hyps(3)
    by (auto simp: stopControl_def Let_def closeListener_def sysRemove_def split: option.splits if_splits)
  then have "\<forall>j. j \<in> sw_open w' \<longleftrightarrow> (p(i := Stopped)) j \<in> {Bound, Serving}"
    using daemons_stop by auto
  then show ?case by (auto simp: reaches_def)
qed

lemma daemon_at:
  "daemons path w0 p w \<Longrightarrow> p i = st \<Longrightarrow> startStep path y i st w = (s, w') \<Longrightarrow> daemons path w0 (p(i := s)) w'"
  by (rule daemons_step) simp_all

subsection \<open>Properties\<close>



definition demo_sys :: sys where
  "demo_sys = \<lparr>sys_bind = None, sys_dial = None, sys_remove = None, sys_chmod = None, sys_shutdown = None, sys_umasked = 0x1ED\<rparr>"


end
