(* ===== verification/Daemon.thy ===== *)
theory Daemon
  imports Orchestrate Proxy_Lifecycle Cert_Authority Control_Socket
begin

text \<open>
  \<open>internal/orchestrate/helpers.go\<close>: the pieces a command starts the daemon from, and the running
  daemon: the injecting proxy and the control plane over one registry and one audit log. Requests
  and control requests interleave between any two handlers of a request; each handler is one step.
\<close>

subsection \<open>The start helpers\<close>

definition filepath_join :: "string list \<Rightarrow> string" where
  "filepath_join elems = (let es = filter (\<lambda>e. e \<noteq> '''') elems in
     if es = [] then '''' else path_clean (str_join ''/'' es))"

definition os_exists :: "string \<Rightarrow> fsys \<Rightarrow> bool" where
  "os_exists path fs = (case os_stat path fs of Inl _ \<Rightarrow> False | Inr _ \<Rightarrow> True)"

text \<open>The authority of inject and examine mode, and whether it is new.\<close>

definition initializeCA ::
  "('cert, 'key) pki \<Rightarrow> nat \<Rightarrow> string \<Rightarrow> string \<Rightarrow> fsys \<Rightarrow> (go_error + ('cert, 'key) ca \<times> bool) \<times> fsys" where
  "initializeCA pk rnd caKeyPath caCertPath fs =
     (case os_mkdirAll (path_dir caCertPath) fs of
        Some err \<Rightarrow> (Inl (Wrapf ''failed to create CA directory: %w'' [] err), fs)
      | None \<Rightarrow> (let isNewCA = (\<not> os_exists caKeyPath fs \<or> \<not> os_exists caCertPath fs) in
          case loadOrGenerateCA pk rnd caKeyPath caCertPath fs of
            (Inl err, fs') \<Rightarrow> (Inl (Wrapf ''failed to initialize CA: %w'' [] err), fs')
          | (Inr ca, fs') \<Rightarrow> (Inr (ca, isNewCA), fs')))"

definition ephemeralCADir :: "nat \<Rightarrow> string" where
  "ephemeralCADir pid = ''/tmp/chaperone-ca-'' @ show_nat pid"

text \<open>The authority of run mode: the CA with the paths of its key and certificate, what is registered
  with the shutdown manager, and the files.\<close>

definition initializeEphemeralCA ::
  "('cert, 'key) pki \<Rightarrow> nat \<Rightarrow> nat \<Rightarrow> hook list \<Rightarrow> fsys
   \<Rightarrow> (go_error + ('cert, 'key) ca \<times> string \<times> string) \<times> hook list \<times> fsys" where
  "initializeEphemeralCA pk rnd pid hooks fs = (let dir = ephemeralCADir pid in
     case os_mkdirAll dir fs of
       Some err \<Rightarrow> (Inl (Wrapf ''failed to create ephemeral CA directory: %w'' [] err), hooks, fs)
     | None \<Rightarrow> (let caCertPath = filepath_join [dir, ''ca-cert.pem'']; caKeyPath = filepath_join [dir, ''ca-key.pem''] in
         case loadOrGenerateCA pk rnd caKeyPath caCertPath fs of
           (Inl err, fs') \<Rightarrow> (Inl (Wrapf ''failed to generate ephemeral CA: %w'' [] err), hooks @ [RemoveCADir], fs')
         | (Inr ca, fs') \<Rightarrow> (Inr (ca, caKeyPath, caCertPath), hooks @ [RemoveCADir], fs')))"

definition createProxy ::
  "goproxy \<Rightarrow> env \<Rightarrow> (string \<Rightarrow> go_error + (nat \<Rightarrow> go_error option)) \<Rightarrow> (nat \<Rightarrow> go_error option)
   \<Rightarrow> 'pool goproxy_server \<Rightarrow> config \<Rightarrow> ('pool, 'key) setup_result \<Rightarrow> string \<Rightarrow> audit_logger option \<Rightarrow> hook list option
   \<Rightarrow> go_error + 'pool proxy_server \<times> hook list option" where
  "createProxy gp ev openFile stdout gs0 cfg res proxySecret audit mgr =
     (let grantsPossible = (listPairings (sur_enforcer res) \<noteq> []) in
      if reg_listAll (sur_registry res) \<noteq> [] \<or> grantsPossible
      then newWithMITM gp ev openFile stdout gs0 cfg (sur_registry res) proxySecret
             (Some \<lparr>mo_secrets = Some (sur_secrets res), mo_auths = Some (sur_auths res), mo_audit = audit,
                mo_upstreamCAs = sur_upstreamCAs res\<rparr>) mgr
      else Inr (newTransparent gs0 cfg mgr))"

definition createAuditLogger ::
  "(string \<Rightarrow> go_error + (nat \<Rightarrow> go_error option)) \<Rightarrow> (nat \<Rightarrow> go_error option) \<Rightarrow> config \<Rightarrow> hook list option
   \<Rightarrow> go_error + audit_logger \<times> hook list option" where
  "createAuditLogger openFile stdout cfg mgr =
     (case newAuditLogger openFile stdout (ac_enabled (cfg_audit cfg)) (ac_path (cfg_audit cfg)) of
        Inl err \<Rightarrow> Inl (Wrapf ''failed to create audit logger: %w'' [] err)
      | Inr logger \<Rightarrow> Inr (logger, registerHook CloseAudit mgr))"

text \<open>The control plane; \<open>NewAPI\<close> rejects only missing collaborators.\<close>

definition startControlPlane ::
  "string \<Rightarrow> sys \<Rightarrow> nat \<Rightarrow> hook list option \<Rightarrow> sock_world \<Rightarrow> go_error option \<times> hook list option \<times> sock_world" where
  "startControlPlane socketPath y i mgr w = (case newControlServer True socketPath of
     Some err \<Rightarrow> (Some (Wrapf ''failed to build control server: %w'' [] err), mgr, w)
   | None \<Rightarrow> (case startControl socketPath y i w of
       (Some err, w') \<Rightarrow> (Some (Wrapf ''failed to start control plane: %w'' [] err), mgr, w')
     | (None, w') \<Rightarrow> (None, registerHook StopControl mgr, w')))"

subsection \<open>The running daemon\<close>

text \<open>The control plane works on the proxy's registry and audit log.\<close>

definition control_view :: "px \<Rightarrow> control_state" where
  "control_view p = \<lparr>cs_registry = px_registry p, cs_audit = px_audit p\<rparr>"

definition px_control :: "decoders \<Rightarrow> enforcer \<Rightarrow> string \<Rightarrow> string \<Rightarrow> string \<Rightarrow> px \<Rightarrow> px" where
  "px_control d e path mth body p = (let st = snd (serveControl d e path mth body (control_view p)) in
     p\<lparr>px_registry := cs_registry st, px_audit := cs_audit st\<rparr>)"

definition fl_control :: "decoders \<Rightarrow> enforcer \<Rightarrow> string \<Rightarrow> string \<Rightarrow> string \<Rightarrow> flow \<Rightarrow> flow" where
  "fl_control d e path mth body fl = fl\<lparr>fl_px := px_control d e path mth body (fl_px fl)\<rparr>"

text \<open>A request in its handlers, with control requests served before, between and after them.\<close>

inductive handled :: "decoders \<Rightarrow> enforcer \<Rightarrow> handler list \<Rightarrow> flow \<Rightarrow> flow \<times> reply option \<Rightarrow> bool" for d e where
  handled_done: "handled d e [] fl (fl, None)"
| handled_answer: "h fl = (fl', Some rep) \<Longrightarrow> handled d e (h # hs) fl (fl', Some rep)"
| handled_next: "h fl = (fl', None) \<Longrightarrow> handled d e hs fl' out \<Longrightarrow> handled d e (h # hs) fl out"
| handled_control: "handled d e hs (fl_control d e path mth body fl) out \<Longrightarrow> handled d e hs fl out"

inductive_cases handled_NilE: "handled d e [] fl out"

text \<open>Every life of a daemon: control requests, and requests that may be disturbed by others.\<close>

inductive daemon_run :: "goproxy \<Rightarrow> decoders \<Rightarrow> enforcer \<Rightarrow> string \<Rightarrow> px \<Rightarrow> px \<Rightarrow> bool" for gp d e secret p0 where
  run_start: "daemon_run gp d e secret p0 p0"
| run_control: "daemon_run gp d e secret p0 p \<Longrightarrow> daemon_run gp d e secret p0 (px_control d e path mth body p)"
| run_request: "daemon_run gp d e secret p0 (fl_px fl) \<Longrightarrow> canonical_headers (fl_headers fl) \<Longrightarrow>
    handled d e (mitmHandlers gp ev secret) fl (fl', rep) \<Longrightarrow> daemon_run gp d e secret p0 (fl_px fl')"

inductive_cases daemon_runE: "daemon_run gp d e secret p0 p"

subsection \<open>What a disturbed request keeps\<close>

definition sys_inv :: "enforcer \<Rightarrow> registry \<Rightarrow> auth_registry option \<Rightarrow> px \<Rightarrow> bool" where
  "sys_inv e r0 auths p \<longleftrightarrow> control_inv e r0 (control_view p) \<and> px_auths p = auths"

definition same_request :: "flow \<Rightarrow> flow \<Rightarrow> bool" where
  "same_request fl fl' \<longleftrightarrow> rq_method (fl_req fl') = rq_method (fl_req fl) \<and> rq_host (fl_req fl') = rq_host (fl_req fl) \<and>
     rq_path (fl_req fl') = rq_path (fl_req fl) \<and> rq_contentLength (fl_req fl') = rq_contentLength (fl_req fl) \<and>
     rq_ctxErr (fl_req fl') = rq_ctxErr (fl_req fl) \<and>
     canonical_headers (fl_headers fl') \<and> only_removes (fl_headers fl) (fl_headers fl')"

lemma same_request_refl: "canonical_headers (fl_headers fl) \<Longrightarrow> same_request fl fl"
  by (simp add: same_request_def)

lemma same_request_trans: "same_request a b \<Longrightarrow> same_request b c \<Longrightarrow> same_request a c"
  using only_removes_trans by (auto simp: same_request_def)

lemma sys_inv_control: "sys_inv e r0 auths p \<Longrightarrow> sys_inv e r0 auths (px_control d e path mth body p)"
  using control_inv_step [of e r0 "control_view p" d path mth body]
  by (simp add: sys_inv_def px_control_def Let_def control_view_def control_inv_def)

lemma fl_control_simps [simp]:
  "fl_req (fl_control d e path mth body fl) = fl_req fl"
  "fl_meta (fl_control d e path mth body fl) = fl_meta fl"
  "fl_px (fl_control d e path mth body fl) = px_control d e path mth body (fl_px fl)"
  by (simp_all add: fl_control_def)

lemma sys_inv_core: "sys_inv e r0 auths (fl_px fl) \<Longrightarrow> same_core fl fl' \<Longrightarrow> sys_inv e r0 auths (fl_px fl')"
  by (simp add: sys_inv_def same_core_def control_inv_def control_view_def)

lemma quiet_step:
  assumes "quiet h" "h fl = (fl', rep)" "canonical_headers (fl_headers fl)" "sys_inv e r0 auths (fl_px fl)"
  shows "same_request fl fl' \<and> sys_inv e r0 auths (fl_px fl')"
proof -
  have q: "same_core fl fl'" "canonical_headers (fl_headers fl')" "only_removes (fl_headers fl) (fl_headers fl')"
    using assms(1-3) unfolding quiet_def by blast+
  then have "same_request fl fl'" by (simp add: same_request_def same_core_def)
  then show ?thesis using sys_inv_core [OF assms(4) q(1)] by blast
qed

lemma handled_quiet:
  assumes "handled d e hs fl out" "list_all quiet hs" "canonical_headers (fl_headers fl)" "sys_inv e r0 auths (fl_px fl)"
  shows "same_request fl (fst out) \<and> sys_inv e r0 auths (fl_px (fst out))"
  using assms
proof (induction rule: handled.induct)
  case (handled_done fl)
  then show ?case using same_request_refl by simp
next
  case (handled_answer h fl fl' rep hs)
  then show ?case using quiet_step [of h fl fl' "Some rep"] by simp
next
  case (handled_next h fl fl' hs out)
  then have "same_request fl fl' \<and> sys_inv e r0 auths (fl_px fl')" using quiet_step [of h fl fl' None] by simp
  moreover from this have "same_request fl' (fst out) \<and> sys_inv e r0 auths (fl_px (fst out))"
    using handled_next by (simp add: same_request_def)
  ultimately show ?case using same_request_trans by blast
next
  case (handled_control hs path mth body fl out)
  then have "same_request (fl_control d e path mth body fl) (fst out) \<and> sys_inv e r0 auths (fl_px (fst out))"
    using sys_inv_control by simp
  then show ?case by (simp add: same_request_def)
qed

lemma handled_append:
  assumes "handled d e hs0 fl out" "hs0 = hs @ hs'"
  shows "(\<exists>fl1. handled d e hs fl (fl1, None) \<and> handled d e hs' fl1 out) \<or>
    (\<exists>rep. handled d e hs fl out \<and> snd out = Some rep)"
  using assms
proof (induction arbitrary: hs rule: handled.induct)
  case (handled_done fl)
  then show ?case using handled.handled_done by auto
next
  case (handled_answer h fl fl' rep hs1)
  show ?case
  proof (cases hs)
    case Nil
    then have "h # hs1 = hs'" using handled_answer.prems by simp
    moreover have "handled d e (h # hs1) fl (fl', Some rep)" by (rule handled.handled_answer) (rule handled_answer.hyps)
    ultimately have "handled d e hs' fl (fl', Some rep)" by (simp only:)
    then show ?thesis using Nil handled.handled_done by blast
  next
    case (Cons a as)
    then have "hs = h # as" using handled_answer.prems by simp
    moreover have "handled d e (h # as) fl (fl', Some rep)" by (rule handled.handled_answer) (rule handled_answer.hyps)
    ultimately have "handled d e hs fl (fl', Some rep)" by (simp only:)
    then show ?thesis by auto
  qed
next
  case (handled_next h fl fl' hs1 out)
  show ?case
  proof (cases hs)
    case Nil
    then have "h # hs1 = hs'" using handled_next.prems by simp
    moreover have "handled d e (h # hs1) fl out" by (rule handled.handled_next) (rule handled_next.hyps)+
    ultimately have "handled d e hs' fl out" by (simp only:)
    then show ?thesis using Nil handled.handled_done by blast
  next
    case (Cons a as)
    then have eq: "hs = h # as" "hs1 = as @ hs'" using handled_next.prems by simp_all
    from handled_next.IH [OF eq(2)] show ?thesis
      unfolding eq(1) using handled.handled_next [where h = h, OF handled_next.hyps(1)] by blast
  qed
next
  case (handled_control hs1 path mth body fl out)
  from handled_control.IH [OF handled_control.prems] show ?case
    using handled.handled_control by blast
qed

lemma not_removed: "only_removes h h' \<Longrightarrow> map_get h' k \<in> {None, map_get h k}"
  unfolding only_removes_def by (metis insertCI)

lemma handled_skip:
  "list_all (\<lambda>h. h fl = (fl, None)) hs \<Longrightarrow> handled d e hs' fl out \<Longrightarrow> handled d e (hs @ hs') fl out"
  by (induction hs) (auto intro: handled_next)

lemma handled_Nil:
  assumes "handled d e hs fl out" "hs = []" "sys_inv e r0 auths (fl_px fl)"
  shows "snd out = None \<and> fl_req (fst out) = fl_req fl \<and> sys_inv e r0 auths (fl_px (fst out))"
  using assms by (induction rule: handled.induct) (auto simp: sys_inv_control)

lemma authHandler_core:
  "authHandler ev fl = (fl', rep) \<Longrightarrow> px_registry (fl_px fl') = px_registry (fl_px fl) \<and> px_auths (fl_px fl') = px_auths (fl_px fl)"
  by (auto simp: authHandler_def injectCredential_def authFailed_def Let_def
      split: sum.splits option.splits prod.splits if_splits)

lemma authHandler_inv:
  assumes "guardOn chaperoneCondition (authHandler ev) fl = (fl', rep)" "sys_inv e r0 auths (fl_px fl)"
  shows "sys_inv e r0 auths (fl_px fl')"
proof (cases "chaperoneCondition fl")
  case True
  then show ?thesis
    using assms authHandler_core [of ev fl fl' rep] by (simp add: guardOn_def sys_inv_def control_inv_def control_view_def)
next
  case False
  then show ?thesis using assms by (simp add: guardOn_def)
qed

text \<open>The last handler ran at some moment, over the registry of that moment.\<close>

lemma handled_last:
  assumes "handled d e hs fl out" "hs = [h]" "h = guardOn chaperoneCondition (authHandler ev)" "sys_inv e r0 auths (fl_px fl)"
  shows "\<exists>fl0 fl1. fl_req fl0 = fl_req fl \<and> sys_inv e r0 auths (fl_px fl0) \<and> h fl0 = (fl1, snd out) \<and>
    fl_req (fst out) = fl_req fl1 \<and> sys_inv e r0 auths (fl_px (fst out))"
  using assms
proof (induction rule: handled.induct)
  case (handled_answer g fl fl' rep hs)
  moreover from this have "sys_inv e r0 auths (fl_px fl')" using authHandler_inv by auto
  ultimately show ?case by auto
next
  case (handled_next g fl fl' hs out)
  moreover from this have "sys_inv e r0 auths (fl_px fl')" using authHandler_inv by auto
  ultimately show ?case using handled_Nil [of d e hs fl' out r0 auths] by auto
next
  case (handled_control hs path mth body fl out)
  then show ?case using sys_inv_control by auto
qed simp

lemma handled_gate:
  assumes "handled d e hs0 fl out" "hs0 = proxyAuthHandler secret # hs"
    and "\<not> authenticated fl" "\<not> validateProxyAuth (fl_req fl) secret"
  shows "snd out = Some (Challenge proxyAuthChallenge) \<and> fl_req (fst out) = fl_req fl"
  using assms
proof (induction rule: handled.induct)
  case (handled_control hs1 path mth body fl out)
  then show ?case by (simp add: authenticated_def)
qed (auto simp: proxyAuthHandler_challenges)

lemma mitmHandlers_front:
  "goproxy_ok gp \<Longrightarrow> mitmHandlers gp ev secret = frontHandlers ev secret @ [guardOn chaperoneCondition (authHandler ev)]"
  by (simp add: mitmHandlers_def frontHandlers_def goproxy_ok_eq)

lemma handled_request:
  assumes "goproxy_ok gp" "handled d e (mitmHandlers gp ev secret) fl out" "canonical_headers (fl_headers fl)"
    and "sys_inv e r0 auths (fl_px fl)"
  obtains (answered) "same_request fl (fst out)" "sys_inv e r0 auths (fl_px (fst out))" "snd out \<noteq> None"
  | (passed) fl1 fl2 where "same_request fl fl1" "sys_inv e r0 auths (fl_px fl1)"
      "guardOn chaperoneCondition (authHandler ev) fl1 = (fl2, snd out)" "fl_req (fst out) = fl_req fl2"
      "sys_inv e r0 auths (fl_px (fst out))"
proof -
  from handled_append [OF assms(2) mitmHandlers_front [OF assms(1)]]
  consider (front) rep where "handled d e (frontHandlers ev secret) fl out" "snd out = Some rep"
    | (last) fl0 where "handled d e (frontHandlers ev secret) fl (fl0, None)"
        "handled d e [guardOn chaperoneCondition (authHandler ev)] fl0 out" by blast
  then show ?thesis
  proof cases
    case front
    then show ?thesis using answered handled_quiet [OF front(1) front_quiet assms(3,4)] by simp
  next
    case last
    have q: "same_request fl fl0" "sys_inv e r0 auths (fl_px fl0)"
      using handled_quiet [OF last(1) front_quiet assms(3,4)] by simp_all
    from handled_last [OF last(2) refl refl q(2)] obtain fl1 fl2 where l: "fl_req fl1 = fl_req fl0"
        "sys_inv e r0 auths (fl_px fl1)" "guardOn chaperoneCondition (authHandler ev) fl1 = (fl2, snd out)"
        "fl_req (fst out) = fl_req fl2" "sys_inv e r0 auths (fl_px (fst out))" by blast
    have "same_request fl fl1" using q(1) l(1) by (simp add: same_request_def)
    from passed [OF this l(2-5)] show ?thesis .
  qed
qed

lemma daemon_run_inv:
  assumes "daemon_run gp d e secret p0 p" "goproxy_ok gp" "sys_inv e r0 auths p0"
  shows "sys_inv e r0 auths p"
  using assms
proof (induction rule: daemon_run.induct)
  case run_start
  then show ?case by simp
next
  case (run_control p path mth body)
  then show ?case using sys_inv_control by blast
next
  case (run_request fl ev fl' rep)
  then have "sys_inv e r0 auths (fl_px fl)" by blast
  from handled_request [OF run_request.prems(1) run_request.hyps(3,2) this] show ?case by auto
qed

subsection \<open>What the operator approved\<close>

definition serves :: "service \<Rightarrow> string \<Rightarrow> bool" where
  "serves svc host \<longleftrightarrow> serviceKey (hostPattern svc) = normalizeHostname host \<or>
     wildcardKey (normalizeHostname host) = Some (serviceKey (hostPattern svc))"

definition approved :: "setup_config \<Rightarrow> service \<Rightarrow> bool" where
  "approved cfg svc \<longleftrightarrow> (\<exists>(name, sc) \<in> set (selectedServices cfg). svc = configService name sc) \<or>
     (\<exists>g \<in> set (cfg_grantable (su_config cfg)). within_grantable g svc)"

lemma setup_approved:
  assumes started: "setupDaemon os ctx trust caRaw cfg = Inr res"
    and inv: "sys_inv (sur_enforcer res) (sur_registry res) auths p" and look: "reg_lookup host (px_registry p) = Inr svc"
  shows "approved cfg svc \<and> serves svc host"
proof -
  have ci: "control_inv (sur_enforcer res) (sur_registry res) (control_view p)" using inv by (simp add: sys_inv_def)
  then have ok: "registry_ok (px_registry p)" by (simp add: control_inv_def control_view_def)
  obtain k where k: "map_get (px_registry p) k = Some svc" "k = normalizeHostname host \<or> wildcardKey (normalizeHostname host) = Some k"
    using reg.look_is_slot [OF ok look] by blast
  have "serves svc host" using registry_ok_get [OF ok k(1)] k(2) by (auto simp: serves_def)
  moreover have "approved cfg svc"
  proof -
    from ci k(1) consider "map_get (sur_registry res) k = Some svc"
      | req where "authorize (sur_enforcer res) (Some (toService req)) = None" "svc = grantedService req"
      unfolding control_inv_def control_view_def by fastforce
    then show ?thesis
    proof cases
      case 1
      then have "svc \<in> set (reg_listAll (sur_registry res))" by (auto simp: reg_listAll_def dest!: map_of_SomeD intro: rev_image_eqI)
      then show ?thesis using setup_services(1) [OF started] by (auto simp: approved_def)
    next
      case 2
      have "newEnforcer (cfg_grantable (su_config cfg)) = Inr (sur_enforcer res)" using setup_cases [OF started] by blast
      from authorized_within [OF newEnforcer_ok [OF this] 2(1)] show ?thesis using 2(2) by (auto simp: approved_def)
    qed
  qed
  ultimately show ?thesis by blast
qed

lemma createProxy_start:
  assumes started: "setupDaemon os ctx trust caRaw cfg = Inr res"
    and proxy: "createProxy gp ev openFile stdout gs0 c res secret audit mgr = Inr (srv, mgr')"
  shows "sys_inv (sur_enforcer res) (sur_registry res) (px_auths (ps_start srv)) (ps_start srv) \<and>
    px_auths (ps_start srv) \<in> {None, Some (sur_auths res)}"
proof -
  have start: "px_registry (ps_start srv) = sur_registry res \<and> px_auths (ps_start srv) \<in> {None, Some (sur_auths res)}"
  proof (cases "reg_listAll (sur_registry res) \<noteq> [] \<or> listPairings (sur_enforcer res) \<noteq> []")
    case True
    then show ?thesis using proxy by (auto simp: createProxy_def newWithMITM_def startState_def Let_def split: if_splits prod.splits)
  next
    case False
    then have "sur_registry res = []" by (simp add: reg_listAll_def)
    then show ?thesis using False proxy by (auto simp: createProxy_def newTransparent_def startState_def Let_def)
  qed
  then show ?thesis
    using setup_services(2) [OF started] by (auto simp: sys_inv_def control_inv_def control_view_def)
qed

text \<open>What a disturbed request can be given at most.\<close>

lemma disturbed_injection:
  assumes gp: "goproxy_ok gp" and inv: "sys_inv e r0 auths (fl_px fl)"
    and hdr: "canonical_headers (fl_headers fl)" and tok: "token_strategies auths"
    and handled: "handled d e (mitmHandlers gp ev secret) fl (fl', rep)"
    and new: "map_get (fl_headers fl') k \<notin> {None, map_get (fl_headers fl) k}"
  obtains svc sts st v secrets secrets' p where "rep = None" "authenticated fl \<or> validateProxyAuth (fl_req fl) secret"
    "sys_inv e r0 auths p" "reg_lookup (rq_host (fl_req fl)) (px_registry p) = Inr svc"
    "placeholder svc = '''' \<or> placeholderMatches svc (fl_headers fl)"
    "secretFetch (ev_os ev) (rq_ctxErr (fl_req fl)) (credentialRef svc) secrets = (Inr v, secrets')"
    "auths = Some sts" "authGet (authStrategyRef svc) sts = Inr st"
    "k = canonical_key (strategyTarget st)" "map_get (fl_headers fl') k = Some [strategyRender st v]"
proof -
  obtain fl1 fl2 where p: "same_request fl fl1" "sys_inv e r0 auths (fl_px fl1)"
      "guardOn chaperoneCondition (authHandler ev) fl1 = (fl2, rep)" "fl_req fl' = fl_req fl2"
  proof (cases rule: handled_request [OF gp handled hdr inv])
    case 1
    then have "only_removes (fl_headers fl) (fl_headers fl')" by (simp add: same_request_def)
    then show ?thesis using not_removed new by blast
  next
    case (2 fl1 fl2)
    then show ?thesis using that by simp
  qed
  have differ: "map_get (fl_headers fl2) k \<noteq> map_get (fl_headers fl1) k" "map_get (fl_headers fl2) k \<noteq> None"
    using new p(1) [unfolded same_request_def only_removes_def] unfolding p(4) by (metis insertCI)+
  then have auth: "authHandler ev fl1 = (fl2, rep)" using p(3) by (auto simp: guardOn_def split: if_splits)
  from differ have "fl_headers fl2 \<noteq> fl_headers fl1" by auto
  from authHandler_change [OF auth this] obtain svc secrets sts st v secrets' where i:
    "reg_lookup (rq_host (fl_req fl1)) (px_registry (fl_px fl1)) = Inr svc"
    "px_secrets (fl_px fl1) = Some secrets" "px_auths (fl_px fl1) = Some sts"
    "placeholder svc \<noteq> '''' \<longrightarrow> placeholderMatches svc (fl_headers fl1)"
    "secretFetch (ev_os ev) (rq_ctxErr (fl_req fl1)) (credentialRef svc) secrets = (Inr v, secrets')"
    "authGet (authStrategyRef svc) sts = Inr st" "strategyApply st v (fl_headers fl1) = (None, fl_headers fl2)"
    "rep = None" by metis
  have same: "rq_host (fl_req fl1) = rq_host (fl_req fl)" "rq_ctxErr (fl_req fl1) = rq_ctxErr (fl_req fl)"
    "canonical_headers (fl_headers fl1)" "only_removes (fl_headers fl) (fl_headers fl1)"
    using p(1) by (simp_all add: same_request_def)
  have sts: "auths = Some sts" using i(3) p(2) by (simp add: sys_inv_def)
  have kk: "k = canonical_key (strategyTarget st)" "map_get (fl_headers fl') k = Some [strategyRender st v]"
    using injected_header [OF same(3) _ i(6,7), of k] tok sts differ p(4) by (simp_all split: if_splits)
  have ph: "placeholder svc = '''' \<or> placeholderMatches svc (fl_headers fl)"
    using i(4) placeholderMatches_back [OF same(4)] by blast
  have "authenticated fl \<or> validateProxyAuth (fl_req fl) secret"
    using handled_gate [OF handled _, of secret] i(8) by (auto simp: mitmHandlers_def)
  from that [OF i(8) this p(2) i(1) [unfolded same(1)] ph i(5) [unfolded same(2)] sts i(6) kk] show ?thesis .
qed

subsection \<open>Properties\<close>


text \<open>C5: Undisturbed, a request that gets a credential is also within the scope the operator wrote
  down: it is permitted by the policy of a service the configuration selects, or by the bound of a
  grantable, however the daemon's registry came to be.\<close>

theorem undisturbed_injection_is_in_scope:
  assumes "setupDaemon os ctx trust caRaw cfg = Inr res" "goproxy_ok gp"
    and "createProxy gp ev0 openFile stdout gs0 (su_config cfg) res secret audit mgr = Inr (srv, mgr')"
    and "daemon_run gp d (sur_enforcer res) secret (ps_start srv) (fl_px fl)"
    and "canonical_headers (fl_headers fl)"
    and "mitmPipeline gp ev secret fl = (fl', rep)" "map_get (fl_headers fl') k \<notin> {None, map_get (fl_headers fl) k}"
  shows "(\<exists>(name, sc) \<in> set (selectedServices cfg). serves (configService name sc) (rq_host (fl_req fl)) \<and>
       permits (svcPolicy (configService name sc)) (rq_method (fl_req fl)) (rq_path (fl_req fl)) (rq_contentLength (fl_req fl))) \<or>
    (\<exists>g \<in> set (cfg_grantable (su_config cfg)).
       permits (Some (grantableBound g)) (rq_method (fl_req fl)) (rq_path (fl_req fl)) (rq_contentLength (fl_req fl)))"
proof -
  have inv: "sys_inv (sur_enforcer res) (sur_registry res) (px_auths (ps_start srv)) (fl_px fl)"
    using daemon_run_inv [OF assms(4,2)] createProxy_start [OF assms(1,3)] by blast
  obtain fl1 rep1 where front: "runHandlers (frontHandlers ev secret) fl = (fl1, rep1)" by fastforce
  note q = quiet_run_from [OF front front_quiet assms(5)]
  have rep1: "rep1 = None"
  proof (cases rep1)
    case (Some x)
    then have "fl' = fl1" using assms(6) front by (simp add: mitmPipeline_split [OF assms(2)])
    then show ?thesis using not_removed [OF q(4)] assms(7) by blast
  qed simp
  have "guardOn chaperoneCondition (authHandler ev) fl1 = (fl', rep)"
    using assms(6) front rep1 by (simp add: mitmPipeline_split [OF assms(2)])
  then have "chaperoneCondition fl1" using not_removed [OF q(4), of k] assms(7) by (auto simp: guardOn_def split: if_splits)
  then obtain svc where svc: "reg_lookup (rq_host (fl_req fl)) (px_registry (fl_px fl)) = Inr svc"
    using same_core_cond [OF q(1)] by (auto simp: chaperoneCondition_iff)
  have permitted: "permits (svcPolicy svc) (rq_method (fl_req fl)) (rq_path (fl_req fl)) (rq_contentLength (fl_req fl))"
    using front_gates(3) [OF front [unfolded rep1] assms(5) svc] .
  from setup_approved [OF assms(1) inv svc] permitted show ?thesis
    unfolding approved_def within_grantable_def by fastforce
qed

text \<open>C15: The scope check can be outrun. Each handler looks the service up for itself. When a request for
  a host without a service has passed the handlers before injection and the grant for that host is
  served at that moment, the injection handler adds the credential: to a request the granted policy
  does not permit, and that no drop rule, strip rule or policy was applied to.\<close>

theorem scope_check_can_be_outrun:
  assumes "goproxy_ok gp" "authenticated fl" "reg_lookup (rq_host (fl_req fl)) (px_registry (fl_px fl)) = Inl err"
    and svc: "reg_lookup (rq_host (fl_req fl)) (px_registry (px_control d e ''/grant'' mth body (fl_px fl))) = Inr svc"
    and "\<not> permits (svcPolicy svc) (rq_method (fl_req fl)) (rq_path (fl_req fl)) (rq_contentLength (fl_req fl))"
    and "placeholder svc = ''''" "px_secrets (fl_px fl) = Some secrets" "px_auths (fl_px fl) = Some auths"
    and "secretFetch (ev_os ev) (rq_ctxErr (fl_req fl)) (credentialRef svc) secrets = (Inr v, secrets')"
    and "authGet (authStrategyRef svc) auths = Inr st" "strategyApply st v (fl_headers fl) = (None, h)"
  shows "\<exists>fl'. handled d e (mitmHandlers gp ev secret) fl (fl', None) \<and> fl_headers fl' = h"
proof -
  let ?fl = "fl_control d e ''/grant'' mth body fl"
  have arrival: "arrivalHeaders fl = fl_headers fl" using assms(2) by (simp add: arrivalHeaders_def)
  have "proxyAuthHandler secret fl = (fl, None)"
    using assms(2) by (simp add: proxyAuth_passes arrival fl_header_def)
  moreover have out: "guardOn chaperoneCondition g fl = (fl, None)" for g
    using assms(3) by (simp add: guardOn_def chaperoneCondition_iff)
  ultimately have "list_all (\<lambda>h. h fl = (fl, None)) (frontHandlers ev secret)" by (simp add: frontHandlers_def)
  note front = handled_skip [OF this, of d e "[guardOn chaperoneCondition (authHandler ev)]"]
  have px: "px_secrets (fl_px ?fl) = Some secrets" "px_auths (fl_px ?fl) = Some auths"
      "reg_lookup (rq_host (fl_req ?fl)) (px_registry (fl_px ?fl)) = Inr svc"
    using assms(7,8) svc by (simp_all add: px_control_def Let_def)
  obtain fl' where fl': "authHandler ev ?fl = (fl', None)" "fl_headers fl' = h"
    using authHandler_injects [OF px(3,1,2), of ev v secrets' st h] assms(6,9-11) by auto
  have "guardOn chaperoneCondition (authHandler ev) ?fl = (fl', None)"
    using fl'(1) px(3) by (simp add: guardOn_def chaperoneCondition_iff)
  then have "handled d e [guardOn chaperoneCondition (authHandler ev)] ?fl (fl', None)"
    by (rule handled_next) (rule handled_done)
  from front [OF handled_control [OF this]] fl'(2) show ?thesis
    by (auto simp: mitmHandlers_front [OF assms(1)])
qed

text \<open>C16: The daemon falls back to a transparent proxy exactly when nothing could ever be injected: no
  service is selected and nothing is grantable. Then no connection is intercepted, no request is
  touched, and no sequence of control requests registers a service. In every other case the proxy
  is the gated, injecting one, or construction fails for want of the proxy secret.\<close>

theorem transparent_only_when_nothing_can_be_injected:
  assumes "setupDaemon os ctx trust caRaw cfg = Inr res"
  shows "(if selectedServices cfg = [] \<and> cfg_grantable (su_config cfg) = []
    then \<exists>srv mgr'. createProxy gp ev openFile stdout gs0 c res secret audit mgr = Inr (srv, mgr') \<and>
      ps_connect srv = tunnelAll \<and> ps_request srv = noHandlers \<and>
      (\<forall>d st. control_reachable d (sur_enforcer res) (control_view (ps_start srv)) st \<longrightarrow> cs_registry st = [])
    else case createProxy gp ev openFile stdout gs0 c res secret audit mgr of
        Inl _ \<Rightarrow> secret = ''''
      | Inr (srv, _) \<Rightarrow> secret \<noteq> '''' \<and> ps_secret srv = secret \<and> ps_request srv = mitmPipeline gp ev secret \<and>
          ps_connect srv = proxyAuthConnectHandler secret (connectHandler ev))"
proof -
  have e: "newEnforcer (cfg_grantable (su_config cfg)) = Inr (sur_enforcer res)" using setup_cases [OF assms] by blast
  have services: "reg_listAll (sur_registry res) = [] \<longleftrightarrow> selectedServices cfg = []"
    using setup_services(1) [OF assms] by simp
  have pairings: "listPairings (sur_enforcer res) = [] \<longleftrightarrow> cfg_grantable (su_config cfg) = []"
  proof
    assume "listPairings (sur_enforcer res) = []"
    then have "map_get (sur_enforcer res) k = None" for k by (simp add: listPairings_def)
    then show "cfg_grantable (su_config cfg) = []"
      using newEnforcer_complete [OF e, of "hd (cfg_grantable (su_config cfg))"] by (cases "cfg_grantable (su_config cfg)") auto
  next
    assume "cfg_grantable (su_config cfg) = []"
    then show "listPairings (sur_enforcer res) = []" using e by (simp add: newEnforcer_def listPairings_def)
  qed
  show ?thesis
  proof (cases "selectedServices cfg = [] \<and> cfg_grantable (su_config cfg) = []")
    case True
    have none: "cs_registry st = []" if run: "control_reachable d (sur_enforcer res) (control_view (startState [] None None disabledAudit)) st" for d st
    proof -
      have enf: "sur_enforcer res = []" using True pairings by (simp add: listPairings_def)
      have "registry_ok []" using registry_ok_new by (simp add: newRegistry_def)
      then have "control_inv (sur_enforcer res) [] st"
        using control_inv_reachable [OF run] by (simp add: control_view_def startState_def)
      then have "map_get (cs_registry st) k = None" for k
        unfolding enf control_inv_def by (cases "map_get (cs_registry st) k") (auto simp: authorize_None_iff)
      from this [of "fst (hd (cs_registry st))"] show ?thesis by (cases "cs_registry st") auto
    qed
    then show ?thesis using True services pairings by (simp add: createProxy_def newTransparent_def)
  next
    case False
    then have "reg_listAll (sur_registry res) \<noteq> [] \<or> listPairings (sur_enforcer res) \<noteq> []" using services pairings by blast
    then show ?thesis unfolding if_not_P [OF False]
      by (simp add: createProxy_def newWithMITM_def Let_def split: prod.splits)
  qed
qed

subsection \<open>A daemon at work\<close>

definition demo_run_flow :: flow where
  "demo_run_flow = (demo_daemon_flow ''api.example.com'')\<lparr>fl_meta := Some demo_tunnel\<rparr>"

lemma handled_undisturbed: "handled d e hs fl (runHandlers hs fl)"
  by (induction hs arbitrary: fl)
    (auto split: prod.splits option.splits intro: handled_done handled_answer handled_next)

lemma demo_createProxy:
  "\<exists>srv mgr. createProxy demo_goproxy demo_env (\<lambda>_. Inr (\<lambda>_. None)) (\<lambda>_. None) insecure_goproxy demo_config
       demo_result ''s3cret'' (Some disabledAudit) (Some []) = Inr (srv, mgr) \<and>
     ps_start srv = fl_px demo_run_flow"
proof -
  have "reg_listAll (sur_registry demo_result) \<noteq> []" by code_simp
  then show ?thesis
    by (simp add: createProxy_def newWithMITM_def Let_def auditSink_def startState_def demo_run_flow_def
        demo_daemon_flow_def disabledAudit_def)
qed

lemma demo_run_flow_facts:
  "canonical_headers (fl_headers demo_run_flow)" "token_strategies (Some (sur_auths demo_result))"
  "authenticated demo_run_flow" "map_get (fl_headers demo_run_flow) ''Authorization'' = None"
  by code_simp+

lemma demo_run_injects:
  "map_get (fl_headers (fst (runHandlers (mitmHandlers demo_goproxy demo_env ''s3cret'') demo_run_flow))) ''Authorization'' =
     Some [''Bearer s3cret'']"
  by code_simp


theorem undisturbed_injection_is_in_scope_witness:
  "(\<exists>(name, sc) \<in> set (selectedServices demo_setup). serves (configService name sc) ''api.example.com'' \<and>
       permits (svcPolicy (configService name sc)) ''GET'' ''/v1/chat'' 2) \<or>
   (\<exists>g \<in> set (cfg_grantable demo_config). permits (Some (grantableBound g)) ''GET'' ''/v1/chat'' 2)"
proof -
  obtain fl' rep where r: "runHandlers (mitmHandlers demo_goproxy demo_env ''s3cret'') demo_run_flow = (fl', rep)" by fastforce
  then have p: "mitmPipeline demo_goproxy demo_env ''s3cret'' demo_run_flow = (fl', rep)"
    by (simp add: mitmPipeline_def goproxy_ok_eq [OF demo_goproxy_ok])
  have new: "map_get (fl_headers fl') ''Authorization'' \<notin> {None, map_get (fl_headers demo_run_flow) ''Authorization''}"
    using demo_run_injects demo_run_flow_facts(4) r by simp
  obtain srv mgr where srv: "createProxy demo_goproxy demo_env (\<lambda>_. Inr (\<lambda>_. None)) (\<lambda>_. None) insecure_goproxy demo_config
       demo_result ''s3cret'' (Some disabledAudit) (Some []) = Inr (srv, mgr)" "ps_start srv = fl_px demo_run_flow"
    using demo_createProxy by blast
  have cfg: "su_config demo_setup = demo_config" by (simp add: demo_setup_def)
  have run: "daemon_run demo_goproxy d (sur_enforcer demo_result) ''s3cret'' (ps_start srv) (fl_px demo_run_flow)" for d
    unfolding srv(2) by (rule run_start)
  have req: "rq_host (fl_req demo_run_flow) = ''api.example.com''" "rq_method (fl_req demo_run_flow) = ''GET''"
      "rq_path (fl_req demo_run_flow) = ''/v1/chat''" "rq_contentLength (fl_req demo_run_flow) = 2"
    by (simp_all add: demo_run_flow_def demo_daemon_flow_def demo_request_def)
  from undisturbed_injection_is_in_scope [OF demo_setup_result demo_goproxy_ok srv(1) [folded cfg] run
      demo_run_flow_facts(1) p new]
  show ?thesis unfolding req cfg .
qed

definition demo_late_flow :: flow where
  "demo_late_flow = (demo_daemon_flow ''api.example.com'')\<lparr>fl_meta := Some demo_tunnel,
     fl_px := (fl_px (demo_daemon_flow ''api.example.com''))\<lparr>px_registry := []\<rparr>,
     fl_req := demo_request\<lparr>rq_method := ''DELETE''\<rparr>\<rparr>"

definition demo_decoders :: decoders where
  "demo_decoders = \<lparr>dec_grant = (\<lambda>_. Inr demo_grant), dec_revoke = (\<lambda>_. Inl (Sentinel ErrTimeout))\<rparr>"

lemma demo_late_facts:
  "authenticated demo_late_flow"
  "reg_lookup (rq_host (fl_req demo_late_flow)) (px_registry (px_control demo_decoders demo_enforcer ''/grant'' ''POST'' ''{}''
     (fl_px demo_late_flow))) = Inr (grantedService demo_grant)"
  "\<not> permits (svcPolicy (grantedService demo_grant)) (rq_method (fl_req demo_late_flow)) (rq_path (fl_req demo_late_flow))
     (rq_contentLength (fl_req demo_late_flow))"
  "placeholder (grantedService demo_grant) = ''''"
  "secretFetch (ev_os demo_env) (rq_ctxErr (fl_req demo_late_flow)) (credentialRef (grantedService demo_grant))
     (sur_secrets demo_result) = (Inr ''s3cret'', sur_secrets demo_result)"
  "authGet (authStrategyRef (grantedService demo_grant)) (sur_auths demo_result) = Inr BearerStrategy"
  "strategyApply BearerStrategy ''s3cret'' (fl_headers demo_late_flow) =
     (None, hdr_set ''Authorization'' ''Bearer s3cret'' (fl_headers demo_late_flow))"
  by code_simp+

theorem scope_check_can_be_outrun_witness:
  "rq_method (fl_req demo_late_flow) = ''DELETE'' \<and> allowedMethods (the (svcPolicy (grantedService demo_grant))) = [''GET''] \<and>
   (\<exists>fl'. handled demo_decoders demo_enforcer (mitmHandlers demo_goproxy demo_env ''s3cret'') demo_late_flow (fl', None) \<and>
      hdr_get (fl_headers fl') ''Authorization'' = ''Bearer s3cret'')"
proof -
  have none: "reg_lookup (rq_host (fl_req demo_late_flow)) (px_registry (fl_px demo_late_flow)) =
      Inl (Errorf ''service not found for hostname: %s'' [Str (rq_host (fl_req demo_late_flow))])"
    by (simp add: demo_late_flow_def reg_lookup_def Let_def)
  have px: "px_secrets (fl_px demo_late_flow) = Some (sur_secrets demo_result)"
      "px_auths (fl_px demo_late_flow) = Some (sur_auths demo_result)"
    by (simp_all add: demo_late_flow_def demo_daemon_flow_def)
  note f = demo_late_facts
  from scope_check_can_be_outrun [OF demo_goproxy_ok f(1) none f(2-4) px f(5-7)]
  have "\<exists>fl'. handled demo_decoders demo_enforcer (mitmHandlers demo_goproxy demo_env ''s3cret'') demo_late_flow (fl', None) \<and>
      fl_headers fl' = hdr_set ''Authorization'' ''Bearer s3cret'' (fl_headers demo_late_flow)" .
  moreover have "hdr_get (hdr_set ''Authorization'' ''Bearer s3cret'' (fl_headers demo_late_flow)) ''Authorization'' = ''Bearer s3cret''"
    by code_simp
  moreover have "allowedMethods (the (svcPolicy (grantedService demo_grant))) = [''GET'']" by code_simp
  moreover have "rq_method (fl_req demo_late_flow) = ''DELETE''" by (simp add: demo_late_flow_def)
  ultimately show ?thesis by metis
qed

theorem transparent_only_when_nothing_can_be_injected_witness:
  "\<exists>srv mgr'. createProxy demo_goproxy demo_env (\<lambda>_. Inr (\<lambda>_. None)) (\<lambda>_. None) insecure_goproxy demo_config demo_result
     ''s3cret'' (Some disabledAudit) (Some []) = Inr (srv, mgr') \<and> ps_request srv = mitmPipeline demo_goproxy demo_env ''s3cret''"
proof -
  have "cfg_grantable (su_config demo_setup) \<noteq> []" by (simp add: demo_setup_def demo_config_def setDefaults_def)
  then have *: "\<not> (selectedServices demo_setup = [] \<and> cfg_grantable (su_config demo_setup) = [])" by simp
  obtain srv mgr where srv: "createProxy demo_goproxy demo_env (\<lambda>_. Inr (\<lambda>_. None)) (\<lambda>_. None) insecure_goproxy demo_config
       demo_result ''s3cret'' (Some disabledAudit) (Some []) = Inr (srv, mgr)"
    using demo_createProxy by blast
  from transparent_only_when_nothing_can_be_injected [OF demo_setup_result, of demo_goproxy demo_env "\<lambda>_. Inr (\<lambda>_. None)"
      "\<lambda>_. None" insecure_goproxy demo_config "''s3cret''" "Some disabledAudit" "Some []"]
  show ?thesis unfolding if_not_P [OF *] by (simp add: srv)
qed

end
