(* ===== verification/Trail.thy ===== *)
theory Trail
  imports Daemon
begin

text \<open>
  The audit trail of the running daemon: with a log that accepts its writes, every decision about a
  request is found on it, also when requests and control requests interleave.
\<close>

definition grows :: "px \<Rightarrow> px \<Rightarrow> entry list \<Rightarrow> bool" where
  "grows p p' es \<longleftrightarrow> audit_reliable (px_audit p') \<and> al_entries (px_audit p') = al_entries (px_audit p) @ es"

definition about :: "entry \<Rightarrow> request \<Rightarrow> bool" where
  "about e r \<longleftrightarrow> en_host e = rq_host r \<and> en_path e = rq_path r \<and> en_method e = rq_method r"

definition refusal :: "entry \<Rightarrow> int \<Rightarrow> bool" where
  "refusal e status \<longleftrightarrow> en_event e \<in> {EventRequestDropped, EventPolicyDenied, EventAuthFailure} \<and> en_statusCode e = status"

definition same_target :: "request \<Rightarrow> request \<Rightarrow> bool" where
  "same_target r r' \<longleftrightarrow> rq_host r' = rq_host r \<and> rq_path r' = rq_path r \<and> rq_method r' = rq_method r"

text \<open>A handler that writes what it answers.\<close>

definition tells :: "handler \<Rightarrow> bool" where
  "tells h \<longleftrightarrow> (\<forall>fl fl' rep. audit_reliable (px_audit (fl_px fl)) \<longrightarrow> h fl = (fl', rep) \<longrightarrow>
     same_target (fl_req fl) (fl_req fl') \<and>
     (\<exists>es. grows (fl_px fl) (fl_px fl') es \<and>
       (\<forall>status t. rep = Some (NewResponse status t) \<longrightarrow> (\<exists>e \<in> set es. refusal e status \<and> about e (fl_req fl)))))"

lemma grows_refl: "audit_reliable (px_audit p) \<Longrightarrow> grows p p []"
  by (simp add: grows_def)

lemma grows_trans: "grows a b es \<Longrightarrow> grows b c es' \<Longrightarrow> grows a c (es @ es')"
  by (simp add: grows_def)

lemma grows_same: "audit_reliable (px_audit p) \<Longrightarrow> px_audit p' = px_audit p \<Longrightarrow> grows p p' []"
  by (simp add: grows_def)

lemma grows_audit: "audit_reliable (px_audit (fl_px fl)) \<Longrightarrow> px_audit p' = px_audit (fl_px (fl_audit en fl)) \<Longrightarrow> grows (fl_px fl) p' [en]"
  using logAudit_reliable by (simp add: grows_def fl_audit_def)

lemma same_target_refl: "same_target r r"
  by (simp add: same_target_def)

lemma same_target_trans: "same_target a b \<Longrightarrow> same_target b c \<Longrightarrow> same_target a c"
  by (simp add: same_target_def)

lemma about_same: "same_target r r' \<Longrightarrow> about e r' = about e r"
  by (simp add: same_target_def about_def)

lemma tells_silent:
  assumes "\<And>fl fl' rep. h fl = (fl', rep) \<Longrightarrow> px_audit (fl_px fl') = px_audit (fl_px fl) \<and> same_target (fl_req fl) (fl_req fl') \<and>
    (\<forall>status t. rep \<noteq> Some (NewResponse status t))"
  shows "tells h"
  unfolding tells_def using assms grows_same by (metis (no_types, lifting))

lemma tells_guard: "tells h \<Longrightarrow> tells (guardOn cond h)"
  unfolding tells_def guardOn_def using grows_refl same_target_refl by (smt (verit) option.distinct(1) prod.inject)

lemma requestEvent_about: "about (requestEvent ev svc r outcome) r"
  by (simp add: about_def requestEvent_def)

lemma tells_proxyAuth: "tells (proxyAuthHandler secret)"
  by (rule tells_silent) (auto simp: proxyAuthHandler_def same_target_def split: if_splits)

lemma tells_requestID: "tells (requestIDHandler ev)"
  by (rule tells_silent) (auto simp: requestIDHandler_def same_target_def Let_def split: prod.splits option.splits)

lemma tells_strip: "tells stripHandler"
  by (rule tells_silent)
    (auto simp: stripHandler_def same_target_def fl_header_def Let_def split: sum.splits option.splits if_splits)

lemma tells_record: "tells (recordRequestHandler ev)"
  by (rule tells_silent) (auto simp: recordRequestHandler_def same_target_def)

lemma tells_drop: "tells dropHandler"
  unfolding tells_def
proof (intro allI impI)
  fix fl fl' rep
  assume ok: "audit_reliable (px_audit (fl_px fl))" and h: "dropHandler fl = (fl', rep)"
  consider (quiet) "fl' = fl" "rep = None"
    | (dropped) svc detail where "fl' = fl_audit ((requestEvent EventRequestDropped svc (fl_req fl) ''blocked'')
        \<lparr>en_statusCode := 403, en_detail := detail\<rparr>) fl" "rep = Some (NewResponse 403 ''Request blocked by drop policy'')"
    using h by (auto simp: dropHandler_def Let_def split: sum.splits option.splits if_splits)
  then show "same_target (fl_req fl) (fl_req fl') \<and> (\<exists>es. grows (fl_px fl) (fl_px fl') es \<and>
      (\<forall>status t. rep = Some (NewResponse status t) \<longrightarrow> (\<exists>e \<in> set es. refusal e status \<and> about e (fl_req fl))))"
  proof cases
    case quiet
    then show ?thesis using grows_refl [OF ok] same_target_refl by auto
  next
    case dropped
    then show ?thesis
      using grows_audit [OF ok refl] by (auto simp: same_target_def refusal_def about_def requestEvent_def blank_entry_def intro!: exI)
  qed
qed

text \<open>A handler that appends one entry and answers, if it does, with the entry's status.\<close>

lemma tells_one:
  assumes "\<And>fl fl' rep. h fl = (fl', rep) \<Longrightarrow> same_target (fl_req fl) (fl_req fl') \<and>
    (px_audit (fl_px fl') = px_audit (fl_px fl) \<and> (\<forall>status t. rep \<noteq> Some (NewResponse status t)) \<or>
     (\<exists>en. px_audit (fl_px fl') = logAudit en (px_audit (fl_px fl)) \<and>
        (\<forall>status t. rep = Some (NewResponse status t) \<longrightarrow> refusal en status \<and> about en (fl_req fl))))"
  shows "tells h"
  unfolding tells_def
proof (intro allI impI)
  fix fl fl' rep
  assume ok: "audit_reliable (px_audit (fl_px fl))" and h: "h fl = (fl', rep)"
  consider (silent) "px_audit (fl_px fl') = px_audit (fl_px fl)" "\<forall>status t. rep \<noteq> Some (NewResponse status t)"
    | (one) en where "px_audit (fl_px fl') = logAudit en (px_audit (fl_px fl))"
        "\<forall>status t. rep = Some (NewResponse status t) \<longrightarrow> refusal en status \<and> about en (fl_req fl)"
    using assms [OF h] by blast
  then show "same_target (fl_req fl) (fl_req fl') \<and> (\<exists>es. grows (fl_px fl) (fl_px fl') es \<and>
      (\<forall>status t. rep = Some (NewResponse status t) \<longrightarrow> (\<exists>e \<in> set es. refusal e status \<and> about e (fl_req fl))))"
  proof cases
    case silent
    then show ?thesis using grows_same [OF ok silent(1)] assms [OF h] by blast
  next
    case one
    have "grows (fl_px fl) (fl_px fl') [en]" using logAudit_reliable [OF ok] one(1) by (simp add: grows_def)
    then show ?thesis using one(2) assms [OF h] by (metis list.set_intros(1))
  qed
qed

lemma tells_securityStrip: "tells (securityStripAuthHandler ev)"
  by (rule tells_one)
    (auto simp: securityStripAuthHandler_def same_target_def fl_audit_def fl_header_def Let_def split: sum.splits prod.splits if_splits)

lemma entry_refusal:
  "ev \<in> {EventRequestDropped, EventPolicyDenied, EventAuthFailure} \<Longrightarrow>
     refusal ((requestEvent ev svc r outcome)\<lparr>en_statusCode := status, en_detail := detail\<rparr>) status \<and>
     about ((requestEvent ev svc r outcome)\<lparr>en_statusCode := status, en_detail := detail\<rparr>) r"
  "ev \<in> {EventRequestDropped, EventPolicyDenied, EventAuthFailure} \<Longrightarrow>
     refusal ((requestEvent ev svc r outcome)\<lparr>en_authStrategy := strategy, en_statusCode := status, en_error := err\<rparr>) status \<and>
     about ((requestEvent ev svc r outcome)\<lparr>en_authStrategy := strategy, en_statusCode := status, en_error := err\<rparr>) r"
  by (auto simp: refusal_def about_def requestEvent_def blank_entry_def)

text \<open>What a handler that ends with one entry looks like.\<close>

definition told :: "flow \<Rightarrow> flow \<Rightarrow> reply option \<Rightarrow> entry \<Rightarrow> bool" where
  "told fl fl' rep en \<longleftrightarrow> same_target (fl_req fl) (fl_req fl') \<and> px_audit (fl_px fl') = logAudit en (px_audit (fl_px fl)) \<and>
     (\<forall>status t. rep = Some (NewResponse status t) \<longrightarrow> refusal en status \<and> about en (fl_req fl))"

lemma policyDenied_told:
  "policyDenied svc (fl_req fl) status detail err fl = (fl', rep) \<Longrightarrow> \<exists>en. told fl fl' rep en"
  unfolding policyDenied_def told_def using entry_refusal(1) same_target_refl
  by (intro exI conjI) (auto simp: fl_audit_def)

lemma policyHandler_told:
  assumes "policyHandler fl = (fl', rep)"
  shows "fl' = fl \<and> rep = None \<or> (\<exists>en. told fl fl' rep en)"
proof (cases "reg_lookup (rq_host (fl_req fl)) (px_registry (fl_px fl))")
  case (Inl err)
  then show ?thesis using assms by (simp add: policyHandler_def)
next
  case (Inr svc)
  show ?thesis
  proof (cases "svcPolicy svc")
    case None
    then show ?thesis using assms Inr by (simp add: policyHandler_def Let_def)
  next
    case pol: (Some policy)
    have run: "(case checkMethod (rq_method (fl_req fl)) (Some policy) of
           Some err \<Rightarrow> policyDenied svc (fl_req fl) (if str_contains (error_text err) ''too large'' then 413 else 403)
               (sprintf ''method %s not allowed'' [rq_method (fl_req fl)]) err fl
         | None \<Rightarrow> (case checkPath (rq_path (fl_req fl)) (Some policy) of
             Some err \<Rightarrow> policyDenied svc (fl_req fl) 403 (sprintf ''path %s not allowed'' [rq_path (fl_req fl)]) err fl
           | None \<Rightarrow> (case checkBodySize (rq_contentLength (fl_req fl)) (Some policy) of
               Some err \<Rightarrow> policyDenied svc (fl_req fl) 413
                 (sprintf ''body size %d exceeds limit'' [show_int (rq_contentLength (fl_req fl))]) err fl
             | None \<Rightarrow> (fl, None)))) = (fl', rep)"
      using assms by (simp add: policyHandler_def Let_def Inr pol)
    then show ?thesis
      by (auto split: option.splits dest: policyDenied_told)
  qed
qed

lemma tells_policy: "tells policyHandler"
proof (rule tells_one)
  fix fl fl' rep
  assume h: "policyHandler fl = (fl', rep)"
  from policyHandler_told [OF h] show "same_target (fl_req fl) (fl_req fl') \<and>
    (px_audit (fl_px fl') = px_audit (fl_px fl) \<and> (\<forall>status t. rep \<noteq> Some (NewResponse status t)) \<or>
     (\<exists>en. px_audit (fl_px fl') = logAudit en (px_audit (fl_px fl)) \<and>
        (\<forall>status t. rep = Some (NewResponse status t) \<longrightarrow> refusal en status \<and> about en (fl_req fl))))"
    using same_target_refl unfolding told_def by blast
qed

definition injected :: "entry \<Rightarrow> request \<Rightarrow> bool" where
  "injected e r \<longleftrightarrow> en_event e = EventCredentialInjected \<and> en_outcome e = ''success'' \<and> about e r"

lemma entry_injected: "injected ((requestEvent EventCredentialInjected svc r ''success'')\<lparr>en_authStrategy := strategy\<rparr>) r"
  by (simp add: injected_def about_def requestEvent_def blank_entry_def)

lemma authFailed_told:
  assumes "authFailed svc r status err t fl1 = (fl', rep)" "px_audit (fl_px fl1) = px_audit (fl_px fl)" "r = fl_req fl"
    "same_target (fl_req fl) (fl_req fl1)"
  shows "rep \<noteq> None \<and> (\<exists>en. told fl fl' rep en)"
  using assms entry_refusal(2) unfolding authFailed_def told_def by (auto simp: fl_audit_def)

lemma injectCredential_told:
  assumes "injectCredential ev svc secrets auths fl = (fl', rep)"
  shows "\<exists>en. told fl fl' rep en \<and> (rep = None \<longrightarrow> injected en (fl_req fl))"
proof -
  obtain res secrets' where f: "secretFetch (ev_os ev) (rq_ctxErr (fl_req fl)) (credentialRef svc) secrets = (res, secrets')" by fastforce
  let ?fl = "fl\<lparr>fl_px := (fl_px fl)\<lparr>px_secrets := Some secrets'\<rparr>\<rparr>"
  consider (failed) status err t fl1 where "authFailed svc (fl_req fl) status err t fl1 = (fl', rep)"
      "fl1 = ?fl \<or> (\<exists>h. fl1 = fl_header h ?fl)"
    | (injects) h where "fl' = fl_audit ((requestEvent EventCredentialInjected svc (fl_req fl) ''success'')
        \<lparr>en_authStrategy := authStrategyRef svc\<rparr>) (fl_header h ?fl)" "rep = None"
    using assms f by (simp add: injectCredential_def Let_def split: sum.splits prod.splits option.splits) blast+
  then show ?thesis
  proof cases
    case failed
    then have "px_audit (fl_px fl1) = px_audit (fl_px fl)" "same_target (fl_req fl) (fl_req fl1)"
      by (auto simp: same_target_def fl_header_def)
    from authFailed_told [OF failed(1) this(1) refl this(2)] show ?thesis by blast
  next
    case injects
    let ?en = "(requestEvent EventCredentialInjected svc (fl_req fl) ''success'')\<lparr>en_authStrategy := authStrategyRef svc\<rparr>"
    have "told fl fl' rep ?en" unfolding told_def injects by (simp add: fl_audit_def fl_header_def same_target_def)
    then show ?thesis using entry_injected by blast
  qed
qed

lemma authHandler_entry:
  assumes "authHandler ev fl = (fl', rep)"
  shows "fl' = fl \<and> rep = None \<or> (\<exists>en. told fl fl' rep en \<and> (rep = None \<longrightarrow> injected en (fl_req fl) \<or> fl_headers fl' = fl_headers fl))"
proof (cases "reg_lookup (rq_host (fl_req fl)) (px_registry (fl_px fl))")
  case (Inl err)
  then show ?thesis using assms by (simp add: authHandler_def)
next
  case (Inr svc)
  show ?thesis
  proof (cases "px_secrets (fl_px fl) = None \<or> px_auths (fl_px fl) = None")
    case True
    then show ?thesis
      using assms Inr by (cases "px_secrets (fl_px fl)"; cases "px_auths (fl_px fl)") (simp_all add: authHandler_def Let_def)
  next
    case False
    then obtain secrets auths where reg: "px_secrets (fl_px fl) = Some secrets" "px_auths (fl_px fl) = Some auths" by auto
    show ?thesis
    proof (cases "placeholder svc \<noteq> '''' \<and> \<not> placeholderMatches svc (fl_headers fl)")
      case True
      then have "fl' = fl_audit ((requestEvent EventPlaceholderMismatch svc (fl_req fl) ''pass_through'')
          \<lparr>en_detail := [Str ''placeholder mismatch'']\<rparr>) fl" "rep = None"
        using assms Inr reg by (simp_all add: authHandler_def Let_def)
      then show ?thesis using same_target_refl unfolding told_def by (auto simp: fl_audit_def)
    next
      case False
      let ?fl = "if placeholder svc \<noteq> '''' then fl
        else fl\<lparr>fl_px := (fl_px fl)\<lparr>px_warned := List.insert (svcName svc) (px_warned (fl_px fl))\<rparr>\<rparr>"
      have "injectCredential ev svc secrets auths ?fl = (fl', rep)"
        using assms Inr reg False by (simp add: authHandler_def Let_def)
      from injectCredential_told [OF this] obtain en where "told ?fl fl' rep en" "rep = None \<longrightarrow> injected en (fl_req ?fl)" by blast
      moreover have "fl_req ?fl = fl_req fl" "px_audit (fl_px ?fl) = px_audit (fl_px fl)" by simp_all
      ultimately show ?thesis unfolding told_def by auto
    qed
  qed
qed

lemma tells_auth: "tells (authHandler ev)"
proof (rule tells_one)
  fix fl fl' rep
  assume "authHandler ev fl = (fl', rep)"
  from authHandler_entry [OF this] show "same_target (fl_req fl) (fl_req fl') \<and>
    (px_audit (fl_px fl') = px_audit (fl_px fl) \<and> (\<forall>status t. rep \<noteq> Some (NewResponse status t)) \<or>
     (\<exists>en. px_audit (fl_px fl') = logAudit en (px_audit (fl_px fl)) \<and>
        (\<forall>status t. rep = Some (NewResponse status t) \<longrightarrow> refusal en status \<and> about en (fl_req fl))))"
    using same_target_refl unfolding told_def by blast
qed

lemma front_tells: "list_all tells (frontHandlers ev secret)"
  by (simp add: frontHandlers_def tells_proxyAuth tells_guard tells_requestID tells_drop tells_securityStrip tells_policy
      tells_strip tells_record)

subsection \<open>Between the handlers\<close>

lemma apiGrant_audit:
  "apiGrant e req st = (res, st') \<Longrightarrow> cs_audit st' = cs_audit st \<or> (\<exists>en. cs_audit st' = logAudit en (cs_audit st))"
  by (auto simp: apiGrant_def Let_def split: option.splits prod.splits if_splits)

lemma apiRevoke_audit:
  "apiRevoke h st = (res, st') \<Longrightarrow> cs_audit st' = cs_audit st \<or> (\<exists>en. cs_audit st' = logAudit en (cs_audit st))"
  by (auto simp: apiRevoke_def Let_def split: option.splits prod.splits if_splits)

lemma control_audit:
  "cs_audit (snd (serveControl d e path mth body st)) = cs_audit st \<or>
     (\<exists>en. cs_audit (snd (serveControl d e path mth body st)) = logAudit en (cs_audit st))"
  using serveControl_cases [of e st d path mth body] apiGrant_audit apiRevoke_audit by metis

lemma control_grows:
  assumes "audit_reliable (px_audit p)"
  shows "\<exists>es. grows p (px_control d e path mth body p) es"
  using control_audit [of d e path mth body "control_view p"]
proof
  assume "cs_audit (snd (serveControl d e path mth body (control_view p))) = cs_audit (control_view p)"
  then have "px_audit (px_control d e path mth body p) = px_audit p" by (simp add: px_control_def Let_def control_view_def)
  then show ?thesis using grows_same [OF assms] by blast
next
  assume "\<exists>en. cs_audit (snd (serveControl d e path mth body (control_view p))) = logAudit en (cs_audit (control_view p))"
  then obtain en where "px_audit (px_control d e path mth body p) = logAudit en (px_audit p)"
    by (auto simp: px_control_def Let_def control_view_def)
  then have "grows p (px_control d e path mth body p) [en]" using logAudit_reliable [OF assms] by (simp add: grows_def)
  then show ?thesis by blast
qed

lemma handled_tells:
  assumes "handled d e hs fl out" "list_all tells hs" "audit_reliable (px_audit (fl_px fl))"
  shows "same_target (fl_req fl) (fl_req (fst out)) \<and> (\<exists>es. grows (fl_px fl) (fl_px (fst out)) es \<and>
    (\<forall>status t. snd out = Some (NewResponse status t) \<longrightarrow> (\<exists>en \<in> set es. refusal en status \<and> about en (fl_req fl))))"
  using assms
proof (induction rule: handled.induct)
  case (handled_done fl)
  then show ?case using grows_refl same_target_refl by auto
next
  case (handled_answer h fl fl' rep hs)
  then show ?case unfolding tells_def by simp blast
next
  case (handled_next h fl fl' hs out)
  obtain es where one: "same_target (fl_req fl) (fl_req fl')" "grows (fl_px fl) (fl_px fl') es"
  proof -
    have "tells h" using handled_next.prems(1) by simp
    then show ?thesis using handled_next.hyps(1) handled_next.prems(2) that unfolding tells_def by blast
  qed
  obtain es' where rest: "same_target (fl_req fl') (fl_req (fst out))" "grows (fl_px fl') (fl_px (fst out)) es'"
      "\<forall>status t. snd out = Some (NewResponse status t) \<longrightarrow> (\<exists>en \<in> set es'. refusal en status \<and> about en (fl_req fl'))"
    using handled_next.IH handled_next.prems(1) one(2) unfolding grows_def by auto
  show ?case
    using same_target_trans [OF one(1) rest(1)] grows_trans [OF one(2) rest(2)] rest(3) about_same [OF one(1)] by fastforce
next
  case (handled_control hs path mth body fl out)
  obtain es where one: "grows (fl_px fl) (fl_px (fl_control d e path mth body fl)) es"
    using control_grows [OF handled_control.prems(2), of d e path mth body] by auto
  obtain es' where rest: "same_target (fl_req fl) (fl_req (fst out))" "grows (fl_px (fl_control d e path mth body fl)) (fl_px (fst out)) es'"
      "\<forall>status t. snd out = Some (NewResponse status t) \<longrightarrow> (\<exists>en \<in> set es'. refusal en status \<and> about en (fl_req fl))"
    using handled_control.IH handled_control.prems(1) one unfolding grows_def by auto
  show ?case using rest(1) grows_trans [OF one rest(2)] rest(3) by fastforce
qed

lemma handled_Nil_req: "handled d e hs fl out \<Longrightarrow> hs = [] \<Longrightarrow> snd out = None \<and> fl_req (fst out) = fl_req fl"
  by (induction rule: handled.induct) auto

lemma handled_injects:
  assumes "handled d e hs fl out" "hs = [guardOn chaperoneCondition (authHandler ev)]" "audit_reliable (px_audit (fl_px fl))"
    and "fl_headers (fst out) \<noteq> fl_headers fl" "snd out = None"
  shows "\<exists>es. grows (fl_px fl) (fl_px (fst out)) es \<and> (\<exists>en \<in> set es. injected en (fl_req fl))"
  using assms
proof (induction rule: handled.induct)
  case (handled_next h fl fl' hs out)
  have h: "guardOn chaperoneCondition (authHandler ev) fl = (fl', None)" using handled_next.hyps(1) handled_next.prems(1) by simp
  have nil: "handled d e [] fl' out" using handled_next.hyps(2) handled_next.prems(1) by simp
  have same: "fl_req (fst out) = fl_req fl'" using handled_Nil_req [OF nil] by simp
  have auth: "authHandler ev fl = (fl', None)" using h handled_next.prems(3) same by (auto simp: guardOn_def split: if_splits)
  from authHandler_entry [OF auth] obtain en where en: "told fl fl' None en" "injected en (fl_req fl)"
    using handled_next.prems(3) same by auto
  then have one: "grows (fl_px fl) (fl_px fl') [en]"
    using logAudit_reliable [OF handled_next.prems(2)] by (simp add: grows_def told_def)
  obtain es where "grows (fl_px fl') (fl_px (fst out)) es"
    using handled_tells [OF nil] one unfolding grows_def by auto
  from grows_trans [OF one this] en(2) show ?case by (metis UnCI list.set_intros(1) set_append)
next
  case (handled_control hs path mth body fl out)
  obtain es where one: "grows (fl_px fl) (fl_px (fl_control d e path mth body fl)) es"
    using control_grows [OF handled_control.prems(2), of d e path mth body] by auto
  obtain es' en where "grows (fl_px (fl_control d e path mth body fl)) (fl_px (fst out)) es'" "en \<in> set es'" "injected en (fl_req fl)"
    using handled_control.IH handled_control.prems one unfolding grows_def by auto
  then show ?case using grows_trans [OF one] by (metis UnCI set_append)
qed simp_all

lemma handled_removes:
  assumes "handled d e hs fl out" "list_all quiet hs" "canonical_headers (fl_headers fl)"
  shows "only_removes (fl_headers fl) (fl_headers (fst out)) \<and> canonical_headers (fl_headers (fst out))"
  using assms
proof (induction rule: handled.induct)
  case (handled_next h fl fl' hs out)
  have "quiet h" "list_all quiet hs" using handled_next.prems(1) by simp_all
  with handled_next.hyps(1) handled_next.prems(2)
  have one: "only_removes (fl_headers fl) (fl_headers fl')" "canonical_headers (fl_headers fl')"
    unfolding quiet_def by blast+
  have rest: "only_removes (fl_headers fl') (fl_headers (fst out)) \<and> canonical_headers (fl_headers (fst out))"
    by (rule handled_next.IH [OF \<open>list_all quiet hs\<close> one(2)])
  then show ?case using only_removes_trans [OF one(1)] by blast
next
  case (handled_answer h fl fl' rep hs)
  have "quiet h" using handled_answer.prems(1) by simp
  with handled_answer.hyps(1) handled_answer.prems(2)
  have "only_removes (fl_headers fl) (fl_headers fl')" "canonical_headers (fl_headers fl')"
    unfolding quiet_def by blast+
  then show ?case by simp
next
  case (handled_done fl)
  then show ?case by (simp add: only_removes_def)
next
  case (handled_control hs path mth body fl out)
  then show ?case by simp
qed

lemma authHandler_answer_keeps: "authHandler ev fl = (fl', Some r) \<Longrightarrow> fl_headers fl' = fl_headers fl"
  using authHandler_change [of ev fl fl' "Some r"] by blast

lemma handled_answer_keeps:
  "handled d e hs fl out \<Longrightarrow> hs = [guardOn chaperoneCondition (authHandler ev)] \<Longrightarrow> snd out = Some r \<Longrightarrow>
     fl_headers (fst out) = fl_headers fl"
proof (induction rule: handled.induct)
  case (handled_answer h fl fl' rep hs)
  then have "authHandler ev fl = (fl', Some rep)" by (auto simp: guardOn_def split: if_splits)
  from authHandler_answer_keeps [OF this] show ?case by simp
next
  case (handled_next h fl fl' hs out)
  then show ?case using handled_Nil_req [of d e hs fl' out] by simp
qed simp_all

lemma daemon_run_grows:
  assumes "daemon_run gp d e secret p0 p" "goproxy_ok gp" "audit_reliable (px_audit p0)"
  shows "\<exists>es. grows p0 p es"
  using assms
proof (induction rule: daemon_run.induct)
  case run_start
  then show ?case using grows_refl by blast
next
  case (run_control p path mth body)
  then obtain es where one: "grows p0 p es" by blast
  then obtain es' where "grows p (px_control d e path mth body p) es'" using control_grows unfolding grows_def by metis
  then show ?case using grows_trans [OF one] by blast
next
  case (run_request fl ev fl' rep)
  then obtain es where one: "grows p0 (fl_px fl) es" by blast
  have "list_all tells (mitmHandlers gp ev secret)"
    using run_request.prems(1) front_tells tells_guard tells_auth by (simp add: mitmHandlers_front)
  from handled_tells [OF run_request.hyps(3) this] one obtain es' where "grows (fl_px fl) (fl_px fl') es'"
    unfolding grows_def by auto
  then show ?case using grows_trans [OF one] by blast
qed

lemma disturbed_trail:
  assumes gp: "goproxy_ok gp" and hdr: "canonical_headers (fl_headers fl)"
    and run: "handled d e (mitmHandlers gp ev secret) fl (fl', rep)" and ok: "audit_reliable (px_audit (fl_px fl))"
    and new: "map_get (fl_headers fl') k \<notin> {None, map_get (fl_headers fl) k}"
  shows "\<exists>es. grows (fl_px fl) (fl_px fl') es \<and> (\<exists>en \<in> set es. injected en (fl_req fl))"
proof -
  have kept: "only_removes (fl_headers fl) (fl_headers (fst out))"
    if "handled d e (frontHandlers ev secret) fl out" for out
    using handled_removes [OF that front_quiet hdr] by blast
  have "\<not> handled d e (frontHandlers ev secret) fl (fl', rep)"
  proof
    assume "handled d e (frontHandlers ev secret) fl (fl', rep)"
    from not_removed [OF kept [OF this], of k] show False using new by simp
  qed
  with handled_append [OF run mitmHandlers_front [OF gp]] obtain fl1 where fl1: "handled d e (frontHandlers ev secret) fl (fl1, None)"
      "handled d e [guardOn chaperoneCondition (authHandler ev)] fl1 (fl', rep)" by blast
  from handled_tells [OF fl1(1) front_tells ok] obtain es where es: "same_target (fl_req fl) (fl_req fl1)" "grows (fl_px fl) (fl_px fl1) es"
    by auto
  have changed: "fl_headers fl' \<noteq> fl_headers fl1" using not_removed [OF kept [OF fl1(1)], of k] new by auto
  have "rep = None" using handled_answer_keeps [OF fl1(2) refl] changed by (cases rep) auto
  then obtain es' en where "grows (fl_px fl1) (fl_px fl') es'" "en \<in> set es'" "injected en (fl_req fl1)"
    using handled_injects [OF fl1(2) refl] es(2) changed unfolding grows_def by auto
  then show ?thesis
    using grows_trans [OF es(2)] about_same [OF es(1)] unfolding injected_def by (metis UnCI set_append)
qed

subsection \<open>Properties\<close>

text \<open>C6: The audit trail tells every decision. Over the life of a daemon whose audit log accepts its
  writes, the trail is only ever appended to. Whenever a handler answers a request on its own
  (the 407 challenge apart), and whenever a header is added to one, the entries written meanwhile
  include one for that host, path and method: a refusal with the status of the answer, or a
  successful injection; control requests served in between change nothing of this.\<close>

theorem trail_tells_every_decision:
  assumes "goproxy_ok gp" "audit_reliable (px_audit p0)" "daemon_run gp d e secret p0 (fl_px fl)"
    and "canonical_headers (fl_headers fl)" "handled d e (mitmHandlers gp ev secret) fl (fl', rep)"
  shows "\<exists>before es. al_entries (px_audit (fl_px fl)) = al_entries (px_audit p0) @ before \<and>
    al_entries (px_audit (fl_px fl')) = al_entries (px_audit (fl_px fl)) @ es \<and>
    (\<forall>status t. rep = Some (NewResponse status t) \<longrightarrow> (\<exists>en \<in> set es. refusal en status \<and> about en (fl_req fl))) \<and>
    (\<forall>k. map_get (fl_headers fl') k \<notin> {None, map_get (fl_headers fl) k} \<longrightarrow> (\<exists>en \<in> set es. injected en (fl_req fl)))"
proof -
  obtain before where past: "grows p0 (fl_px fl) before" using daemon_run_grows [OF assms(3,1,2)] by blast
  then have ok: "audit_reliable (px_audit (fl_px fl))" by (simp add: grows_def)
  have "list_all tells (mitmHandlers gp ev secret)"
    using assms(1) front_tells tells_guard tells_auth by (simp add: mitmHandlers_front)
  from handled_tells [OF assms(5) this ok] obtain es where es: "grows (fl_px fl) (fl_px fl') es"
      "\<forall>status t. rep = Some (NewResponse status t) \<longrightarrow> (\<exists>en \<in> set es. refusal en status \<and> about en (fl_req fl))" by auto
  have added: "\<exists>en \<in> set es. injected en (fl_req fl)" if new: "map_get (fl_headers fl') k \<notin> {None, map_get (fl_headers fl) k}" for k
    using disturbed_trail [OF assms(1,4,5) ok new] es(1) unfolding grows_def by auto
  show ?thesis using past es added unfolding grows_def by blast
qed

subsection \<open>A trail written\<close>

definition demo_told_flow :: flow where
  "demo_told_flow = demo_run_flow\<lparr>fl_px := (fl_px demo_run_flow)
     \<lparr>px_audit := \<lparr>al_enabled = True, al_writer = (\<lambda>_. None), al_attempts = 0, al_entries = []\<rparr>\<rparr>\<rparr>"

lemma demo_told_facts:
  "audit_reliable (px_audit (fl_px demo_told_flow))" "al_entries (px_audit (fl_px demo_told_flow)) = []"
  "canonical_headers (fl_headers demo_told_flow)" "map_get (fl_headers demo_told_flow) ''Authorization'' = None"
  using demo_run_flow_facts(1,4) by (simp_all add: demo_told_flow_def audit_reliable_def)

lemma demo_told_injects:
  "map_get (fl_headers (fst (runHandlers (mitmHandlers demo_goproxy demo_env ''s3cret'') demo_told_flow))) ''Authorization'' =
     Some [''Bearer s3cret'']"
  by code_simp

theorem trail_tells_every_decision_witness:
  "\<exists>fl' rep en. handled demo_decoders demo_enforcer (mitmHandlers demo_goproxy demo_env ''s3cret'') demo_told_flow (fl', rep) \<and>
     map_get (fl_headers fl') ''Authorization'' = Some [''Bearer s3cret''] \<and>
     en \<in> set (al_entries (px_audit (fl_px fl'))) \<and> en_event en = EventCredentialInjected \<and> en_host en = ''api.example.com''"
proof -
  obtain fl' rep where r: "runHandlers (mitmHandlers demo_goproxy demo_env ''s3cret'') demo_told_flow = (fl', rep)" by fastforce
  have h: "handled demo_decoders demo_enforcer (mitmHandlers demo_goproxy demo_env ''s3cret'') demo_told_flow (fl', rep)"
    using handled_undisturbed [where hs = "mitmHandlers demo_goproxy demo_env ''s3cret''" and fl = demo_told_flow] r by metis
  have added: "map_get (fl_headers fl') ''Authorization'' = Some [''Bearer s3cret'']" using demo_told_injects r by simp
  have new: "map_get (fl_headers fl') ''Authorization'' \<notin> {None, map_get (fl_headers demo_told_flow) ''Authorization''}"
    using added demo_told_facts(4) by simp
  have host: "rq_host (fl_req demo_told_flow) = ''api.example.com''"
    by (simp add: demo_told_flow_def demo_run_flow_def demo_daemon_flow_def)
  from trail_tells_every_decision [OF demo_goproxy_ok demo_told_facts(1) run_start demo_told_facts(3) h] new
  obtain es en where "al_entries (px_audit (fl_px fl')) = al_entries (px_audit (fl_px demo_told_flow)) @ es"
      "en \<in> set es" "injected en (fl_req demo_told_flow)" by blast
  then have "en \<in> set (al_entries (px_audit (fl_px fl')))" "en_event en = EventCredentialInjected" "en_host en = ''api.example.com''"
    using host by (simp_all add: demo_told_facts(2) injected_def about_def)
  then show ?thesis using h added by blast
qed

end
