(* ===== verification/Commands.thy ===== *)
theory Commands
  imports Daemon Run_Env Shutdown
begin

text \<open>
  \<open>cmd/chaperone/cmd\<close>: where the configuration, the authority and the control socket are looked for
  (\<open>root.go\<close>), \<open>chaperone inject\<close> and \<open>chaperone run\<close> with every early return, and the checks and
  option handling of \<open>chaperone check\<close>. The machine a command runs on is an argument; what the
  command changes is the record \<open>run_session\<close>. The arguments of a command are those Cobra passes on.
\<close>

subsection \<open>The machine and the session\<close>

record ('cert, 'key, 'pool) machine =
  mc_home :: "go_error + string"
  mc_os :: os
  mc_toml :: "string \<Rightarrow> go_error + config"
  mc_trust :: "string \<Rightarrow> go_error + 'pool option"
  mc_pki :: "('cert, 'key) pki"
  mc_caRandom :: nat
  mc_random :: "go_error + string"
  mc_goproxy :: goproxy
  mc_env :: env
  mc_openAudit :: "string \<Rightarrow> go_error + (nat \<Rightarrow> go_error option)"
  mc_stdout :: "nat \<Rightarrow> go_error option"
  mc_base :: "'pool goproxy_server"
  mc_listen :: "string \<Rightarrow> go_error + string"
  mc_sys :: sys
  mc_id :: nat
  mc_pid :: nat
  mc_tempLog :: "go_error + string"
  mc_environ :: "string list"
  mc_reader :: file_reader
  mc_start :: "string list \<Rightarrow> string list \<Rightarrow> go_error + child"
  mc_har :: "go_error + string"
  mc_indent :: "string \<Rightarrow> go_error + string"
  mc_timestamp :: string
  mc_sentinel :: "nat option"

record 'pool run_session =
  ss_fs :: fsys
  ss_sock :: sock_world
  ss_hooks :: "hook list"
  ss_server :: "'pool proxy_server option"

subsection \<open>Where things are\<close>

definition getConfigPath :: "string \<Rightarrow> go_error + string \<Rightarrow> fsys \<Rightarrow> go_error + string" where
  "getConfigPath cfgFile home fs =
     (if cfgFile \<noteq> '''' then Inr cfgFile
      else case home of
        Inl _ \<Rightarrow> Inl (Errorf ''no config file found (checked -c flag and ~/.config/chaperone/chaperone.toml; config in the current directory is not loaded automatically)'' [])
      | Inr homeDir \<Rightarrow> (let defaultPath = filepath_join [homeDir, ''.config'', ''chaperone'', ''chaperone.toml''] in
          if os_exists defaultPath fs then Inr defaultPath
          else Inl (Errorf ''no config file found (checked -c flag and ~/.config/chaperone/chaperone.toml; config in the current directory is not loaded automatically)'' [])))"

definition getCAPath :: "go_error + string \<Rightarrow> go_error + string \<times> string \<times> string" where
  "getCAPath home = (case home of
     Inl err \<Rightarrow> Inl (Wrapf ''failed to get user home directory: %w'' [] err)
   | Inr homeDir \<Rightarrow> (let dir = filepath_join [homeDir, ''.config'', ''chaperone''] in
       Inr (dir, filepath_join [dir, ''ca-key.pem''], filepath_join [dir, ''ca-cert.pem''])))"

definition getControlSocketPath :: "go_error + string \<Rightarrow> go_error + string" where
  "getControlSocketPath home = (case home of
     Inl err \<Rightarrow> Inl (Wrapf ''failed to get user home directory: %w'' [] err)
   | Inr homeDir \<Rightarrow> Inr (filepath_join [homeDir, ''.config'', ''chaperone'', ''control.sock'']))"

subsection \<open>Shutting down\<close>

definition os_removeAll :: "string \<Rightarrow> fsys \<Rightarrow> go_error option \<times> fsys" where
  "os_removeAll dir fs = (case fs_fails fs ''remove'' dir of
     Some err \<Rightarrow> (Some err, fs)
   | None \<Rightarrow> (None, fs\<lparr>fs_files := filter (\<lambda>(p, _). p \<noteq> dir \<and> \<not> has_prefix p (dir @ ''/'')) (fs_files fs)\<rparr>))"

text \<open>The archive of the HAR recorder; its JSON text is an argument.\<close>

definition writeToFile :: "go_error + string \<Rightarrow> (string \<Rightarrow> go_error + string) \<Rightarrow> string \<Rightarrow> fsys \<Rightarrow> go_error option \<times> fsys" where
  "writeToFile json indent filename fs = (case json of
     Inl err \<Rightarrow> (Some (Wrapf ''failed to marshal HAR: %w'' [] err), fs)
   | Inr data \<Rightarrow> (case indent data of
       Inl err \<Rightarrow> (Some (Wrapf ''failed to indent JSON: %w'' [] err), fs)
     | Inr buf \<Rightarrow> (case os_writeFile filename buf 0x180 fs of
         (Some err, fs') \<Rightarrow> (Some (Wrapf ''failed to write HAR file: %w'' [] err), fs')
       | (None, fs') \<Rightarrow> (None, fs'))))"

text \<open>What the registered functions do. Closing a file and printing the summary change nothing that is
  modelled here; the time they take is not modelled either.\<close>

definition hookEffect :: "('cert, 'key, 'pool) machine \<Rightarrow> hook \<Rightarrow> 'pool run_session \<Rightarrow> go_error option \<times> 'pool run_session" where
  "hookEffect m h st = (case h of
     CloseAudit \<Rightarrow> (None, st)
   | CloseLogFile \<Rightarrow> (None, st)
   | PrintSummary \<Rightarrow> (None, st)
   | WriteHAR harPath \<Rightarrow> (case writeToFile (mc_har m) (mc_indent m) harPath (ss_fs st) of
       (Some err, fs) \<Rightarrow> (Some (Wrapf ''failed to write HAR file: %w'' [] err), st\<lparr>ss_fs := fs\<rparr>)
     | (None, fs) \<Rightarrow> (None, st\<lparr>ss_fs := fs\<rparr>))
   | RemoveCADir \<Rightarrow> (case os_removeAll (ephemeralCADir (mc_pid m)) (ss_fs st) of (err, fs) \<Rightarrow> (err, st\<lparr>ss_fs := fs\<rparr>))
   | StopControl \<Rightarrow> (case stopControl (mc_sys m) (mc_id m) (ss_sock st) of (err, w) \<Rightarrow> (err, st\<lparr>ss_sock := w\<rparr>))
   | StopProxy \<Rightarrow> (case ss_server st of
       None \<Rightarrow> (None, st)
     | Some s \<Rightarrow> (case stopServer None s of (err, s') \<Rightarrow> (err, st\<lparr>ss_server := Some s'\<rparr>))))"

definition hookFn :: "('cert, 'key, 'pool) machine \<Rightarrow> hook \<Rightarrow> 'pool run_session shutdown_fn" where
  "hookFn m h deadline now st = (case hookEffect m h st of (err, st') \<Rightarrow> ((now, Returns err), st'))"

definition second :: int where
  "second = 1000000000"

definition shutdownSession ::
  "('cert, 'key, 'pool) machine \<Rightarrow> int \<Rightarrow> 'pool run_session \<Rightarrow> shutdown_error option \<times> 'pool run_session" where
  "shutdownSession m timeout st =
     (case shutdown True timeout (foldl (\<lambda>mgr h. registerShutdown (hookFn m h) mgr) newManager (ss_hooks st)) st of
        ((_, err), _, st') \<Rightarrow> (err, st'))"

subsection \<open>chaperone inject\<close>

datatype inject_outcome = InjectFailed go_error | InjectCrashed | InjectWaiting

text \<open>Up to the setup of the daemon: nothing is registered with the shutdown manager yet.\<close>

definition injectSetup ::
  "('cert, 'key, 'pool) machine \<Rightarrow> string \<Rightarrow> string list \<Rightarrow> fsys
   \<Rightarrow> (inject_outcome + config \<times> ('pool, 'certkey) setup_result) \<times> fsys" where
  "injectSetup m cfgFile args fs = (let serviceFilter = take 1 args in
     case getConfigPath cfgFile (mc_home m) fs of
       Inl err \<Rightarrow> (Inl (InjectFailed (Wrapf ''failed to resolve config path: %w'' [] err)), fs)
     | Inr configPath \<Rightarrow> (case loadConfig (mc_os m) (mc_toml m) configPath of
         Inl err \<Rightarrow> (Inl (InjectFailed (Wrapf ''failed to load config: %w'' [] err)), fs)
       | Inr loaded \<Rightarrow> (let cfg = setDefaults loaded in
           case configValidate (mc_trust m) cfg of
             Panicked \<Rightarrow> (Inl InjectCrashed, fs)
           | Checked (Some err) \<Rightarrow> (Inl (InjectFailed (Wrapf ''invalid config: %w'' [] err)), fs)
           | Checked None \<Rightarrow> (case getCAPath (mc_home m) of
               Inl err \<Rightarrow> (Inl (InjectFailed (Wrapf ''failed to get CA path: %w'' [] err)), fs)
             | Inr (_, caKeyPath, caCertPath) \<Rightarrow>
                 (case initializeCA (mc_pki m) (mc_caRandom m) caKeyPath caCertPath fs of
                    (Inl err, fs') \<Rightarrow> (Inl (InjectFailed err), fs')
                  | (Inr (ca, _), fs') \<Rightarrow>
                      (case setupDaemon (mc_os m) None (mc_trust m) (pk_raw (mc_pki m) (ca_cert ca))
                          \<lparr>su_config = cfg, su_serviceNames = serviceFilter\<rparr> of
                        Inl err \<Rightarrow> (Inl (InjectFailed err), fs')
                      | Inr res \<Rightarrow> (Inr (cfg, res), fs')))))))"

text \<open>The proxy server, created and started.\<close>

definition startProxy ::
  "('cert, 'key, 'pool) machine \<Rightarrow> config \<Rightarrow> ('pool, 'certkey) setup_result \<Rightarrow> audit_logger option \<Rightarrow> 'pool run_session
   \<Rightarrow> (go_error + 'pool proxy_server) \<times> 'pool run_session" where
  "startProxy m cfg res audit st = (case generateProxySecret (mc_random m) of
     Inl err \<Rightarrow> (Inl (Wrapf ''failed to generate proxy secret: %w'' [] err), st)
   | Inr proxySecret \<Rightarrow>
       (case createProxy (mc_goproxy m) (mc_env m) (mc_openAudit m) (mc_stdout m) (mc_base m) cfg res proxySecret audit
           (Some (ss_hooks st)) of
         Inl err \<Rightarrow> (Inl err, st)
       | Inr (srv, mgr) \<Rightarrow> (let st1 = st\<lparr>ss_hooks := (case mgr of None \<Rightarrow> [] | Some hs \<Rightarrow> hs)\<rparr> in
           case startServer (mc_listen m) srv of
             (Some err, srv') \<Rightarrow> (Inl (Wrapf ''failed to start proxy server: %w'' [] err), st1\<lparr>ss_server := Some srv'\<rparr>)
           | (None, srv') \<Rightarrow> (Inr srv', st1\<lparr>ss_server := Some srv'\<rparr>))))"

definition runInject ::
  "('cert, 'key, 'pool) machine \<Rightarrow> string \<Rightarrow> string list \<Rightarrow> 'pool run_session \<Rightarrow> inject_outcome \<times> 'pool run_session" where
  "runInject m cfgFile args st = (case injectSetup m cfgFile args (ss_fs st) of
     (Inl out, fs) \<Rightarrow> (out, st\<lparr>ss_fs := fs\<rparr>)
   | (Inr (cfg, res :: ('pool, nat) setup_result), fs) \<Rightarrow> (let st0 = st\<lparr>ss_fs := fs\<rparr> in
       case createAuditLogger (mc_openAudit m) (mc_stdout m) cfg (Some (ss_hooks st0)) of
         Inl err \<Rightarrow> (InjectFailed err, st0)
       | Inr (auditLogger, mgr) \<Rightarrow>
           (case startProxy m cfg res (Some auditLogger) (st0\<lparr>ss_hooks := (case mgr of None \<Rightarrow> [] | Some hs \<Rightarrow> hs)\<rparr>) of
              (Inl err, st1) \<Rightarrow> (InjectFailed err, st1)
            | (Inr srv, st1) \<Rightarrow> (case getControlSocketPath (mc_home m) of
                Inl err \<Rightarrow> (InjectFailed err, st1)
              | Inr socketPath \<Rightarrow>
                  (case startControlPlane socketPath (mc_sys m) (mc_id m) (Some (ss_hooks st1)) (ss_sock st1) of
                     (Some err, _, w) \<Rightarrow> (InjectFailed err, st1\<lparr>ss_sock := w\<rparr>)
                   | (None, mgr', w) \<Rightarrow>
                       (InjectWaiting, st1\<lparr>ss_sock := w, ss_hooks := (case mgr' of None \<Rightarrow> [] | Some hs \<Rightarrow> hs)\<rparr>))))))"

text \<open>After the signal.\<close>

definition stopInject :: "('cert, 'key, 'pool) machine \<Rightarrow> 'pool run_session \<Rightarrow> shutdown_error option \<times> 'pool run_session" where
  "stopInject m st = shutdownSession m (30 * second) st"

subsection \<open>chaperone run\<close>

text \<open>The service, and the command line after a separator.\<close>

definition runArguments :: "string list \<Rightarrow> go_error + string \<times> string list" where
  "runArguments args = (case args of
     [] \<Rightarrow> Inl (Errorf ''requires at least 1 arg(s), only received 0'' [])
   | serviceName # rest \<Rightarrow> (case rest of
       [] \<Rightarrow> Inr (serviceName, [])
     | sep # cliCommand \<Rightarrow> if sep = ''--'' then Inr (serviceName, cliCommand)
         else Inl (Errorf ''invalid syntax: extra arguments must be preceded by '--' separator (usage: chaperone run <service> -- <command> <arg1> ...)'' [])))"

definition formatRunCommand :: "string \<Rightarrow> string list \<Rightarrow> string" where
  "formatRunCommand cmd args = (if args = [] then cmd else cmd @ '' '' @ str_join '' '' args)"

datatype run_outcome = RunFailed go_error | RunCrashed | RunExits int | RunNeverEnds

definition runConfigured ::
  "('cert, 'key, 'pool) machine \<Rightarrow> string \<Rightarrow> string list \<Rightarrow> fsys \<Rightarrow> run_outcome + string \<times> service_config \<times> config" where
  "runConfigured m cfgFile args fs = (case runArguments args of
     Inl err \<Rightarrow> Inl (RunFailed err)
   | Inr (serviceName, cliCommand) \<Rightarrow> (case getConfigPath cfgFile (mc_home m) fs of
       Inl err \<Rightarrow> Inl (RunFailed (Wrapf ''failed to load config: %w'' [] err))
     | Inr configPath \<Rightarrow> (case loadConfig (mc_os m) (mc_toml m) configPath of
         Inl err \<Rightarrow> Inl (RunFailed (Wrapf ''failed to load config: %w'' [] err))
       | Inr loaded \<Rightarrow> (case prepareRunConfig (os_env (mc_os m)) loaded serviceName cliCommand of
           (Inl err, _) \<Rightarrow> Inl (RunFailed err)
         | (Inr svc, prepared) \<Rightarrow> (let cfg = setDefaults prepared in
             case configValidate (mc_trust m) cfg of
               Panicked \<Rightarrow> Inl RunCrashed
             | Checked (Some err) \<Rightarrow> Inl (RunFailed (Wrapf ''invalid config: %w'' [] err))
             | Checked None \<Rightarrow> Inr (serviceName, svc, cfg))))))"

definition childConfig :: "service_config \<Rightarrow> string \<Rightarrow> string \<Rightarrow> process_config" where
  "childConfig svc url caCertPath = (let run = (case sc_run svc of Some rc \<Rightarrow> rc | None \<Rightarrow> blankRunConfig) in
     \<lparr>pc_command = rc_command run # rc_args run, pc_proxyURL = url, pc_caCertPath = caCertPath,
      pc_caEnvVars = Some (rc_caEnvVars run), pc_envFile = rc_envFile run, pc_userEnvVars = []\<rparr>)"

text \<open>From the log file to the started proxy: the server with the path of its certificate.\<close>

definition runStarted ::
  "('cert, 'key, 'pool) machine \<Rightarrow> string \<Rightarrow> config \<Rightarrow> 'pool run_session
   \<Rightarrow> (go_error + 'pool proxy_server \<times> string) \<times> 'pool run_session" where
  "runStarted m serviceName cfg st = (case mc_tempLog m of
     Inl err \<Rightarrow> (Inl (Wrapf ''failed to create temporary log file: %w'' [] (Wrapf ''failed to create temporary log file: %w'' [] err)), st)
   | Inr logPath \<Rightarrow>
       (case initializeEphemeralCA (mc_pki m) (mc_caRandom m) (mc_pid m) (ss_hooks st @ [CloseLogFile]) (ss_fs st) of
          (Inl err, hooks, fs) \<Rightarrow> (Inl err, st\<lparr>ss_hooks := hooks, ss_fs := fs\<rparr>)
        | (Inr (ca, caKeyPath, caCertPath), hooks, fs) \<Rightarrow> (let st1 = st\<lparr>ss_hooks := hooks, ss_fs := fs\<rparr> in
            case setupDaemon (mc_os m) None (mc_trust m) (pk_raw (mc_pki m) (ca_cert ca))
                \<lparr>su_config = cfg, su_serviceNames = [serviceName]\<rparr> of
              Inl err \<Rightarrow> (Inl err, st1)
            | Inr (res :: ('pool, nat) setup_result) \<Rightarrow> (case startProxy m cfg res None st1 of
                (Inl err, st2) \<Rightarrow> (Inl err, st2)
              | (Inr srv, st2) \<Rightarrow> (Inr (srv, caCertPath), st2)))))"

definition runWithProxy ::
  "('cert, 'key, 'pool) machine \<Rightarrow> string \<Rightarrow> string list \<Rightarrow> 'pool run_session \<Rightarrow> run_outcome \<times> 'pool run_session" where
  "runWithProxy m cfgFile args st = (case runConfigured m cfgFile args (ss_fs st) of
     Inl out \<Rightarrow> (out, st)
   | Inr (serviceName, svc, cfg) \<Rightarrow> (case runStarted m serviceName cfg st of
       (Inl err, st1) \<Rightarrow> (RunFailed err, st1)
     | (Inr (srv, caCertPath), st1) \<Rightarrow>
         (case spawnChild (mc_environ m) (mc_reader m) (mc_start m) (childConfig svc (proxyURL srv) caCertPath) of
            Inl err \<Rightarrow> (RunFailed err, snd (shutdownSession m (5 * second) st1))
          | Inr ch \<Rightarrow> (case waitChild ch of
              None \<Rightarrow> (RunNeverEnds, st1)
            | Some (_, code) \<Rightarrow> (RunExits code, snd (shutdownSession m (5 * second) st1))))))"

subsection \<open>Options of chaperone examine\<close>

record examine_flags =
  xf_showBody :: bool
  xf_showParams :: bool
  xf_showCookies :: bool
  xf_showResponse :: bool
  xf_outputFile :: string
  xf_enableHAR :: bool
  xf_harOutputFile :: string
  xf_enableJSONL :: bool
  xf_jsonlOutputFile :: string
  xf_allHeaders :: bool
  xf_sentinel :: string
  xf_envVars :: "string list"

definition impliedFlags :: "examine_flags \<Rightarrow> examine_flags" where
  "impliedFlags f =
     (let f1 = (if xf_outputFile f \<noteq> ''''
          then f\<lparr>xf_showBody := True, xf_showParams := True, xf_showCookies := True, xf_showResponse := True\<rparr> else f);
          f2 = (if xf_harOutputFile f1 \<noteq> '''' then f1\<lparr>xf_enableHAR := True\<rparr> else f1) in
      if xf_jsonlOutputFile f2 \<noteq> '''' then f2\<lparr>xf_enableJSONL := True\<rparr> else f2)"

definition examineBaseConfig :: config where
  "examineBaseConfig = \<lparr>cfg_server = \<lparr>srv_address = ''127.0.0.1'', srv_port = 0, srv_upstreamCAFile = ''''\<rparr>,
     cfg_services = [], cfg_logging = \<lparr>lc_level = ''info'', lc_format = '''', lc_output = ''''\<rparr>,
     cfg_audit = \<lparr>ac_enabled = False, ac_path = ''''\<rparr>, cfg_grantable = []\<rparr>"

text \<open>A configuration that cannot be found or loaded is ignored.\<close>

definition examineConfig ::
  "string \<Rightarrow> go_error + string \<Rightarrow> fsys \<Rightarrow> os \<Rightarrow> (string \<Rightarrow> go_error + config) \<Rightarrow> config" where
  "examineConfig cfgFile home fs os toml = (let cfg = examineBaseConfig in
     setDefaults (case getConfigPath cfgFile home fs of
       Inl _ \<Rightarrow> cfg
     | Inr configPath \<Rightarrow> (case loadConfig os toml configPath of
         Inl _ \<Rightarrow> cfg
       | Inr loaded \<Rightarrow> (let srv = cfg_server cfg;
            srv1 = (if srv_port (cfg_server loaded) \<noteq> 0 then srv\<lparr>srv_port := srv_port (cfg_server loaded)\<rparr> else srv);
            srv2 = (if srv_address (cfg_server loaded) \<noteq> '''' then srv1\<lparr>srv_address := srv_address (cfg_server loaded)\<rparr> else srv1)
          in cfg\<lparr>cfg_logging := cfg_logging loaded, cfg_server := srv2\<rparr>))))"

fun parseEnvVars :: "string list \<Rightarrow> env_vars \<Rightarrow> go_error + env_vars" where
  "parseEnvVars [] vars = Inr vars"
| "parseEnvVars (envVar # rest) vars = (case index_byte (CHR ''='') envVar of
     None \<Rightarrow> Inl (Errorf ''invalid environment variable (missing '='): %s'' [Str envVar])
   | Some idx \<Rightarrow> if idx = 0 then Inl (Errorf ''invalid environment variable (empty name): %s'' [Str envVar])
       else parseEnvVars rest (map_put (take idx envVar) (drop (Suc idx) envVar) vars))"

definition formatCommand :: "string list \<Rightarrow> string" where
  "formatCommand cmd = snd (foldl (\<lambda>(first, s) arg. (False, (if first then s else s @ '' '') @ arg)) (True, '''') cmd)"

datatype examine_outcome = ExamineFailed go_error | ExamineExits int | ExamineNeverEnds | ExamineWaiting

definition examineCA ::
  "('cert, 'key, 'pool) machine \<Rightarrow> fsys \<Rightarrow> (go_error + ('cert, 'key) ca \<times> string) \<times> fsys" where
  "examineCA m fs = (case getCAPath (mc_home m) of
     Inl err \<Rightarrow> (Inl (Wrapf ''failed to get CA path: %w'' [] err), fs)
   | Inr (caDir, caKeyPath, caCertPath) \<Rightarrow> (case os_mkdirAll caDir fs of
       Some err \<Rightarrow> (Inl (Wrapf ''failed to create CA directory: %w'' [] err), fs)
     | None \<Rightarrow> (case loadOrGenerateCA (mc_pki m) (mc_caRandom m) caKeyPath caCertPath fs of
         (Inl err, fs') \<Rightarrow> (Inl (Wrapf ''failed to initialize CA: %w'' [] err), fs')
       | (Inr ca, fs') \<Rightarrow> (Inr (ca, caCertPath), fs'))))"

definition examineHooks :: "('cert, 'key, 'pool) machine \<Rightarrow> examine_flags \<Rightarrow> hook list" where
  "examineHooks m f = (let harPath = (if xf_harOutputFile f \<noteq> '''' then xf_harOutputFile f
       else ''chaperone-'' @ mc_timestamp m @ ''.har'') in
     (if xf_enableHAR f then [WriteHAR harPath] else []) @ [PrintSummary])"

text \<open>Up to the started proxy; the handlers of package \<open>examine\<close> are arguments. The convenience link
  to the log file, the banner and the wait for the return key are left out.\<close>

definition examineServer ::
  "('cert, 'key, 'pool) machine \<Rightarrow> connect_handler \<Rightarrow> handler \<Rightarrow> bool \<Rightarrow> config \<Rightarrow> string \<Rightarrow> 'pool run_session
   \<Rightarrow> (go_error + 'pool proxy_server) \<times> 'pool run_session" where
  "examineServer m examineConnect examineRequest recording cfg proxySecret st =
     (case newExamineProxy (mc_goproxy m) (mc_env m) examineConnect examineRequest recording (mc_base m) cfg proxySecret
         (Some (ss_hooks st)) of
        Inl err \<Rightarrow> (Inl (Wrapf ''failed to create examine proxy: %w'' [] err), st)
      | Inr (srv, mgr) \<Rightarrow> (let st1 = st\<lparr>ss_hooks := (case mgr of None \<Rightarrow> [] | Some hs \<Rightarrow> hs)\<rparr> in
          case startServer (mc_listen m) srv of
            (Some err, srv') \<Rightarrow> (Inl (Wrapf ''failed to start examine proxy: %w'' [] err), st1\<lparr>ss_server := Some srv'\<rparr>)
          | (None, srv') \<Rightarrow> (Inr srv', st1\<lparr>ss_server := Some srv'\<rparr>)))"

definition examineStarted ::
  "('cert, 'key, 'pool) machine \<Rightarrow> connect_handler \<Rightarrow> handler \<Rightarrow> examine_flags \<Rightarrow> config \<Rightarrow> string list \<Rightarrow> 'pool run_session
   \<Rightarrow> (go_error + 'pool proxy_server \<times> string) \<times> 'pool run_session" where
  "examineStarted m examineConnect examineRequest f cfg cliCommand st =
     (case (if cliCommand \<noteq> [] then mc_tempLog m else Inr '''') of
        Inl err \<Rightarrow> (Inl (Wrapf ''failed to create temporary log file: %w'' [] (Wrapf ''failed to create temporary log file: %w'' [] err)), st)
      | Inr logPath \<Rightarrow> (case examineCA m (ss_fs st) of
          (Inl err, fs) \<Rightarrow> (Inl err, st\<lparr>ss_fs := fs\<rparr>)
        | (Inr (ca, caCertPath), fs) \<Rightarrow> (case generateProxySecret (mc_random m) of
            Inl err \<Rightarrow> (Inl (Wrapf ''failed to generate proxy secret: %w'' [] err), st\<lparr>ss_fs := fs\<rparr>)
          | Inr proxySecret \<Rightarrow>
              (case examineServer m examineConnect examineRequest (xf_enableHAR f) cfg proxySecret
                  (st\<lparr>ss_fs := fs, ss_hooks := ss_hooks st @ examineHooks m f\<rparr>) of
                 (Inl err, st') \<Rightarrow> (Inl err, st')
               | (Inr srv, st') \<Rightarrow> (Inr (srv, caCertPath), st')))))"

definition runExamine ::
  "('cert, 'key, 'pool) machine \<Rightarrow> connect_handler \<Rightarrow> handler \<Rightarrow> examine_flags \<Rightarrow> string \<Rightarrow> string list \<Rightarrow> 'pool run_session
   \<Rightarrow> examine_outcome \<times> 'pool run_session" where
  "runExamine m examineConnect examineRequest xf cfgFile cliCommand st =
     (let f = impliedFlags xf; cfg = examineConfig cfgFile (mc_home m) (ss_fs st) (mc_os m) (mc_toml m) in
      case examineStarted m examineConnect examineRequest f cfg cliCommand st of
        (Inl err, st1) \<Rightarrow> (ExamineFailed err, st1)
      | (Inr (srv, caCertPath), st1) \<Rightarrow>
          if cliCommand = [] then (ExamineWaiting, st1)
          else (case parseEnvVars (xf_envVars f) [] of
            Inl err \<Rightarrow> (ExamineFailed err, st1)
          | Inr userEnvVars \<Rightarrow>
              (case spawnChild (mc_environ m) (mc_reader m) (mc_start m)
                  \<lparr>pc_command = cliCommand, pc_proxyURL = proxyURL srv, pc_caCertPath = caCertPath, pc_caEnvVars = None,
                   pc_envFile = '''', pc_userEnvVars = userEnvVars\<rparr> of
                 Inl err \<Rightarrow> (ExamineFailed err, snd (shutdownSession m (5 * second) st1))
               | Inr ch \<Rightarrow> (case waitWithSentinel True (mc_sentinel m) ch of
                   None \<Rightarrow> (ExamineNeverEnds, st1)
                 | Some (_, code) \<Rightarrow> (ExamineExits code, snd (shutdownSession m (10 * second) st1))))))"

subsection \<open>chaperone check\<close>

definition checkPlaceholders :: "config option \<Rightarrow> bool \<times> string list" where
  "checkPlaceholders cfg = (case cfg of
     None \<Rightarrow> (False, [])
   | Some c \<Rightarrow> if cfg_services c = [] then (False, [])
       else let missing = map fst (filter (\<lambda>(name, svc). sc_placeholder svc = '''') (cfg_services c)) in (missing = [], missing))"

definition joinMax :: "string list \<Rightarrow> nat \<Rightarrow> string" where
  "joinMax items mx = (if length items \<le> mx then str_join '', '' items
     else str_join '', '' (take mx items) @ '' (+'' @ show_nat (length items - mx) @ '' more)'')"

definition iconOK :: string where
  "iconOK = [CHR 0xE2, CHR 0x9C, CHR 0x85]"

definition iconWarn :: string where
  "iconWarn = [CHR 0xE2, CHR 0x9A, CHR 0xA0, CHR 0xEF, CHR 0xB8, CHR 0x8F, CHR '' '']"

definition iconInfo :: string where
  "iconInfo = [CHR 0xE2, CHR 0x84, CHR 0xB9, CHR 0xEF, CHR 0xB8, CHR 0x8F, CHR '' '']"

definition isDedicatedUser :: "go_error + string \<Rightarrow> bool" where
  "isDedicatedUser user \<longleftrightarrow> (case user of Inl _ \<Rightarrow> False | Inr name \<Rightarrow> name = ''chaperone'')"

definition getCurrentUsername :: "go_error + string \<Rightarrow> string" where
  "getCurrentUsername user = (case user of Inl _ \<Rightarrow> ''unknown'' | Inr name \<Rightarrow> name)"

text \<open>The lines of the report, and its recommendations.\<close>

definition checkLayers :: "config option \<Rightarrow> go_error + string \<Rightarrow> string list" where
  "checkLayers cfg user = (let (allConfigured, missing) = checkPlaceholders cfg in
     [''Chaperone Security Check'', ''========================'', '''',
      ''Layer 1: Credential Isolation'',
      ''  '' @ iconOK @ '' Single-service mode: Each instance handles one credential'', '''',
      ''Layer 2: Process Authentication'',
      (if allConfigured then ''  '' @ iconOK @ '' Placeholder auth: All services have placeholders configured''
       else if missing \<noteq> [] then ''  '' @ iconInfo @ ''Placeholder auth: Not configured for: '' @ joinMax missing 3
       else ''  '' @ iconInfo @ ''Placeholder auth: No services configured''), '''',
      ''Layer 3: User/Permission Isolation'',
      (if isDedicatedUser user then ''  '' @ iconOK @ '' Dedicated user: Running as 'chaperone' user''
       else ''  '' @ iconWarn @ ''Running as '' @ [CHR 0x27] @ getCurrentUsername user @ [CHR 0x27] @ '' (consider dedicated 'chaperone' user)''),
      ''  '' @ iconOK @ '' Listening on 127.0.0.1 with OS-allocated port'', '''',
      ''Layer 4: Network Hardening'',
      ''  '' @ iconOK @ '' Upstream TLS: Certificate validation enabled'',
      ''  '' @ iconOK @ '' System proxy: Ignored for upstream connections'',
      ''  '' @ iconWarn @ ''CA bundle: Using system CAs (bundled CA not yet supported)'', '''',
      ''Layer 5: Runtime Protection'',
      (case cfg of
         Some c \<Rightarrow> if ac_enabled (cfg_audit c)
           then ''  '' @ iconOK @ '' Audit logging: Enabled ('' @
             (if ac_path (cfg_audit c) = '''' \<or> ac_path (cfg_audit c) = ''stdout'' then ''stdout'' else ac_path (cfg_audit c)) @ '')''
           else ''  '' @ iconInfo @ ''Audit logging: Not enabled''
       | None \<Rightarrow> ''  '' @ iconInfo @ ''Audit logging: Not enabled''), ''''])"

definition checkRecommendations :: "config option \<Rightarrow> go_error + string \<Rightarrow> string list" where
  "checkRecommendations cfg user = (let (allConfigured, missing) = checkPlaceholders cfg;
       audited = (case cfg of Some c \<Rightarrow> ac_enabled (cfg_audit c) | None \<Rightarrow> False) in
     (if \<not> allConfigured \<and> missing \<noteq> [] then [''Configure placeholder tokens for services without them''] else []) @
     (if isDedicatedUser user then [] else [''Run as dedicated 'chaperone' user for credential file isolation'']) @
     (if audited then [] else [''Enable audit logging in config: [audit] enabled = true'']))"

definition runCheck ::
  "string \<Rightarrow> go_error + string \<Rightarrow> fsys \<Rightarrow> os \<Rightarrow> (string \<Rightarrow> go_error + config) \<Rightarrow> go_error + string \<Rightarrow> string list" where
  "runCheck cfgFile home fs os toml user = (let
       cfg = (case getConfigPath cfgFile home fs of
         Inl _ \<Rightarrow> None
       | Inr configPath \<Rightarrow> (case loadConfig os toml configPath of Inl _ \<Rightarrow> None | Inr loaded \<Rightarrow> Some loaded));
       recommendations = checkRecommendations cfg user in
     checkLayers cfg user @
     (if recommendations \<noteq> []
      then ''Recommendations:'' # map (\<lambda>rec. ''  '' @ [CHR 0xE2, CHR 0x80, CHR 0xA2] @ '' '' @ rec) recommendations @ ['''']
      else []) @
     [''See SECURITY.md for the full security model.''])"

subsection \<open>goproxy's own log lines\<close>

definition textAfter :: "string \<Rightarrow> string \<Rightarrow> string" where
  "textAfter mark msg = (case str_index msg mark of Some i \<Rightarrow> drop (i + length mark) msg | None \<Rightarrow> msg)"

definition adapterPrintf :: "string \<Rightarrow> int \<times> string" where
  "adapterPrintf msg =
     (if str_contains msg ''WARN:'' then (4, ''goproxy: '' @ textAfter ''WARN: '' msg)
      else if str_contains msg ''ERROR:'' then (8, ''goproxy: '' @ textAfter ''ERROR: '' msg)
      else if str_contains msg ''INFO:'' then (0, ''goproxy: '' @ textAfter ''INFO: '' msg)
      else (- 4, ''goproxy: '' @ msg))"

subsection \<open>What a shutdown does\<close>

definition runHooks :: "('cert, 'key, 'pool) machine \<Rightarrow> hook list \<Rightarrow> 'pool run_session \<Rightarrow> 'pool run_session" where
  "runHooks m hs st = foldl (\<lambda>st h. snd (hookEffect m h st)) st hs"

lemma runHooks_Cons: "runHooks m (h # hs) st = runHooks m hs (snd (hookEffect m h st))"
  by (simp add: runHooks_def)

lemma runHooks_Nil: "runHooks m [] st = st"
  by (simp add: runHooks_def)

lemma registered_hooks:
  "sm_funcs (foldl (\<lambda>mgr h. registerShutdown (f h) mgr) mgr hs) = sm_funcs mgr @ map f hs \<and>
   sm_done (foldl (\<lambda>mgr h. registerShutdown (f h) mgr) mgr hs) = sm_done mgr"
  by (induction hs arbitrary: mgr) (auto simp: registerShutdown_def)

lemma runShutdownFns_hooks: "snd (runShutdownFns deadline (map (hookFn m) hs) now st) = runHooks m hs st"
proof (induction hs arbitrary: st)
  case Nil
  then show ?case by (simp add: runHooks_Nil)
next
  case (Cons h hs)
  obtain err st1 where h: "hookEffect m h st = (err, st1)" by fastforce
  then have "runShutdownFn deadline (hookFn m h) now st = (Some (now, case err of Some e \<Rightarrow> [e] | None \<Rightarrow> []), st1)"
    by (auto simp: runShutdownFn_def hookFn_def split: option.splits)
  then show ?case using Cons.IH [of st1] h by (auto simp: runHooks_Cons split: prod.splits option.splits)
qed

lemma shutdownSession_hooks: "snd (shutdownSession m timeout st) = runHooks m (rev (ss_hooks st)) st"
proof -
  note r = registered_hooks [of "hookFn m" newManager "ss_hooks st"]
  show ?thesis
    using runShutdownFns_hooks [of "effectiveTimeout timeout" m "rev (ss_hooks st)" 0 st] r
    by (auto simp: shutdownSession_def shutdown_def newManager_def rev_map Let_def split: prod.splits)
qed

text \<open>Functions that leave the files alone once the ephemeral authority is gone, and never start anything.\<close>

definition run_hook :: "hook \<Rightarrow> bool" where
  "run_hook h \<longleftrightarrow> h \<in> {CloseLogFile, CloseAudit, StopProxy, RemoveCADir}"

definition no_ca_files :: "('cert, 'key, 'pool) machine \<Rightarrow> 'pool run_session \<Rightarrow> bool" where
  "no_ca_files m st \<longleftrightarrow> (\<forall>p. has_prefix p (ephemeralCADir (mc_pid m) @ ''/'') \<longrightarrow> map_get (fs_files (ss_fs st)) p = None)"

definition not_serving :: "'pool run_session \<Rightarrow> bool" where
  "not_serving st \<longleftrightarrow> (\<forall>s. ss_server st = Some s \<longrightarrow> \<not> ps_serving s \<and> \<not> ps_started s)"

lemma map_get_filter_None: "\<not> P k \<Longrightarrow> map_get (filter (\<lambda>(p, _). P p) m) k = None"
  by (induction m) auto

lemma removeAll_files:
  "fs_fails fs ''remove'' dir = None \<Longrightarrow> os_removeAll dir fs = (None, fs\<lparr>fs_files := filter (\<lambda>(p, _). p \<noteq> dir \<and> \<not> has_prefix p (dir @ ''/'')) (fs_files fs)\<rparr>)"
  by (simp add: os_removeAll_def)

lemma run_hook_effect:
  assumes "run_hook h"
  shows "fs_fails (ss_fs (snd (hookEffect m h st))) = fs_fails (ss_fs st)"
    and "no_ca_files m st \<Longrightarrow> no_ca_files m (snd (hookEffect m h st))"
    and "h = RemoveCADir \<Longrightarrow> fs_fails (ss_fs st) ''remove'' (ephemeralCADir (mc_pid m)) = None \<Longrightarrow> no_ca_files m (snd (hookEffect m h st))"
    and "not_serving st \<Longrightarrow> not_serving (snd (hookEffect m h st))"
    and "h = StopProxy \<Longrightarrow> (\<And>s. ss_server st = Some s \<Longrightarrow> ps_serving s \<longrightarrow> ps_started s) \<Longrightarrow> not_serving (snd (hookEffect m h st))"
    and "\<And>s'. (\<And>s. ss_server st = Some s \<Longrightarrow> ps_serving s \<longrightarrow> ps_started s) \<Longrightarrow> ss_server (snd (hookEffect m h st)) = Some s' \<Longrightarrow>
      ps_serving s' \<longrightarrow> ps_started s'"
  using assms
  by (auto simp: run_hook_def hookEffect_def os_removeAll_def no_ca_files_def not_serving_def stopServer_def map_get_filter_None
      split: option.splits prod.splits if_splits)

lemma runHooks_files:
  "\<forall>h \<in> set hs. run_hook h \<Longrightarrow> fs_fails (ss_fs st) ''remove'' (ephemeralCADir (mc_pid m)) = None \<Longrightarrow>
   RemoveCADir \<in> set hs \<or> no_ca_files m st \<Longrightarrow> no_ca_files m (runHooks m hs st)"
proof (induction hs arbitrary: st)
  case (Cons h hs)
  have h: "run_hook h" using Cons.prems(1) by simp
  note e = run_hook_effect [OF h, where m = m and st = st]
  have "RemoveCADir \<in> set hs \<or> no_ca_files m (snd (hookEffect m h st))"
    using e(2,3) Cons.prems(2,3) by (cases "h = RemoveCADir") auto
  then show ?case using Cons.IH [of "snd (hookEffect m h st)"] Cons.prems(1,2) e(1) by (simp add: runHooks_Cons)
qed (simp add: runHooks_Nil)

definition orderly :: "'pool run_session \<Rightarrow> bool" where
  "orderly st \<longleftrightarrow> (\<forall>s. ss_server st = Some s \<longrightarrow> ps_serving s \<longrightarrow> ps_started s)"

lemma runHooks_server:
  "\<forall>h \<in> set hs. run_hook h \<Longrightarrow> orderly st \<Longrightarrow> StopProxy \<in> set hs \<or> not_serving st \<Longrightarrow> not_serving (runHooks m hs st)"
proof (induction hs arbitrary: st)
  case (Cons h hs)
  have h: "run_hook h" using Cons.prems(1) by simp
  note e = run_hook_effect [OF h, where m = m and st = st]
  have "orderly (snd (hookEffect m h st))" using e(6) Cons.prems(2) unfolding orderly_def by blast
  moreover have "StopProxy \<in> set hs \<or> not_serving (snd (hookEffect m h st))"
    using e(4,5) Cons.prems(2,3) unfolding orderly_def by (cases "h = StopProxy") auto
  ultimately show ?case using Cons.IH [of "snd (hookEffect m h st)"] Cons.prems(1) by (simp add: runHooks_Cons)
qed (simp add: runHooks_Nil)

subsection \<open>What a started proxy is\<close>

lemma startProxy_ok:
  assumes "startProxy m cfg res audit st = (Inr srv, st')"
  shows "ss_server st' = Some srv" "ps_started srv" "ps_serving srv" "ss_fs st' = ss_fs st" "ss_sock st' = ss_sock st"
    and "\<exists>own. ss_hooks st' = ss_hooks st @ own @ [StopProxy] \<and> set own \<subseteq> {CloseAudit} \<and> (audit \<noteq> None \<longrightarrow> own = [])"
    and "\<exists>addr. mc_listen m ''127.0.0.1:0'' = Inr addr \<and> ps_listener srv = Some addr \<or>
      (srv_address (cfg_server cfg), srv_port (cfg_server cfg)) \<noteq> (''127.0.0.1'', 0)"
proof -
  obtain secret where sec: "generateProxySecret (mc_random m) = Inr secret"
    using assms by (auto simp: startProxy_def split: sum.splits)
  obtain srv0 mgr where cp: "createProxy (mc_goproxy m) (mc_env m) (mc_openAudit m) (mc_stdout m) (mc_base m) cfg res secret audit
      (Some (ss_hooks st)) = Inr (srv0, mgr)"
    using assms sec by (auto simp: startProxy_def split: sum.splits)
  have start: "startServer (mc_listen m) srv0 = (None, srv)" and st': "st' = st\<lparr>ss_hooks := (case mgr of None \<Rightarrow> [] | Some hs \<Rightarrow> hs), ss_server := Some srv\<rparr>"
    using assms sec cp by (auto simp: startProxy_def Let_def split: prod.splits option.splits)
  have fresh: "\<not> ps_started srv0" "\<not> ps_httpClosed srv0" "ps_address srv0 = srv_address (cfg_server cfg)"
      "ps_port srv0 = srv_port (cfg_server cfg)"
      "\<exists>own. mgr = Some (ss_hooks st @ own @ [StopProxy]) \<and> set own \<subseteq> {CloseAudit} \<and> (audit \<noteq> None \<longrightarrow> own = [])"
    using cp by (auto simp: createProxy_def newWithMITM_def newTransparent_def auditSink_def registerHook_def Let_def
        split: if_splits option.splits)
  obtain addr where "mc_listen m (ps_address srv0 @ '':'' @ show_int (ps_port srv0)) = Inr addr"
      "srv = srv0\<lparr>ps_listener := Some addr, ps_started := True, ps_serving := True\<rparr>"
    using start fresh(1,2) by (auto simp: startServer_def split: sum.splits if_splits)
  moreover have "''127.0.0.1'' @ '':'' @ show_int 0 = ''127.0.0.1:0''" by code_simp
  ultimately show "\<exists>addr. mc_listen m ''127.0.0.1:0'' = Inr addr \<and> ps_listener srv = Some addr \<or>
      (srv_address (cfg_server cfg), srv_port (cfg_server cfg)) \<noteq> (''127.0.0.1'', 0)"
    and "ss_server st' = Some srv" "ps_started srv" "ps_serving srv" "ss_fs st' = ss_fs st" "ss_sock st' = ss_sock st"
    using st' fresh(3,4) by auto
  show "\<exists>own. ss_hooks st' = ss_hooks st @ own @ [StopProxy] \<and> set own \<subseteq> {CloseAudit} \<and> (audit \<noteq> None \<longrightarrow> own = [])"
    using st' fresh(5) by auto
qed

lemma runStarted_ok:
  assumes "runStarted m name cfg st = (Inr (srv, cert), st')" "ss_hooks st = []"
  shows "ss_server st' = Some srv" "ps_started srv" "\<forall>h \<in> set (ss_hooks st'). run_hook h"
    "RemoveCADir \<in> set (ss_hooks st')" "StopProxy \<in> set (ss_hooks st')"
    "\<exists>ca key fs hooks. initializeEphemeralCA (mc_pki m) (mc_caRandom m) (mc_pid m) [CloseLogFile] (ss_fs st) = (Inr (ca, key, cert), hooks, fs) \<and>
       ss_fs st' = fs"
proof -
  obtain logPath where log: "mc_tempLog m = Inr logPath" using assms(1) by (auto simp: runStarted_def split: sum.splits)
  obtain ca key cert' hooks fs where ca: "initializeEphemeralCA (mc_pki m) (mc_caRandom m) (mc_pid m) [CloseLogFile] (ss_fs st) =
      (Inr (ca, key, cert'), hooks, fs)"
    using assms log by (auto simp: runStarted_def split: sum.splits prod.splits)
  let ?st = "st\<lparr>ss_hooks := hooks, ss_fs := fs\<rparr>"
  obtain res :: "('a, nat) setup_result" where res: "startProxy m cfg res None ?st = (Inr srv, st')" "cert' = cert"
    using assms log ca by (auto simp: runStarted_def Let_def split: sum.splits prod.splits)
  note p = startProxy_ok [OF res(1)]
  have hooks: "hooks = [CloseLogFile, RemoveCADir]"
    using ca by (auto simp: initializeEphemeralCA_def Let_def split: option.splits prod.splits sum.splits)
  show "ss_server st' = Some srv" "ps_started srv" using p by simp_all
  show "\<forall>h \<in> set (ss_hooks st'). run_hook h" "RemoveCADir \<in> set (ss_hooks st')" "StopProxy \<in> set (ss_hooks st')"
    using p(6) hooks by (auto simp: run_hook_def)
  show "\<exists>ca key fs hooks. initializeEphemeralCA (mc_pki m) (mc_caRandom m) (mc_pid m) [CloseLogFile] (ss_fs st) = (Inr (ca, key, cert), hooks, fs) \<and>
       ss_fs st' = fs"
    using ca res(2) p(4) by auto
qed

lemma loadOrGenerateCA_fails:
  "loadOrGenerateCA pk rnd keyPath certPath fs = (r, fs') \<Longrightarrow> fs_fails fs' = fs_fails fs"
  by (auto simp: loadOrGenerateCA_def storeCA_def os_writeFile_def split: sum.splits option.splits prod.splits)

lemma initializeEphemeralCA_fails:
  "initializeEphemeralCA pk rnd pid hooks fs = (r, hooks', fs') \<Longrightarrow> fs_fails fs' = fs_fails fs"
  by (auto simp: initializeEphemeralCA_def Let_def split: option.splits prod.splits sum.splits dest!: loadOrGenerateCA_fails)

subsection \<open>Properties\<close>


text \<open>A run that fails before its child is started does not. An error of the setup, say a secret that
  cannot be read, returns without a shutdown: the fresh private key stays in \<open>/tmp\<close> although the
  cleanup has been registered.\<close>

theorem failed_run_leaves_its_ca_key:
  assumes "runConfigured m cfgFile args (ss_fs st) = Inr (name, svc, cfg)" "mc_tempLog m = Inr logPath"
    and "initializeEphemeralCA (mc_pki m) (mc_caRandom m) (mc_pid m) (ss_hooks st @ [CloseLogFile]) (ss_fs st) =
      (Inr (ca, key, cert), hooks, fs)"
    and "\<not> os_exists key (ss_fs st)" "key \<noteq> cert"
    and "(setupDaemon (mc_os m) None (mc_trust m) (pk_raw (mc_pki m) (ca_cert ca)) \<lparr>su_config = cfg, su_serviceNames = [name]\<rparr>
      :: go_error + ('pool, nat) setup_result) = Inl err"
  shows "\<exists>st' mode. runWithProxy (m :: ('cert, 'key, 'pool) machine) cfgFile args st = (RunFailed err, st') \<and> RemoveCADir \<in> set (ss_hooks st') \<and>
    map_get (fs_files (ss_fs st')) key =
      Some (pk_pemEncode (mc_pki m) ''RSA PRIVATE KEY'' (pk_marshalKey (mc_pki m) (ca_privateKey ca)), mode)"
proof -
  have paths: "key = filepath_join [ephemeralCADir (mc_pid m), ''ca-key.pem'']"
      "cert = filepath_join [ephemeralCADir (mc_pid m), ''ca-cert.pem'']" "RemoveCADir \<in> set hooks"
    and load: "loadOrGenerateCA (mc_pki m) (mc_caRandom m) key cert (ss_fs st) = (Inr ca, fs)"
    using assms(3) by (auto simp: initializeEphemeralCA_def Let_def split: option.splits prod.splits sum.splits)
  have "storeCA (mc_pki m) ca key cert (ss_fs st) = (None, fs)"
    using loadOrGenerateCA_cases [OF load] assms(4) by (auto simp: os_exists_def)
  note key = storeCA_files(1) [OF this assms(5)]
  have "runStarted m name cfg st = (Inl err, st\<lparr>ss_hooks := hooks, ss_fs := fs\<rparr>)"
    using assms(2,3,6) by (simp add: runStarted_def Let_def)
  then show ?thesis using assms(1) key paths(3) by (simp add: runWithProxy_def)
qed

text \<open>The ephemeral authority need not be fresh. Its directory has a predictable name under \<open>/tmp\<close>;
  when a matching key and certificate already lie there, planted by another user or left by a failed
  run, they become the authority the child is made to trust.\<close>

theorem planted_authority_is_adopted:
  assumes "os_mkdirAll (ephemeralCADir pid) fs = None"
    and "key = filepath_join [ephemeralCADir pid, ''ca-key.pem'']" "cert = filepath_join [ephemeralCADir pid, ''ca-cert.pem'']"
    and "os_exists key fs" "os_exists cert fs" "loadCA pk fs key cert = Inr planted"
  shows "initializeEphemeralCA pk rnd pid hooks fs = (Inr (planted, key, cert), hooks @ [RemoveCADir], fs)"
  using assms by (auto simp: initializeEphemeralCA_def loadOrGenerateCA_def os_exists_def Let_def split: sum.splits)

text \<open>The documented command line does not work. Cobra removes the first \<open>--\<close> from the arguments it
  passes on; \<open>run\<close> looks for it there, so \<open>chaperone run NAME -- CMD\<close> is rejected as a syntax error
  and changes nothing, and only a doubled separator reaches the override.\<close>

theorem documented_command_line_is_rejected:
  assumes "\<And>pre post. ''--'' \<notin> set pre \<Longrightarrow> cobra (pre @ ''--'' # post) = pre @ post"
    and "name \<noteq> ''--''" "cmd \<noteq> ''--''"
  shows "(\<exists>err. runWithProxy m cfgFile (cobra (name # ''--'' # cmd # args)) st = (RunFailed err, st)) \<and>
    runArguments (cobra (name # ''--'' # ''--'' # cmd # args)) = Inr (name, cmd # args)"
proof -
  have "cobra (name # ''--'' # rest) = name # rest" for rest using assms(1) [of "[name]" rest] assms(2) by simp
  then show ?thesis using assms(3) by (simp add: runWithProxy_def runConfigured_def runArguments_def)
qed

text \<open>Configuration comes only from where the operator put it: the path given with \<open>-c\<close>, or the one
  file under the home directory. With an absolute home directory that path is absolute, so no file
  of the current directory is ever picked up by itself; when neither exists there is an error.\<close>

theorem config_only_from_trusted_places:
  shows "(case getConfigPath cfgFile home fs of
      Inr path \<Rightarrow> cfgFile \<noteq> '''' \<and> path = cfgFile \<or>
        cfgFile = '''' \<and> (\<exists>h. home = Inr h \<and> path = filepath_join [h, ''.config'', ''chaperone'', ''chaperone.toml''] \<and>
          os_exists path fs \<and> (has_prefix h ''/'' \<longrightarrow> rooted_clean path))
    | Inl _ \<Rightarrow> cfgFile = '''' \<and> (\<forall>h. home = Inr h \<longrightarrow>
        \<not> os_exists (filepath_join [h, ''.config'', ''chaperone'', ''chaperone.toml'']) fs))"
proof -
  have "rooted_clean (filepath_join [h, ''.config'', ''chaperone'', ''chaperone.toml''])" if absolute: "has_prefix h ''/''" for h
  proof -
    obtain t where "h = CHR ''/'' # t" using absolute by (auto simp: has_prefix_iff)
    then show ?thesis by (simp add: filepath_join_def path_clean_rooted has_prefix_def)
  qed
  then show ?thesis by (auto simp: getConfigPath_def Let_def split: sum.splits if_splits)
qed


subsection \<open>A machine\<close>

definition demo_cmd_os :: os where
  "demo_cmd_os = demo_os\<lparr>os_open := (\<lambda>_. Inr (demo_handle 0x180))\<rparr>"

definition demo_child :: child where
  "demo_child = \<lparr>ch_exit = Some (7, ExitedWith 3), ch_signalErr = False, ch_afterInterrupt = (\<lambda>_. None), ch_afterKill = (\<lambda>_. None)\<rparr>"

definition demo_machine :: "(nat, nat, unit) machine" where
  "demo_machine = \<lparr>mc_home = Inr ''/home/u'', mc_os = demo_cmd_os, mc_toml = (\<lambda>_. Inr demo_config), mc_trust = (\<lambda>_. Inr None),
     mc_pki = demo_pki, mc_caRandom = 2, mc_random = Inr ''abc'', mc_goproxy = demo_goproxy, mc_env = demo_env,
     mc_openAudit = (\<lambda>_. Inr (\<lambda>_. None)), mc_stdout = (\<lambda>_. None), mc_base = insecure_goproxy,
     mc_listen = (\<lambda>_. Inr ''127.0.0.1:4711''), mc_sys = demo_sys, mc_id = 1, mc_pid = 9, mc_tempLog = Inr ''/tmp/l'',
     mc_environ = [], mc_reader = (\<lambda>_. Inl (Sentinel ErrNotExist)), mc_start = (\<lambda>_ _. Inr demo_child), mc_har = Inr '''',
     mc_indent = Inr, mc_timestamp = ''now'', mc_sentinel = None\<rparr>"

definition demo_cmd_session :: "unit run_session" where
  "demo_cmd_session = \<lparr>ss_fs = demo_fs, ss_sock = \<lparr>sw_entry = None, sw_mode = 0, sw_open = {}\<rparr>, ss_hooks = [], ss_server = None\<rparr>"

definition demo_run_result :: "(unit, nat) setup_result" where
  "demo_run_result = demo_result\<lparr>sur_certCache := newCertCache ''cc''\<rparr>"

lemma demo_defaults: "setDefaults demo_config = demo_config"
  by (simp add: demo_config_def setDefaults_def loggingDefaults_def demo_service_config_def)

lemma demo_valid: "configValidate (\<lambda>_. Inr (None :: unit option)) demo_config = Checked None"
  by code_simp

lemma demo_loaded: "loadConfig demo_cmd_os (\<lambda>_. Inr demo_config) ''c'' = Inr demo_config"
proof -
  have "case readFile (\<lambda>_. Inr (demo_handle 0x180)) 501 configTrust ''c'' of Inl _ \<Rightarrow> False | Inr _ \<Rightarrow> True" by code_simp
  then show ?thesis by (auto simp: loadConfig_def demo_cmd_os_def demo_os_def split: sum.splits)
qed

lemma demo_cmd_setup:
  assumes "names = [] \<or> names = [''demo'']"
  shows "setupDaemon demo_cmd_os None (\<lambda>_. Inr None) ''cc'' \<lparr>su_config = demo_config, su_serviceNames = names\<rparr> = Inr demo_run_result"
proof -
  let ?ld = "\<lparr>ld_registry = [(''api.example.com'', configService ''demo'' demo_service_config)], ld_count = 1,
      ld_headers = [], ld_credentials = [''env:KEY'']\<rparr>"
  have "loadServices [] (cfg_services demo_config) startLoading = Inr ?ld"
    "loadServices [''demo''] (cfg_services demo_config) startLoading = Inr ?ld" by code_simp+
  then have "loadServices names (cfg_services demo_config) startLoading = Inr ?ld" using assms by blast
  moreover have "newEnforcer (cfg_grantable demo_config) = Inr demo_enforcer"
    using demo_enforcer_eq by (simp add: demo_config_def setDefaults_def)
  moreover have "preloadSecrets demo_cmd_os None [''env:KEY''] (registerBuiltins newSecretRegistry) = (None, sur_secrets demo_result)"
    by code_simp
  moreover have "registerStrategies (grantableHeaders (cfg_grantable demo_config) []) = sur_auths demo_result" by code_simp
  moreover have "validateConfiguration (ld_registry ?ld) (sur_auths demo_result) (sur_secrets demo_result) = None" by code_simp
  moreover have "upstreamCAPool (\<lambda>_. Inr None) demo_config = Inr (None :: unit option)"
    by (simp add: upstreamCAPool_def demo_config_def setDefaults_def)
  ultimately show ?thesis by (simp add: setupDaemon_def demo_result_def demo_run_result_def Let_def)
qed

lemma demo_secret: "\<exists>s. generateProxySecret (Inr ''abc'') = Inr s \<and> s \<noteq> ''''"
proof -
  have "urlsafe (b64_encode ''abc'') \<noteq> ''''" by (simp add: urlsafe_def Let_def b64_char_facts)
  then show ?thesis unfolding generateProxySecret_def by (simp del: b64_encode.simps)
qed

lemma demo_started:
  "\<exists>srv st'. startProxy demo_machine demo_config demo_run_result audit st = (Inr srv, st')"
proof -
  obtain s where "generateProxySecret (Inr ''abc'') = Inr s" "s \<noteq> ''''" using demo_secret by blast
  moreover have "reg_listAll (sur_registry demo_run_result) \<noteq> []" by (simp add: demo_run_result_def demo_result_def reg_listAll_def)
  ultimately show ?thesis
    by (auto simp: startProxy_def demo_machine_def createProxy_def newWithMITM_def startServer_def Let_def split: prod.splits)
qed

lemma demo_ephemeral:
  "\<exists>hooks fs. initializeEphemeralCA demo_pki 2 9 [CloseLogFile] demo_fs =
     (Inr (\<lparr>ca_cert = 2, ca_privateKey = 2\<rparr>, filepath_join [ephemeralCADir 9, ''ca-key.pem''],
        filepath_join [ephemeralCADir 9, ''ca-cert.pem'']), hooks, fs)"
  by (simp add: initializeEphemeralCA_def os_mkdirAll_def demo_fs_def loadOrGenerateCA_def os_stat_def generateCA_def
      demo_pki_def storeCA_def os_writeFile_def Let_def)

lemma demo_run_started:
  "\<exists>srv cert st'. runStarted demo_machine ''demo'' demo_config demo_cmd_session = (Inr (srv, cert), st')"
proof -
  obtain ca key cert hooks fs where ca: "initializeEphemeralCA demo_pki 2 9 [CloseLogFile] demo_fs = (Inr (ca, key, cert), hooks, fs)"
      "ca_cert ca = 2"
    using demo_ephemeral by fastforce
  have raw: "pk_raw demo_pki (2 :: nat) = ''cc''" by (simp add: demo_pki_def numeral_2_eq_2)
  obtain srv st' where "startProxy demo_machine demo_config demo_run_result None (demo_cmd_session\<lparr>ss_hooks := hooks, ss_fs := fs\<rparr>) =
      (Inr srv, st')"
    using demo_started by blast
  moreover have "mc_tempLog demo_machine = Inr ''/tmp/l''" "mc_pki demo_machine = demo_pki" "mc_caRandom demo_machine = 2"
      "mc_pid demo_machine = 9" "mc_os demo_machine = demo_cmd_os" "mc_trust demo_machine = (\<lambda>_. Inr None)"
      "ss_hooks demo_cmd_session = []" "ss_fs demo_cmd_session = demo_fs"
    by (simp_all add: demo_machine_def demo_cmd_session_def)
  ultimately show ?thesis using ca raw demo_cmd_setup by (simp add: runStarted_def Let_def)
qed

lemma demo_inject_config:
  "runConfigured demo_machine ''c'' [''demo'', ''--'', ''tool''] fs =
     Inr (''demo'', demo_service_config\<lparr>sc_run := Some (blankRunConfig\<lparr>rc_command := ''tool''\<rparr>)\<rparr>, demo_config)"
proof -
  have "prepareRunConfig (os_env demo_cmd_os) demo_config ''demo'' [''tool''] =
      (Inr (demo_service_config\<lparr>sc_run := Some (blankRunConfig\<lparr>rc_command := ''tool''\<rparr>)\<rparr>), demo_config)"
    by code_simp
  then show ?thesis
    by (simp add: runConfigured_def runArguments_def getConfigPath_def demo_machine_def demo_loaded demo_defaults demo_valid)
qed


definition demo_blind_machine :: "(nat, nat, unit) machine" where
  "demo_blind_machine = demo_machine\<lparr>mc_os := demo_cmd_os\<lparr>os_env := (\<lambda>_. None)\<rparr>\<rparr>"

lemma demo_blind_setup:
  "\<exists>err. (setupDaemon (demo_cmd_os\<lparr>os_env := (\<lambda>_. None)\<rparr>) None (\<lambda>_. Inr None) ''cc'' \<lparr>su_config = demo_config, su_serviceNames = [''demo'']\<rparr>
     :: go_error + (unit, nat) setup_result) = Inl err"
proof -
  let ?os = "demo_cmd_os\<lparr>os_env := (\<lambda>_. None)\<rparr>"
  have "loadServices [''demo''] (cfg_services demo_config) startLoading =
      Inr \<lparr>ld_registry = [(''api.example.com'', configService ''demo'' demo_service_config)], ld_count = 1,
      ld_headers = [], ld_credentials = [''env:KEY'']\<rparr>" by code_simp
  moreover have "newEnforcer (cfg_grantable demo_config) = Inr demo_enforcer"
    using demo_enforcer_eq by (simp add: demo_config_def setDefaults_def)
  moreover have "fst (preloadSecrets ?os None [''env:KEY''] (registerBuiltins newSecretRegistry)) \<noteq> None" by code_simp
  ultimately show ?thesis by (auto simp: setupDaemon_def Let_def split: prod.splits)
qed

theorem failed_run_leaves_its_ca_key_witness:
  "\<exists>err st' mode. runWithProxy demo_blind_machine ''c'' [''demo'', ''--'', ''tool''] demo_cmd_session = (RunFailed err, st') \<and>
     map_get (fs_files (ss_fs st')) (filepath_join [ephemeralCADir 9, ''ca-key.pem'']) = Some (''-kk'', mode)"
proof -
  let ?m = demo_blind_machine
  let ?key = "filepath_join [ephemeralCADir 9, ''ca-key.pem'']" and ?cert = "filepath_join [ephemeralCADir 9, ''ca-cert.pem'']"
  let ?svc = "demo_service_config\<lparr>sc_run := Some (blankRunConfig\<lparr>rc_command := ''tool''\<rparr>)\<rparr>"
  have m: "mc_tempLog ?m = Inr ''/tmp/l''" "mc_pki ?m = demo_pki" "mc_caRandom ?m = 2" "mc_pid ?m = 9"
      "mc_os ?m = demo_cmd_os\<lparr>os_env := (\<lambda>_. None)\<rparr>" "mc_trust ?m = (\<lambda>_. Inr None)"
      "ss_hooks demo_cmd_session = []" "ss_fs demo_cmd_session = demo_fs"
    by (simp_all add: demo_blind_machine_def demo_machine_def demo_cmd_session_def)
  have "prepareRunConfig (\<lambda>_. None) demo_config ''demo'' [''tool''] = (Inr ?svc, demo_config)" by code_simp
  moreover have "loadConfig (demo_cmd_os\<lparr>os_env := (\<lambda>_. None)\<rparr>) (\<lambda>_. Inr demo_config) ''c'' = Inr demo_config"
    using demo_loaded by (simp add: loadConfig_def)
  ultimately have conf: "runConfigured ?m ''c'' [''demo'', ''--'', ''tool''] (ss_fs demo_cmd_session) = Inr (''demo'', ?svc, demo_config)"
    by (simp add: runConfigured_def runArguments_def getConfigPath_def demo_blind_machine_def demo_machine_def demo_defaults demo_valid)
  obtain ca hooks fs where ca: "initializeEphemeralCA (mc_pki ?m) (mc_caRandom ?m) (mc_pid ?m) (ss_hooks demo_cmd_session @ [CloseLogFile])
      (ss_fs demo_cmd_session) = (Inr (ca, ?key, ?cert), hooks, fs)" "ca_cert ca = 2" "ca_privateKey ca = 2"
    using demo_ephemeral unfolding m append_Nil by fastforce
  have raw: "pk_raw demo_pki (ca_cert ca) = ''cc''" using ca(2) by (simp add: demo_pki_def numeral_2_eq_2)
  obtain err where "(setupDaemon (mc_os ?m) None (mc_trust ?m) (pk_raw (mc_pki ?m) (ca_cert ca))
      \<lparr>su_config = demo_config, su_serviceNames = [''demo'']\<rparr> :: go_error + (unit, nat) setup_result) = Inl err"
    unfolding m raw using demo_blind_setup by blast
  moreover have "\<not> os_exists ?key (ss_fs demo_cmd_session)" by (simp add: m os_exists_def os_stat_def demo_fs_def)
  moreover have "?key \<noteq> ?cert" by code_simp
  ultimately obtain st' mode where "runWithProxy ?m ''c'' [''demo'', ''--'', ''tool''] demo_cmd_session = (RunFailed err, st')"
      "map_get (fs_files (ss_fs st')) ?key = Some (pk_pemEncode (mc_pki ?m) ''RSA PRIVATE KEY'' (pk_marshalKey (mc_pki ?m) (ca_privateKey ca)), mode)"
    using failed_run_leaves_its_ca_key [OF conf m(1) ca(1)] by blast
  then show ?thesis using ca(3) by (auto simp: m demo_pki_def numeral_2_eq_2)
qed

theorem planted_authority_is_adopted_witness:
  "initializeEphemeralCA demo_pki 2 9 [] (demo_fs\<lparr>fs_files := [(filepath_join [ephemeralCADir 9, ''ca-key.pem''], (''-kkkkk'', 0x1A4)),
     (filepath_join [ephemeralCADir 9, ''ca-cert.pem''], (''-ccccc'', 0x1A4))]\<rparr>) =
   (Inr (\<lparr>ca_cert = 5, ca_privateKey = 5\<rparr>, filepath_join [ephemeralCADir 9, ''ca-key.pem''],
      filepath_join [ephemeralCADir 9, ''ca-cert.pem'']), [RemoveCADir],
    demo_fs\<lparr>fs_files := [(filepath_join [ephemeralCADir 9, ''ca-key.pem''], (''-kkkkk'', 0x1A4)),
     (filepath_join [ephemeralCADir 9, ''ca-cert.pem''], (''-ccccc'', 0x1A4))]\<rparr>)"
proof -
  let ?key = "filepath_join [ephemeralCADir 9, ''ca-key.pem'']" and ?cert = "filepath_join [ephemeralCADir 9, ''ca-cert.pem'']"
  let ?fs = "demo_fs\<lparr>fs_files := [(?key, (''-kkkkk'', 0x1A4)), (?cert, (''-ccccc'', 0x1A4))]\<rparr>"
  have ne: "?key \<noteq> ?cert" "?cert \<noteq> ?key" by code_simp+
  have "os_exists ?key ?fs" "os_exists ?cert ?fs" using ne by (simp_all add: os_exists_def os_stat_def demo_fs_def)
  moreover have "os_readFile ?key ?fs = Inr ''-kkkkk''" "os_readFile ?cert ?fs = Inr ''-ccccc''"
    using ne by (simp_all add: os_readFile_def demo_fs_def)
  then have "loadCA demo_pki ?fs ?key ?cert = Inr \<lparr>ca_cert = 5, ca_privateKey = 5\<rparr>"
    by (simp add: loadCA_def loadCAKey_def demo_pki_def)
  ultimately show ?thesis
    using planted_authority_is_adopted [of 9 ?fs ?key ?cert demo_pki "\<lparr>ca_cert = 5, ca_privateKey = 5\<rparr>" 2 "[]"]
    by (simp add: os_mkdirAll_def demo_fs_def)
qed

text \<open>What pflag does with the arguments: the first terminator goes, the rest stays.\<close>

definition demo_cobra :: "string list \<Rightarrow> string list" where
  "demo_cobra args = takeWhile (\<lambda>a. a \<noteq> ''--'') args @ tl (dropWhile (\<lambda>a. a \<noteq> ''--'') args)"

lemma demo_cobra_ok: "''--'' \<notin> set pre \<Longrightarrow> demo_cobra (pre @ ''--'' # post) = pre @ post"
  by (induction pre) (auto simp: demo_cobra_def)

theorem documented_command_line_is_rejected_witness:
  "\<exists>err. runWithProxy demo_machine ''c'' (demo_cobra [''zai'', ''--'', ''claude'']) demo_cmd_session = (RunFailed err, demo_cmd_session)"
  using documented_command_line_is_rejected [OF demo_cobra_ok, of "''zai''" "''claude''" demo_machine "''c''" "[]" demo_cmd_session] by auto


end
