(* ===== verification/Log_Context.thy ===== *)
theory Log_Context
  imports Color_Handler Proxy_Handlers
begin

text \<open>
  \<open>internal/log/logger.go\<close>: the context values that tag what is logged for a request, the identifiers
  of requests, and the global logger with its level. A context is the stack of the values put into
  it; the random bytes (or the failure to get them) and the text of the clock are arguments.
\<close>

subsection \<open>Contexts\<close>

datatype ctx_key = RequestIDKey | ColorRKey | ColorGKey | ColorBKey

datatype ctx_val = CtxStr string | CtxInt int

type_synonym log_ctx = "(ctx_key \<times> ctx_val) list"

definition withValue :: "ctx_key \<Rightarrow> ctx_val \<Rightarrow> log_ctx \<Rightarrow> log_ctx" where
  "withValue k v ctx = (k, v) # ctx"

definition ctxValue :: "log_ctx \<Rightarrow> ctx_key \<Rightarrow> ctx_val option" where
  "ctxValue ctx k = map_of ctx k"

definition encodeHex :: "string \<Rightarrow> string" where
  "encodeHex bytes = concat (map (\<lambda>c. [hex_char (of_char c div 16), hex_char (of_char c mod 16)]) bytes)"

definition generateRequestID :: "go_error + string \<Rightarrow> string \<Rightarrow> string" where
  "generateRequestID randRead now = (case randRead of
     Inl _ \<Rightarrow> ''req-'' @ encodeHex now
   | Inr bytes \<Rightarrow> ''req-'' @ encodeHex bytes)"

definition withRequestID :: "go_error + string \<Rightarrow> string \<Rightarrow> log_ctx \<Rightarrow> log_ctx" where
  "withRequestID randRead now ctx = withValue RequestIDKey (CtxStr (generateRequestID randRead now)) ctx"

definition withRequestIDValue :: "string \<Rightarrow> log_ctx \<Rightarrow> log_ctx" where
  "withRequestIDValue i ctx = withValue RequestIDKey (CtxStr i) ctx"

definition withCorrelationColor :: "color \<Rightarrow> log_ctx \<Rightarrow> log_ctx" where
  "withCorrelationColor c ctx = (case c of (r, g, b) \<Rightarrow>
     withValue ColorBKey (CtxInt b) (withValue ColorGKey (CtxInt g) (withValue ColorRKey (CtxInt r) ctx)))"

definition intValue :: "log_ctx \<Rightarrow> ctx_key \<Rightarrow> int" where
  "intValue ctx k = (case ctxValue ctx k of Some (CtxInt v) \<Rightarrow> v | _ \<Rightarrow> 0)"

definition correlationColor :: "log_ctx \<Rightarrow> color" where
  "correlationColor ctx = (intValue ctx ColorRKey, intValue ctx ColorGKey, intValue ctx ColorBKey)"

definition requestID :: "log_ctx \<Rightarrow> string" where
  "requestID ctx = (case ctxValue ctx RequestIDKey of Some (CtxStr i) \<Rightarrow> i | _ \<Rightarrow> '''')"

lemmas context_defs = withRequestID_def withRequestIDValue_def withCorrelationColor_def withValue_def ctxValue_def
  requestID_def correlationColor_def intValue_def

lemma requestID_simps [simp]:
  "requestID (withRequestIDValue i ctx) = i"
  "requestID (withRequestID rnd now ctx) = generateRequestID rnd now"
  "requestID (withCorrelationColor c ctx) = requestID ctx"
  by (simp_all add: context_defs split: prod.splits)

lemma correlationColor_simps [simp]:
  "correlationColor (withCorrelationColor c ctx) = c"
  "correlationColor (withRequestIDValue i ctx) = correlationColor ctx"
  "correlationColor (withRequestID rnd now ctx) = correlationColor ctx"
  by (simp_all add: context_defs split: prod.splits)

text \<open>Nothing is set in an empty context.\<close>

lemma empty_context [simp]: "requestID [] = ''''" "correlationColor [] = (0, 0, 0)"
  by (simp_all add: context_defs)

subsection \<open>The global logger\<close>

definition setLogger :: "(log_format \<times> log_handler) option \<Rightarrow> logger \<Rightarrow> logger" where
  "setLogger l lg = (case l of None \<Rightarrow> lg
     | Some (f, h) \<Rightarrow> lg\<lparr>lo_format := f, lo_handler := h, lo_currentLevel := levelDebug\<rparr>)"

definition setLevel :: "int \<Rightarrow> logger \<Rightarrow> logger" where
  "setLevel level lg = lg\<lparr>lo_currentLevel := level\<rparr>"

definition getLevel :: "logger \<Rightarrow> int" where
  "getLevel lg = lo_currentLevel lg"

text \<open>The milliseconds of a duration in nanoseconds, rounded toward zero.\<close>

definition durationMillis :: "int \<Rightarrow> int" where
  "durationMillis ns = sgn ns * (\<bar>ns\<bar> div 1000000)"

definition logDuration ::
  "(attr_map \<Rightarrow> attr_map) \<Rightarrow> (string \<Rightarrow> string) \<Rightarrow> (log_handler \<Rightarrow> slog_record \<Rightarrow> string) \<Rightarrow> logger \<Rightarrow> log_ctx
   \<Rightarrow> string \<times> string \<Rightarrow> string \<Rightarrow> int \<Rightarrow> string option" where
  "logDuration iter quoteUnicode json lg ctx now operation since =
     logCall iter quoteUnicode json lg (requestID ctx) (correlationColor ctx) now levelInfo ''operation completed''
       [LStr ''operation'', LStr operation, LStr ''duration_ms'', LAny (VInt (durationMillis since))]"

text \<open>Setting up the logging forgets whatever logger and level there were.\<close>

lemma setup_forgets_previous:
  "setLevel (parseLevel level) (setLogger (Some (setupFormat f, newHandler (Some (parseLevel level)))) lg) =
     setupLogging level f" if "logger.more lg = ()"
  using that by (simp add: setLevel_def setLogger_def setupLogging_def)

lemma getLevel_simps [simp]: "getLevel (setLevel l lg) = l" "getLevel (setLogger (Some x) lg) = levelDebug"
  by (simp_all add: getLevel_def setLevel_def setLogger_def split: prod.splits)

subsection \<open>Identifiers\<close>

lemma hex_char_inj: "m < 16 \<Longrightarrow> n < 16 \<Longrightarrow> hex_char m = hex_char n \<Longrightarrow> m = n"
proof -
  assume "m < 16" "n < 16" "hex_char m = hex_char n"
  then have "of_char (hex_char m) = (of_char (hex_char n) :: nat)" by simp
  then show ?thesis using \<open>m < 16\<close> \<open>n < 16\<close> by (auto simp: hex_char_def split: if_splits)
qed

lemma hex_byte_inj:
  assumes "hex_char (of_char c div 16) = hex_char (of_char d div 16)" "hex_char (of_char c mod 16) = hex_char (of_char d mod 16)"
  shows "c = d"
proof -
  have lt: "of_char x div 16 < (16 :: nat)" "of_char x mod 16 < (16 :: nat)" for x :: char
    by (rule less_mult_imp_div_less) simp_all
  have "of_char c div 16 = (of_char d div 16 :: nat)" by (rule hex_char_inj [OF lt(1) lt(1) assms(1)])
  moreover have "of_char c mod 16 = (of_char d mod 16 :: nat)" by (rule hex_char_inj [OF lt(2) lt(2) assms(2)])
  ultimately have "of_char c = (of_char d :: nat)" by (metis mod_mult_div_eq)
  then show ?thesis by simp
qed

lemma encodeHex_inj: "encodeHex a = encodeHex b \<Longrightarrow> a = b"
proof (induction a arbitrary: b)
  case Nil
  then show ?case by (cases b) (simp_all add: encodeHex_def)
next
  case (Cons c a)
  then obtain d b' where b: "b = d # b'" by (cases b) (simp_all add: encodeHex_def)
  have "c = d" by (rule hex_byte_inj) (use Cons.prems in \<open>simp_all add: b encodeHex_def\<close>)
  moreover have "a = b'" using Cons by (simp add: b encodeHex_def)
  ultimately show ?case by (simp add: b)
qed

lemma encodeHex_length: "length (encodeHex a) = 2 * length a"
  by (induction a) (simp_all add: encodeHex_def)

text \<open>Two contexts carry the same identifier only when they were given the same random bytes, or the
  clock read the same: no two draws are confused by the encoding.\<close>

lemma generateRequestID_inj:
  "generateRequestID r now = generateRequestID r' now' \<longleftrightarrow>
     (case r of Inl _ \<Rightarrow> now | Inr bytes \<Rightarrow> bytes) = (case r' of Inl _ \<Rightarrow> now' | Inr bytes \<Rightarrow> bytes)"
  by (auto simp: generateRequestID_def dest: encodeHex_inj split: sum.splits)

lemma generateRequestID_not_empty: "generateRequestID r now \<noteq> ''''"
  by (simp add: generateRequestID_def split: sum.splits)

subsection \<open>Every logged line of a request carries its tag\<close>

lemma palette_visible: "c \<in> set colorPalette \<Longrightarrow> c \<noteq> (0, 0, 0)"
  by (auto simp: colorPalette_def)

lemma nextCorrelationColor_visible: "fst (nextCorrelationColor n) \<noteq> (0, 0, 0)"
proof -
  have len: "length colorPalette = 20" by (simp add: colorPalette_def)
  have "unat ((n + 1) mod (20 :: 64 word)) < 20" by (simp add: unat_mod)
  then have "colorPalette ! unat ((n + 1) mod of_nat (length colorPalette)) \<in> set colorPalette" using len by simp
  then show ?thesis using palette_visible by (auto simp: nextCorrelationColor_def Let_def)
qed

text \<open>Whatever the connection carried before, a request leaves the identifier handler with a context
  whose identifier and color are those of the request, and what is logged under that context has
  both.\<close>

lemma logged_requests_are_tagged:
  assumes "ev_freshID ev = requestID (withRequestID rnd clock ctx)" "requestIDHandler ev fl = (fl', rep)"
    and "ctx' = withCorrelationColor (rq_color (fl_req fl')) (withRequestIDValue (rq_requestID (fl_req fl')) ctx)"
  shows "rep = None \<and> requestID ctx' = rq_requestID (fl_req fl') \<and> requestID ctx' \<noteq> '''' \<and>
    fl_meta fl' \<noteq> None \<and> md_requestID (the (fl_meta fl')) = requestID ctx' \<and> md_color (the (fl_meta fl')) = correlationColor ctx' \<and>
    correlationColor ctx' \<noteq> (0, 0, 0) \<and>
    ctxPairs (requestID ctx') (correlationColor ctx') = (case correlationColor ctx' of (r, g, b) \<Rightarrow>
      [(''request_id'', requestID ctx'), (''color_r'', show_int r), (''color_g'', show_int g), (''color_b'', show_int b)])"
proof -
  have "ev_freshID ev \<noteq> ''''" using generateRequestID_not_empty by (simp add: assms(1))
  moreover have "fst (nextCorrelationColor (px_colorIndex (fl_px fl))) \<noteq> (0, 0, 0)" by (rule nextCorrelationColor_visible)
  ultimately have tag: "rep = None" "rq_requestID (fl_req fl') \<noteq> ''''" "rq_color (fl_req fl') \<noteq> (0, 0, 0)"
      "fl_meta fl' \<noteq> None" "md_requestID (the (fl_meta fl')) = rq_requestID (fl_req fl')"
      "md_color (the (fl_meta fl')) = rq_color (fl_req fl')"
    using assms(2) by (auto simp: requestIDHandler_def Let_def split: prod.splits option.splits if_splits)
  then show ?thesis using assms(3) by (auto simp: ctxPairs_def split: prod.splits)
qed

end
