(* ===== verification/Json.thy ===== *)
theory Json
  imports Color_Handler
begin

text \<open>
  What the program uses of Go's \<open>encoding/json\<close>: the text of a value as \<open>Marshal\<close> and \<open>Encoder\<close>
  write it, byte by byte (HTML characters escaped, invalid UTF-8 replaced), its indented form, and
  the value a decoder reads from the front of a text. Numbers are integers or, with a fraction or
  an exponent, their literal. The reader takes fuel, twice the length of the text: every second call
  consumes a byte. The decoder's limit of 10000 nested values is not modelled.
\<close>

subsection \<open>UTF-8\<close>

text \<open>\<open>utf8.DecodeRune\<close>: the rune at the front and its width; an invalid byte is the replacement
  character with width one. A first byte gives the width and the range of the second byte.\<close>

definition runeError :: nat where
  "runeError = 0xFFFD"

definition runeStart :: "nat \<Rightarrow> (nat \<times> nat \<times> nat) option" where
  "runeStart b =
     (if b < 0xC2 then None else if b < 0xE0 then Some (2, 0x80, 0xBF)
      else if b = 0xE0 then Some (3, 0xA0, 0xBF) else if b = 0xED then Some (3, 0x80, 0x9F)
      else if b < 0xF0 then Some (3, 0x80, 0xBF)
      else if b = 0xF0 then Some (4, 0x90, 0xBF) else if b = 0xF4 then Some (4, 0x80, 0x8F)
      else if b < 0xF4 then Some (4, 0x80, 0xBF) else None)"

definition leadBits :: "nat \<Rightarrow> nat" where
  "leadBits n = (if n = 2 then 32 else if n = 3 then 16 else 8)"

text \<open>The bytes after the first, and the value of all.\<close>

definition contBytes :: "nat \<Rightarrow> nat \<Rightarrow> nat \<Rightarrow> nat list \<Rightarrow> bool" where
  "contBytes n lo hi bs \<longleftrightarrow> length bs = n - 1 \<and> lo \<le> hd bs \<and> hd bs \<le> hi \<and> list_all (\<lambda>x. 0x80 \<le> x \<and> x \<le> 0xBF) (tl bs)"

definition runeValue :: "nat \<Rightarrow> nat \<Rightarrow> nat list \<Rightarrow> nat" where
  "runeValue n b bs = foldl (\<lambda>r x. r * 64 + x mod 64) (b mod leadBits n) bs"

definition decodeRune :: "string \<Rightarrow> nat \<times> nat" where
  "decodeRune s = (case s of [] \<Rightarrow> (runeError, 0) | c # t \<Rightarrow>
     (let b = of_char c in
      if b < 0x80 then (b, 1) else case runeStart b of None \<Rightarrow> (runeError, 1)
      | Some (n, lo, hi) \<Rightarrow> (let bs = map of_char (take (n - 1) t) in
          if contBytes n lo hi bs then (runeValue n b bs, n) else (runeError, 1))))"

definition encodeRune :: "nat \<Rightarrow> string" where
  "encodeRune r =
     (if r < 0x80 then [char_of r]
      else if r < 0x800 then [char_of (0xC0 + r div 64), char_of (0x80 + r mod 64)]
      else if (0xD800 \<le> r \<and> r < 0xE000) \<or> 0x110000 \<le> r then [CHR 0xEF, CHR 0xBF, CHR 0xBD]
      else if r < 0x10000
        then [char_of (0xE0 + r div 4096), char_of (0x80 + r div 64 mod 64), char_of (0x80 + r mod 64)]
      else [char_of (0xF0 + r div 262144), char_of (0x80 + r div 4096 mod 64), char_of (0x80 + r div 64 mod 64),
            char_of (0x80 + r mod 64)])"

lemma runeStart_range:
  "runeStart b = Some (n, lo, hi) \<Longrightarrow> n \<in> {2, 3, 4} \<and> 0x80 \<le> lo \<and> hi \<le> 0xBF \<and> 0xC2 \<le> b \<and> b < 0xF5"
  by (simp add: runeStart_def split: if_splits)

lemma decodeRune_cases:
  obtains (ascii) c t where "s = c # t" "of_char c < (0x80 :: nat)" "decodeRune s = (of_char c, 1)"
  | (wrong) c t where "s = c # t" "\<not> of_char c < (0x80 :: nat)" "decodeRune s = (runeError, 1)"
  | (many) c t n lo hi where "s = c # t" "\<not> of_char c < (0x80 :: nat)" "runeStart (of_char c) = Some (n, lo, hi)"
      "contBytes n lo hi (map of_char (take (n - 1) t))"
      "decodeRune s = (runeValue n (of_char c) (map of_char (take (n - 1) t)), n)"
  | (empty) "s = []"
proof (cases s)
  case (Cons c t)
  show thesis
  proof (cases "of_char c < (0x80 :: nat)")
    case True
    then show thesis using Cons by (intro ascii) (simp_all add: decodeRune_def Let_def)
  next
    case big: False
    show thesis
    proof (cases "runeStart (of_char c)")
      case None
      then show thesis using Cons big by (intro wrong) (simp_all add: decodeRune_def Let_def)
    next
      case (Some p)
      obtain n lo hi where p: "p = (n, lo, hi)" by (cases p)
      show thesis
      proof (cases "contBytes n lo hi (map of_char (take (n - 1) t))")
        case True
        then show thesis using Cons big Some p by (intro many) (simp_all add: decodeRune_def Let_def)
      next
        case False
        then show thesis using Cons big Some p by (intro wrong) (simp_all add: decodeRune_def Let_def)
      qed
    qed
  qed
qed (rule empty)

lemma contBytes_length: "contBytes n lo hi (map of_char (take (n - 1) t)) \<Longrightarrow> n - 1 \<le> length t"
  by (simp add: contBytes_def min_def split: if_splits)

lemma decodeRune_width: "s \<noteq> [] \<Longrightarrow> 0 < snd (decodeRune s) \<and> snd (decodeRune s) \<le> length s"
proof (cases rule: decodeRune_cases [of s])
  case (many c t n lo hi)
  then show ?thesis using runeStart_range [OF many(3)] contBytes_length [OF many(4)] by auto
qed simp_all

lemma decodeRune_drop: "s \<noteq> [] \<Longrightarrow> length (drop (snd (decodeRune s)) s) < length s"
  using decodeRune_width [of s] by simp

function valid_utf8 :: "string \<Rightarrow> bool" where
  "valid_utf8 s = (if s = [] then True
     else (of_char (hd s) < (0x80 :: nat) \<or> snd (decodeRune s) \<noteq> 1) \<and> valid_utf8 (drop (snd (decodeRune s)) s))"
  by pat_completeness auto
termination
proof (relation "measure length")
  show "(drop (snd (decodeRune s)) s, s) \<in> measure length" if "s \<noteq> []" for s
    using decodeRune_drop [OF that] by simp
qed simp

declare valid_utf8.simps [simp del]

subsection \<open>Strings\<close>

definition escapeByte :: "char \<Rightarrow> string" where
  "escapeByte c =
     (if c = CHR 0x22 \<or> c = CHR 0x5C then [CHR 0x5C, c]
      else if c = CHR 0x08 then CHR 0x5C # ''b'' else if c = CHR 0x0C then CHR 0x5C # ''f''
      else if c = CHR 0x0A then CHR 0x5C # ''n'' else if c = CHR 0x0D then CHR 0x5C # ''r''
      else if c = CHR 0x09 then CHR 0x5C # ''t''
      else if of_char c < (0x20 :: nat) \<or> c = CHR ''<'' \<or> c = CHR ''>'' \<or> c = CHR ''&''
        then CHR 0x5C # ''u00'' @ [hex_char (of_char c div 16), hex_char (of_char c mod 16)]
      else [c])"

function escapeJSON :: "string \<Rightarrow> string" where
  "escapeJSON s = (case s of [] \<Rightarrow> [] | c # t \<Rightarrow>
     if of_char c < (0x80 :: nat) then escapeByte c @ escapeJSON t
     else case decodeRune s of (r, n) \<Rightarrow>
       (if n = 1 then CHR 0x5C # ''ufffd''
        else if r = 0x2028 \<or> r = 0x2029 then CHR 0x5C # ''u202'' @ [hex_char (r mod 16)]
        else take n s) @ escapeJSON (drop n s))"
  by pat_completeness auto
termination
proof (relation "measure length")
  show "(drop n s, s) \<in> measure length" if "s = c # t" "(r, n) = decodeRune s" for s c t r n
    using decodeRune_drop [of s] that by (metis in_measure list.distinct(1) snd_conv)
qed simp_all

declare escapeJSON.simps [simp del]

definition jsonString :: "string \<Rightarrow> string" where
  "jsonString s = CHR 0x22 # escapeJSON s @ [CHR 0x22]"

subsection \<open>Values\<close>

datatype json = JNull | JBool bool | JNum int | JFloat string | JStr string | JArr "json list"
  | JObj "(string \<times> json) list"

fun jsonText :: "json \<Rightarrow> string" where
  "jsonText JNull = ''null''"
| "jsonText (JBool b) = (if b then ''true'' else ''false'')"
| "jsonText (JNum i) = show_int i"
| "jsonText (JFloat lit) = lit"
| "jsonText (JStr s) = jsonString s"
| "jsonText (JArr vs) = CHR ''['' # str_join '','' (map jsonText vs) @ '']''"
| "jsonText (JObj ms) = CHR ''{'' # str_join '','' (map (\<lambda>(k, v). jsonString k @ '':'' @ jsonText v) ms) @ ''}''"

text \<open>\<open>MarshalIndent\<close> with two spaces a level.\<close>

definition indentLine :: "nat \<Rightarrow> string" where
  "indentLine d = newline # replicate (2 * d) (CHR '' '')"

fun jsonIndent :: "nat \<Rightarrow> json \<Rightarrow> string" where
  "jsonIndent d (JArr vs) = (if vs = [] then ''[]'' else
     CHR ''['' # indentLine (Suc d) @ str_join ('','' @ indentLine (Suc d)) (map (jsonIndent (Suc d)) vs) @
       indentLine d @ '']'')"
| "jsonIndent d (JObj ms) = (if ms = [] then ''{}'' else
     CHR ''{'' # indentLine (Suc d) @
       str_join ('','' @ indentLine (Suc d)) (map (\<lambda>(k, v). jsonString k @ '': '' @ jsonIndent (Suc d) v) ms) @
       indentLine d @ ''}'')"
| "jsonIndent d v = jsonText v"

subsection \<open>Reading\<close>

definition isSpaceByte :: "char \<Rightarrow> bool" where
  "isSpaceByte c \<longleftrightarrow> c = CHR '' '' \<or> c = CHR 0x09 \<or> c = CHR 0x0A \<or> c = CHR 0x0D"

definition skipSpace :: "string \<Rightarrow> string" where
  "skipSpace s = dropWhile isSpaceByte s"

definition is_digit :: "char \<Rightarrow> bool" where
  "is_digit c \<longleftrightarrow> 48 \<le> (of_char c :: nat) \<and> of_char c < (58 :: nat)"

text \<open>A hexadecimal digit, and four of them.\<close>

definition hexDigit :: "char \<Rightarrow> nat option" where
  "hexDigit c = (let n = of_char c in
     if is_digit c then Some (n - 48) else if 97 \<le> n \<and> n < 103 then Some (n - 87)
     else if 65 \<le> n \<and> n < 71 then Some (n - 55) else None)"

definition hex4 :: "string \<Rightarrow> (nat \<times> string) option" where
  "hex4 s = (case s of a # b # c # d # t \<Rightarrow>
       (case (hexDigit a, hexDigit b, hexDigit c, hexDigit d) of
          (Some w, Some x, Some y, Some z) \<Rightarrow> Some (w * 4096 + x * 256 + y * 16 + z, t)
        | _ \<Rightarrow> None)
     | _ \<Rightarrow> None)"

definition plainEscape :: "char \<Rightarrow> char option" where
  "plainEscape e =
     (if e = CHR 0x22 \<or> e = CHR 0x5C \<or> e = CHR ''/'' then Some e else if e = CHR ''b'' then Some (CHR 0x08)
      else if e = CHR ''f'' then Some (CHR 0x0C) else if e = CHR ''n'' then Some (CHR 0x0A)
      else if e = CHR ''r'' then Some (CHR 0x0D) else if e = CHR ''t'' then Some (CHR 0x09) else None)"

text \<open>What \<open>uXXXX\<close> stands for: a rune, and for a pair of surrogates the rune of both; a surrogate alone is
  replaced.\<close>

definition readEscape :: "string \<Rightarrow> (string \<times> string) option" where
  "readEscape s = (case hex4 s of None \<Rightarrow> None
   | Some (r, t) \<Rightarrow>
       if 0xD800 \<le> r \<and> r < 0xDC00 then
         (case (take 2 t = [CHR 0x5C, CHR ''u''], hex4 (drop 2 t)) of
            (True, Some (r2, u)) \<Rightarrow> if 0xDC00 \<le> r2 \<and> r2 < 0xE000
              then Some (encodeRune ((r - 0xD800) * 1024 + (r2 - 0xDC00) + 0x10000), u)
              else Some (encodeRune runeError, t)
          | _ \<Rightarrow> Some (encodeRune runeError, t))
       else Some (encodeRune r, t))"

lemma hex4_shorter: "hex4 s = Some (r, t) \<Longrightarrow> length t < length s"
  by (auto simp: hex4_def split: list.splits option.splits)

lemma readEscape_shorter: "readEscape s = Some (v, t) \<Longrightarrow> length t < length s"
proof -
  assume "readEscape s = Some (v, t)"
  then obtain r u where u: "hex4 s = Some (r, u)" "t = u \<or> (\<exists>r2. hex4 (drop 2 u) = Some (r2, t))"
    by (auto simp: readEscape_def split: option.splits prod.splits if_splits bool.splits)
  from u(2) show ?thesis
  proof
    assume "t = u"
    then show ?thesis using hex4_shorter [OF u(1)] by simp
  next
    assume "\<exists>r2. hex4 (drop 2 u) = Some (r2, t)"
    then obtain r2 where "hex4 (drop 2 u) = Some (r2, t)" by blast
    then show ?thesis using hex4_shorter [of "drop 2 u"] hex4_shorter [OF u(1)] by fastforce
  qed
qed

text \<open>The rest of a string, after its opening quote: what it says, and the text after its closing one.\<close>

function readString :: "string \<Rightarrow> (string \<times> string) option" where
  "readString s = (case s of [] \<Rightarrow> None | c # t \<Rightarrow>
     if c = CHR 0x22 then Some ([], t)
     else if c = CHR 0x5C then (case t of [] \<Rightarrow> None | e # u \<Rightarrow>
       if e = CHR ''u'' then (case readEscape u of None \<Rightarrow> None
         | Some (v, w) \<Rightarrow> map_option (\<lambda>(x, r). (v @ x, r)) (readString w))
       else (case plainEscape e of None \<Rightarrow> None | Some b \<Rightarrow> map_option (\<lambda>(x, r). (b # x, r)) (readString u)))
     else if of_char c < (0x20 :: nat) then None
     else if of_char c < (0x80 :: nat) then map_option (\<lambda>(x, r). (c # x, r)) (readString t)
     else (case decodeRune s of (_, n) \<Rightarrow>
       map_option (\<lambda>(x, r). ((if n = 1 then encodeRune runeError else take n s) @ x, r)) (readString (drop n s))))"
  by pat_completeness auto
termination
proof (relation "measure length")
  show "(w, s) \<in> measure length"
    if "s = c # t" "t = e # u" "readEscape u = Some p" "(v, w) = p" for s c t e u p v w
    using readEscape_shorter [of u v w] that by simp
  show "(drop n s, s) \<in> measure length" if "s = c # t" "(r, n) = decodeRune s" for s c t r n
    using decodeRune_drop [of s] that by (metis in_measure list.distinct(1) snd_conv)
qed simp_all

declare readString.simps [simp del]

text \<open>A number: its integer part has no leading zero; a fraction or an exponent makes it a literal.\<close>

definition digitsValue :: "string \<Rightarrow> nat" where
  "digitsValue s = foldl (\<lambda>n c. n * 10 + (of_char c - 48)) 0 s"

definition readDigits :: "string \<Rightarrow> (string \<times> string) option" where
  "readDigits s = (case takeWhile is_digit s of [] \<Rightarrow> None | ds \<Rightarrow> Some (ds, dropWhile is_digit s))"

definition readIntPart :: "string \<Rightarrow> (string \<times> string) option" where
  "readIntPart s = (case s of [] \<Rightarrow> None
     | c # t \<Rightarrow> if c = CHR ''0'' then Some ([c], t) else readDigits s)"

definition readFraction :: "string \<Rightarrow> (string \<times> string) option" where
  "readFraction s = (case s of c # t \<Rightarrow> if c = CHR ''.'' then map_option (\<lambda>(ds, r). (c # ds, r)) (readDigits t) else Some ([], s)
     | [] \<Rightarrow> Some ([], []))"

definition readExponent :: "string \<Rightarrow> (string \<times> string) option" where
  "readExponent s = (case s of c # t \<Rightarrow>
       if c = CHR ''e'' \<or> c = CHR ''E''
       then (case t of d # u \<Rightarrow> if d = CHR ''+'' \<or> d = CHR ''-'' then map_option (\<lambda>(ds, r). (c # d # ds, r)) (readDigits u)
               else map_option (\<lambda>(ds, r). (c # ds, r)) (readDigits t)
             | [] \<Rightarrow> None)
       else Some ([], s)
     | [] \<Rightarrow> Some ([], []))"

definition readNumber :: "string \<Rightarrow> (json \<times> string) option" where
  "readNumber s = (let neg = s \<noteq> [] \<and> hd s = CHR ''-''; sign = (if neg then ''-'' else '''') in
     case readIntPart (if neg then tl s else s) of None \<Rightarrow> None
     | Some (ds, t) \<Rightarrow> (case readFraction t of None \<Rightarrow> None
         | Some (frac, u) \<Rightarrow> (case readExponent u of None \<Rightarrow> None
             | Some (ex, w) \<Rightarrow> Some (if frac = [] \<and> ex = []
                 then JNum (if neg then - int (digitsValue ds) else int (digitsValue ds))
                 else JFloat (sign @ ds @ frac @ ex), w))))"

definition readLiteral :: "string \<Rightarrow> json \<Rightarrow> string \<Rightarrow> (json \<times> string) option" where
  "readLiteral lit v s = map_option (\<lambda>r. (v, r)) (cut_prefix s lit)"

definition readAtom :: "string \<Rightarrow> (json \<times> string) option" where
  "readAtom s = (let c = hd s in
     if c = CHR ''t'' then readLiteral ''true'' (JBool True) s
     else if c = CHR ''f'' then readLiteral ''false'' (JBool False) s
     else if c = CHR ''n'' then readLiteral ''null'' JNull s else readNumber s)"

fun jsonValue :: "nat \<Rightarrow> string \<Rightarrow> (json \<times> string) option"
and jsonElems :: "nat \<Rightarrow> string \<Rightarrow> (json list \<times> string) option"
and jsonMembers :: "nat \<Rightarrow> string \<Rightarrow> ((string \<times> json) list \<times> string) option" where
  "jsonValue 0 s = None"
| "jsonElems 0 s = None"
| "jsonMembers 0 s = None"
| "jsonValue (Suc n) s = (case skipSpace s of [] \<Rightarrow> None | c # t \<Rightarrow>
     if c = CHR ''{'' then (case skipSpace t of [] \<Rightarrow> None | d # u \<Rightarrow>
       if d = CHR ''}'' then Some (JObj [], u) else map_option (map_prod JObj (\<lambda>r. r)) (jsonMembers n (d # u)))
     else if c = CHR ''['' then (case skipSpace t of [] \<Rightarrow> None | d # u \<Rightarrow>
       if d = CHR '']'' then Some (JArr [], u) else map_option (map_prod JArr (\<lambda>r. r)) (jsonElems n (d # u)))
     else if c = CHR 0x22 then map_option (map_prod JStr (\<lambda>r. r)) (readString t)
     else readAtom (c # t))"
| "jsonElems (Suc n) s = (case jsonValue n s of None \<Rightarrow> None | Some (v, t) \<Rightarrow> (case skipSpace t of [] \<Rightarrow> None | c # u \<Rightarrow>
     if c = CHR '','' then map_option (map_prod (Cons v) (\<lambda>r. r)) (jsonElems n u)
     else if c = CHR '']'' then Some ([v], u) else None))"
| "jsonMembers (Suc n) s = (case skipSpace s of [] \<Rightarrow> None | c # t \<Rightarrow>
     if c \<noteq> CHR 0x22 then None else (case readString t of None \<Rightarrow> None | Some (k, u) \<Rightarrow> (case skipSpace u of [] \<Rightarrow> None | d # w \<Rightarrow>
       if d \<noteq> CHR '':'' then None else (case jsonValue n w of None \<Rightarrow> None | Some (v, x) \<Rightarrow> (case skipSpace x of [] \<Rightarrow> None | e # y \<Rightarrow>
         if e = CHR '','' then map_option (map_prod (Cons (k, v)) (\<lambda>r. r)) (jsonMembers n y)
         else if e = CHR ''}'' then Some ([(k, v)], y) else None)))))"

text \<open>\<open>Decoder\<close>: the value at the front of a text; what follows it is not looked at.\<close>

definition readJSON :: "string \<Rightarrow> json option" where
  "readJSON s = map_option fst (jsonValue (2 * length s + 2) s)"

subsection \<open>What is read back of a string\<close>

lemma decodeRune_many:
  "\<not> of_char c < (0x80 :: nat) \<Longrightarrow> runeStart (of_char c) = Some (n, lo, hi) \<Longrightarrow> contBytes n lo hi (map of_char (take (n - 1) t)) \<Longrightarrow>
     decodeRune (c # t) = (runeValue n (of_char c) (map of_char (take (n - 1) t)), n)"
  by (simp add: decodeRune_def)

lemma decodeRune_take:
  assumes "decodeRune s = (r, n)" "n \<noteq> 1" "s \<noteq> []"
  shows "decodeRune (take n s @ x) = (r, n) \<and> \<not> of_char (hd s) < (0x80 :: nat) \<and> take n s = hd s # take (n - 1) (tl s)"
  using assms(3)
proof (cases rule: decodeRune_cases [of s])
  case (many c t m lo hi)
  then have n: "m = n" "0 < n" using assms(1) runeStart_range [OF many(3)] by auto
  have "length (take (n - 1) t) = n - 1" using contBytes_length [OF many(4)] n by simp
  then have eq: "take (n - 1) (take (n - 1) t @ x) = take (n - 1) t" by simp
  have "take n s = c # take (n - 1) t" using many(1) n by (cases n) auto
  moreover have "decodeRune (c # take (n - 1) t @ x) = (r, n)"
    using decodeRune_many [OF many(2) many(3) [unfolded n(1)], of "take (n - 1) t @ x"] many(4,5) assms(1) unfolding eq n(1) by simp
  ultimately show ?thesis using many(1,2) by simp
qed (use assms in auto)

lemma cont_mod: "0x80 \<le> y \<Longrightarrow> y \<le> 0xBF \<Longrightarrow> y mod 64 = y - (0x80 :: nat)"
proof -
  assume y: "0x80 \<le> y" "y \<le> 0xBF"
  have "y mod 64 = (2 * 64 + (y - 0x80)) mod 64" using y(1) by simp
  also have "\<dots> = (y - 0x80) mod 64" by (rule mod_mult_self3)
  also have "\<dots> = y - 0x80" using y(2) by simp
  finally show ?thesis .
qed

text \<open>The two line separators are the only runes of more than one byte that are escaped.\<close>

lemma separator_bytes:
  assumes "decodeRune s = (r, n)" "n \<noteq> 1" "r = 0x2028 \<or> r = 0x2029" "s \<noteq> []"
  shows "n = 3 \<and> take n s = [CHR 0xE2, CHR 0x80, char_of (r - 0x2028 + 0xA8)]"
  using assms(4)
proof (cases rule: decodeRune_cases [of s])
  case (many c t m lo hi)
  define b where "b = (of_char c :: nat)"
  define bs where "bs = (map of_char (take (n - 1) t) :: nat list)"
  have n: "m = n" and r: "r = runeValue n b bs" and cb: "contBytes n lo hi bs" using many(4,5) assms(1) by (auto simp: b_def bs_def)
  note range = runeStart_range [OF many(3)]
  have cont: "0x80 \<le> x \<and> x \<le> 0xBF" if "x \<in> set bs" for x
    using cb range that by (cases bs) (auto simp: contBytes_def list_all_iff)
  have len: "length bs = n - 1" using cb by (simp add: contBytes_def)
  have "n = 2 \<or> n = 3 \<or> n = 4" using range n by simp
  then consider (two) x where "n = 2" "bs = [x]" | (three) x y where "n = 3" "bs = [x, y]" | (four) x y z where "n = 4" "bs = [x, y, z]"
  proof (elim disjE)
    assume "n = 2" then show thesis using len two by (cases bs) auto
  next
    assume "n = 3" then show thesis using len three by (cases bs; cases "tl bs") auto
  next
    assume "n = 4" then show thesis using len four by (cases bs; cases "tl bs"; cases "tl (tl bs)") auto
  qed
  then show ?thesis
  proof cases
    case two
    have "b mod 32 < 32" "x mod 64 < 64" by simp_all
    then have "r < 0x2028" using r two by (simp add: runeValue_def leadBits_def)
    then show ?thesis using assms(3) by auto
  next
    case three
    have r3: "r = (b mod 16 * 64 + x mod 64) * 64 + y mod 64" using r three by (simp add: runeValue_def leadBits_def)
    have unit: "(u * 64 + w mod 64) div 64 = u" "(u * 64 + w mod 64) mod 64 = w mod (64 :: nat)" for u w
      by (simp_all add: add.commute [of "u * 64"])
    have "r div 64 = b mod 16 * 64 + x mod 64" "r mod 64 = y mod 64" unfolding r3 by (rule unit)+
    moreover from this(1) have "r div 64 div 64 = b mod 16" "r div 64 mod 64 = x mod 64" by (simp_all only: unit)
    moreover have r128: "r div 64 = 128" "r mod 64 = r - 0x2028 + 0x28" using assms(3) by auto
    ultimately have v: "b mod 16 = 2" "x mod 64 = 0" "y mod 64 = r - 0x2028 + 0x28" by simp_all
    have "b div 16 = 14"
      using many(3) three(1) n by (auto simp: b_def runeStart_def split: if_splits)
    then have "b = 0xE2" using v(1) by presburger
    moreover have xy: "0x80 \<le> x" "x \<le> 0xBF" "0x80 \<le> y" "y \<le> 0xBF" using cont [of x] cont [of y] three(2) by simp_all
    have "x = 0x80" using v(2) cont_mod [OF xy(1,2)] xy(1) by simp
    moreover have "y = r - 0x2028 + 0xA8" using v(3) cont_mod [OF xy(3,4)] xy(3) assms(3) by auto
    moreover have "take 3 s = c # take 2 t" using many(1) by (simp add: numeral_3_eq_3 numeral_2_eq_2)
    ultimately have "map of_char (take 3 s) = [0xE2, 0x80, r - 0x2028 + 0xA8 :: nat]"
      using three bs_def b_def by simp
    then have "map char_of (map of_char (take 3 s) :: nat list) = [char_of (0xE2 :: nat), char_of (0x80 :: nat), char_of (r - 0x2028 + 0xA8)]"
      by simp
    moreover have "map char_of (map of_char (take 3 s) :: nat list) = take 3 s" by (simp add: comp_def)
    moreover have "char_of (0xE2 :: nat) = CHR 0xE2" "char_of (0x80 :: nat) = CHR 0x80" by code_simp+
    ultimately show ?thesis using three(1) by simp
  next
    case four
    have "b = 0xF0 \<and> 0x90 \<le> x \<or> b \<in> {0xF1, 0xF2, 0xF3, 0xF4}" using many(3) four(1) n cb four(2)
      by (auto simp: b_def runeStart_def contBytes_def split: if_splits)
    then have "1 \<le> b mod 8 \<or> 0x90 \<le> x" by auto
    then have "0x10 \<le> b mod 8 * 64 + x mod 64" 
    proof
      assume "0x90 \<le> x"
      moreover have "0x80 \<le> x" "x \<le> 0xBF" using cont [of x] four(2) by simp_all
      ultimately show ?thesis using cont_mod [of x] by simp
    qed simp
    then have "0x10000 \<le> ((b mod 8 * 64 + x mod 64) * 64 + y mod 64) * 64 + z mod 64" by simp
    then show ?thesis using r four assms(3) by (auto simp: runeValue_def leadBits_def)
  qed
qed (use assms in auto)

lemma hexDigit_char: "n < 16 \<Longrightarrow> hexDigit (hex_char n) = Some n"
  by (auto simp: hexDigit_def hex_char_def is_digit_def Let_def of_char_of)

lemma encodeRune_ascii: "of_char c < (0x80 :: nat) \<Longrightarrow> encodeRune (of_char c) = [c]"
  by (simp add: encodeRune_def)

lemma readString_end [simp]: "readString (CHR 0x22 # x) = Some ([], x)"
  by (subst readString.simps) simp

lemma readString_plain:
  "plainEscape e = Some b \<Longrightarrow> e \<noteq> CHR ''u'' \<Longrightarrow> readString (CHR 0x5C # e # x) = map_option (\<lambda>(v, r). (b # v, r)) (readString x)"
  by (subst readString.simps) simp

lemma readString_unicode:
  "readEscape u = Some (v, w) \<Longrightarrow> readString (CHR 0x5C # CHR ''u'' # u) = map_option (\<lambda>(x, r). (v @ x, r)) (readString w)"
  by (subst readString.simps) simp

lemma readString_byte:
  "of_char c < (0x80 :: nat) \<Longrightarrow> \<not> of_char c < (0x20 :: nat) \<Longrightarrow> c \<noteq> CHR 0x22 \<Longrightarrow> c \<noteq> CHR 0x5C \<Longrightarrow>
     readString (c # x) = map_option (\<lambda>(v, r). (c # v, r)) (readString x)"
  by (subst readString.simps) simp

lemma readEscape_ascii:
  "of_char c < (0x80 :: nat) \<Longrightarrow>
     readEscape (CHR ''0'' # CHR ''0'' # hex_char (of_char c div 16) # hex_char (of_char c mod 16) # x) = Some ([c], x)"
proof -
  assume c: "of_char c < (0x80 :: nat)"
  then have lt: "of_char c div 16 < (16 :: nat)" "of_char c mod 16 < (16 :: nat)" by simp_all
  have zero: "hexDigit (CHR ''0'') = Some 0" by code_simp
  have "hex4 (CHR ''0'' # CHR ''0'' # hex_char (of_char c div 16) # hex_char (of_char c mod 16) # x) = Some (of_char c, x)"
    by (simp add: hex4_def zero hexDigit_char [OF lt(1)] hexDigit_char [OF lt(2)])
  then show ?thesis using c encodeRune_ascii [OF c] by (simp add: readEscape_def)
qed

lemma readString_escapeByte:
  assumes "of_char c < (0x80 :: nat)"
  shows "readString (escapeByte c @ x) = map_option (\<lambda>(v, r). (c # v, r)) (readString x)"
proof -
  have p: "plainEscape (CHR 0x22) = Some (CHR 0x22)" "plainEscape (CHR 0x5C) = Some (CHR 0x5C)" "plainEscape (CHR ''b'') = Some (CHR 0x08)"
      "plainEscape (CHR ''f'') = Some (CHR 0x0C)" "plainEscape (CHR ''n'') = Some (CHR 0x0A)" "plainEscape (CHR ''r'') = Some (CHR 0x0D)"
      "plainEscape (CHR ''t'') = Some (CHR 0x09)"
    by code_simp+
  note plain = readString_plain [OF p(1)] readString_plain [OF p(2)] readString_plain [OF p(3)] readString_plain [OF p(4)]
    readString_plain [OF p(5)] readString_plain [OF p(6)] readString_plain [OF p(7)]
  show ?thesis
  proof (cases "c \<in> {CHR 0x22, CHR 0x5C, CHR 0x08, CHR 0x0C, CHR 0x0A, CHR 0x0D, CHR 0x09}")
    case True
    then show ?thesis by (elim insertE emptyE) (simp_all add: escapeByte_def plain)
  next
    case False
    show ?thesis
    proof (cases "of_char c < (0x20 :: nat) \<or> c = CHR ''<'' \<or> c = CHR ''>'' \<or> c = CHR ''&''")
      case True
      then have "escapeByte c = CHR 0x5C # ''u00'' @ [hex_char (of_char c div 16), hex_char (of_char c mod 16)]"
        using False unfolding escapeByte_def by simp
      then show ?thesis using readString_unicode [OF readEscape_ascii [OF assms]] by simp
    next
      case plain: False
      then have "escapeByte c = [c]" using False unfolding escapeByte_def by simp
      then show ?thesis using readString_byte [OF assms] plain False by simp
    qed
  qed
qed

lemma separator_read:
  assumes "r = 0x2028 \<or> r = (0x2029 :: nat)"
  shows "readEscape (CHR ''2'' # CHR ''0'' # CHR ''2'' # hex_char (r mod 16) # x) =
    Some ([CHR 0xE2, CHR 0x80, char_of (r - 0x2028 + 0xA8)], x)"
proof -
  have d: "hexDigit (CHR ''2'') = Some 2" "hexDigit (CHR ''0'') = Some 0" "hexDigit (hex_char 8) = Some 8" "hexDigit (hex_char 9) = Some 9"
    by code_simp+
  have c: "char_of (0xE2 :: nat) = CHR 0xE2" "char_of (0x80 :: nat) = CHR 0x80" by code_simp+
  have e: "encodeRune 0x2028 = [CHR 0xE2, CHR 0x80, char_of (0xA8 :: nat)]" "encodeRune 0x2029 = [CHR 0xE2, CHR 0x80, char_of (0xA9 :: nat)]"
    unfolding c [symmetric] by (simp_all add: encodeRune_def)
  have h: "hex4 (CHR ''2'' # CHR ''0'' # CHR ''2'' # hex_char 8 # x) = Some (0x2028, x)"
      "hex4 (CHR ''2'' # CHR ''0'' # CHR ''2'' # hex_char 9 # x) = Some (0x2029, x)"
    by (simp_all add: hex4_def d)
  from assms show ?thesis by (elim disjE) (simp_all add: readEscape_def h e)
qed

lemma readString_rune:
  assumes "decodeRune s = (r, n)" "n \<noteq> 1" "s \<noteq> []"
  shows "readString (take n s @ x) = map_option (\<lambda>(v, u). (take n s @ v, u)) (readString x)"
proof -
  note t = decodeRune_take [OF assms, of x]
  define c where "c = hd s"
  define y where "y = take (n - 1) (tl s) @ x"
  have eq: "take n s @ x = c # y" and big: "\<not> of_char c < (0x80 :: nat)" and dec: "decodeRune (c # y) = (r, n)"
    using t unfolding c_def y_def by (simp, blast, metis append_Cons)
  have len: "length (take n s) = n" using decodeRune_width [OF assms(3)] assms(1) by simp
  have td: "take n (c # y) = take n s" "drop n (c # y) = x"
    unfolding eq [symmetric] using len by simp_all
  have "c \<noteq> CHR 0x22" "c \<noteq> CHR 0x5C" "\<not> of_char c < (0x20 :: nat)" using big by auto
  then have "readString (c # y) = map_option (\<lambda>(v, u). (take n s @ v, u)) (readString x)"
    using assms(2) big by (subst readString.simps) (simp only: list.case if_False dec prod.case td)
  then show ?thesis unfolding eq .
qed

lemma escapeJSON_Nil [simp]: "escapeJSON [] = []"
  by (subst escapeJSON.simps) simp

lemma readString_escape: "valid_utf8 s \<Longrightarrow> readString (escapeJSON s @ CHR 0x22 # x) = Some (s, x)"
proof (induction s rule: valid_utf8.induct)
  case (1 s)
  show ?case
  proof (cases s)
    case (Cons c t)
    then have ne: "s \<noteq> []" by simp
    obtain r n where rn: "decodeRune s = (r, n)" by fastforce
    have valid: "of_char c < (0x80 :: nat) \<or> n \<noteq> 1" "valid_utf8 (drop n s)"
      using 1(2) Cons rn by (subst (asm) valid_utf8.simps; simp)+
    have IH: "readString (escapeJSON (drop n s) @ CHR 0x22 # x) = Some (drop n s, x)"
      using 1(1) [OF ne] valid(2) rn by simp
    show ?thesis
    proof (cases "of_char c < (0x80 :: nat)")
      case True
      then have "n = 1" using rn Cons by (simp add: decodeRune_def)
      moreover have "escapeJSON s = escapeByte c @ escapeJSON t" using Cons True by (subst escapeJSON.simps) simp
      ultimately show ?thesis using IH readString_escapeByte [OF True] Cons by simp
    next
      case False
      then have n: "n \<noteq> 1" using valid(1) by simp
      show ?thesis
      proof (cases "r = 0x2028 \<or> r = 0x2029")
        case True
        have "escapeJSON s = (CHR 0x5C # ''u202'' @ [hex_char (r mod 16)]) @ escapeJSON (drop n s)"
          using Cons False n rn True by (subst escapeJSON.simps) simp
        moreover have "s = [CHR 0xE2, CHR 0x80, char_of (r - 0x2028 + 0xA8)] @ drop n s"
          using separator_bytes [OF rn n True ne] by (metis append_take_drop_id)
        ultimately show ?thesis
          using readString_unicode [OF separator_read [OF True], of "escapeJSON (drop n s) @ CHR 0x22 # x"] IH by simp
      next
        case plain: False
        have "escapeJSON s = take n s @ escapeJSON (drop n s)"
          using Cons False n rn plain by (subst escapeJSON.simps) simp
        then show ?thesis using readString_rune [OF rn n ne] IH by simp
      qed
    qed
  qed simp
qed

lemma ascii_valid: "is_ascii s \<Longrightarrow> valid_utf8 s"
proof (induction s)
  case (Cons c s)
  then show ?case by (subst valid_utf8.simps) (simp add: decodeRune_def)
qed (subst valid_utf8.simps, simp)

subsection \<open>The fuel is enough\<close>

lemma skipSpace_shorter: "length (skipSpace s) \<le> length s"
  by (simp add: skipSpace_def length_dropWhile_le)

lemma skipSpace_Cons: "skipSpace s = c # t \<Longrightarrow> length t < length s"
  using skipSpace_shorter [of s] by simp

lemma readString_shorter: "readString s = Some (v, t) \<Longrightarrow> length t < length s"
proof (induction s arbitrary: v t rule: readString.induct)
  case (1 s)
  show ?case
  proof (cases s)
    case Nil
    then show ?thesis using 1(5) by (subst (asm) readString.simps) simp
  next
    case (Cons c u)
    consider (close) "c = CHR 0x22" | (esc) "c = CHR 0x5C" | (ctl) "c \<noteq> CHR 0x22" "c \<noteq> CHR 0x5C" "of_char c < (0x20 :: nat)"
      | (byte) "c \<noteq> CHR 0x22" "c \<noteq> CHR 0x5C" "\<not> of_char c < (0x20 :: nat)" "of_char c < (0x80 :: nat)"
      | (rune) "c \<noteq> CHR 0x22" "c \<noteq> CHR 0x5C" "\<not> of_char c < (0x20 :: nat)" "\<not> of_char c < (0x80 :: nat)"
      by blast
    then show ?thesis
    proof cases
      case close
      then show ?thesis using 1(5) Cons by (subst (asm) readString.simps) simp
    next
      case esc
      then obtain e w where u: "u = e # w"
        using 1(5) Cons by (subst (asm) readString.simps) (cases u, simp_all)
      show ?thesis
      proof (cases "e = CHR ''u''")
        case True
        then obtain p q where pq: "readEscape w = Some (p, q)" "map_option (\<lambda>(x, r). (p @ x, r)) (readString q) = Some (v, t)"
          using 1(5) Cons u esc by (subst (asm) readString.simps) (auto split: option.splits)
        then obtain x where "readString q = Some (x, t)" by auto
        then have "length t < length q" using 1(1) [OF Cons _ esc u True pq(1) refl] esc by auto
        then show ?thesis using readEscape_shorter [OF pq(1)] Cons u by simp
      next
        case False
        then obtain b where b: "plainEscape e = Some b" "map_option (\<lambda>(x, r). (b # x, r)) (readString w) = Some (v, t)"
          using 1(5) Cons u esc by (subst (asm) readString.simps) (auto split: option.splits)
        then obtain x where "readString w = Some (x, t)" by auto
        then have "length t < length w" using 1(2) [OF Cons _ esc u False b(1)] esc by auto
        then show ?thesis using Cons u by simp
      qed
    next
      case ctl
      then show ?thesis using 1(5) Cons by (subst (asm) readString.simps) simp
    next
      case byte
      then obtain x where "readString u = Some (x, t)"
        using 1(5) Cons by (subst (asm) readString.simps) auto
      then show ?thesis using 1(3) [OF Cons byte] Cons by fastforce
    next
      case rune
      obtain r n where rn: "decodeRune s = (r, n)" by fastforce
      then obtain x where "readString (drop n s) = Some (x, t)"
        using 1(5) Cons rune by (subst (asm) readString.simps) auto
      then have "length t < length (drop n s)" using 1(4) [OF Cons rune rn [symmetric]] by blast
      then show ?thesis by simp
    qed
  qed
qed

lemma dropWhile_digits: "takeWhile is_digit s \<noteq> [] \<Longrightarrow> length (dropWhile is_digit s) < length s"
  by (cases s) (auto simp: length_dropWhile_le less_Suc_eq_le split: if_splits)

lemma readDigits_shorter: "readDigits s = Some (ds, t) \<Longrightarrow> length t < length s"
  using dropWhile_digits [of s] by (auto simp: readDigits_def split: list.splits)

lemma readIntPart_shorter: "readIntPart s = Some (ds, t) \<Longrightarrow> length t < length s"
  by (auto simp: readIntPart_def dest!: readDigits_shorter split: list.splits if_splits)

lemma readNumber_shorter: "readNumber s = Some (v, t) \<Longrightarrow> length t < length s"
proof -
  assume num: "readNumber s = Some (v, t)"
  let ?s = "if s \<noteq> [] \<and> hd s = CHR ''-'' then tl s else s"
  obtain ds u frac w ex where p: "readIntPart ?s = Some (ds, u)" "readFraction u = Some (frac, w)" "readExponent w = Some (ex, t)"
    using num unfolding readNumber_def Let_def by (auto split: option.splits prod.splits)
  have "length u < length ?s" by (rule readIntPart_shorter [OF p(1)])
  moreover have "length w \<le> length u" using p(2) by (auto simp: readFraction_def dest!: readDigits_shorter split: list.splits if_splits)
  moreover have "length t \<le> length w" using p(3) by (auto simp: readExponent_def dest!: readDigits_shorter split: list.splits if_splits)
  moreover have "length ?s \<le> length s" by simp
  ultimately show ?thesis by linarith
qed

lemma readAtom_shorter: "readAtom s = Some (v, t) \<Longrightarrow> length t < length s"
  using readNumber_shorter by (auto simp: readAtom_def readLiteral_def Let_def cut_prefix_Some_iff split: if_splits)

lemma shorter:
  "(\<forall>v t. jsonValue n s = Some (v, t) \<longrightarrow> length t < length s) \<and>
   (\<forall>vs t. jsonElems n s = Some (vs, t) \<longrightarrow> length t < length s) \<and>
   (\<forall>ms t. jsonMembers n s = Some (ms, t) \<longrightarrow> length t < length s)"
proof (induction n arbitrary: s)
  case (Suc n)
  have V: "jsonValue n s' = Some (v, t) \<Longrightarrow> length t < length s'" and E: "jsonElems n s' = Some (vs, t) \<Longrightarrow> length t < length s'"
    and M: "jsonMembers n s' = Some (ms, t) \<Longrightarrow> length t < length s'" for s' v vs ms t
    using Suc by blast+
  have value': "length t < length s" if r: "jsonValue (Suc n) s = Some (v, t)" for v t
  proof -
    obtain c u where s: "skipSpace s = c # u" using r by (simp split: list.splits)
    have len: "length u < length s" by (rule skipSpace_Cons [OF s])
    have "length t \<le> length u"
      using r s by (auto dest!: skipSpace_Cons E M readString_shorter readAtom_shorter split: list.splits if_splits)
    then show ?thesis using len by simp
  qed
  moreover have "length t < length s" if r: "jsonElems (Suc n) s = Some (vs, t)" for vs t
  proof -
    obtain v u where v: "jsonValue n s = Some (v, u)" using r by (simp split: option.splits prod.splits)
    then obtain c w where w: "skipSpace u = c # w" using r by (simp split: list.splits)
    have "length t \<le> length w" using r v w by (auto dest!: E split: if_splits)
    then show ?thesis using V [OF v] skipSpace_Cons [OF w] by simp
  qed
  moreover have "length t < length s" if r: "jsonMembers (Suc n) s = Some (ms, t)" for ms t
  proof -
    obtain c u where s: "skipSpace s = c # u" using r by (simp split: list.splits)
    then obtain k w where k: "readString u = Some (k, w)" using r by (auto split: option.splits if_splits)
    then obtain d x where x: "skipSpace w = d # x" using r s by (auto split: list.splits if_splits)
    then obtain v y where y: "jsonValue n x = Some (v, y)" using r s k by (auto split: option.splits if_splits)
    then obtain e z where z: "skipSpace y = e # z" using r s k x by (auto split: list.splits if_splits)
    have "length t \<le> length z" using r s k x y z by (auto dest!: M split: if_splits)
    then show ?thesis
      using skipSpace_Cons [OF s] readString_shorter [OF k] skipSpace_Cons [OF x] V [OF y] skipSpace_Cons [OF z] by linarith
  qed
  ultimately show ?case by blast
qed simp

text \<open>More fuel than twice the length makes no difference, so the reader never runs out of it.\<close>

lemma enough_fuel:
  "(2 * length s + 1 \<le> n \<longrightarrow> jsonValue (Suc n) s = jsonValue n s) \<and>
   (2 * length s + 2 \<le> n \<longrightarrow> jsonElems (Suc n) s = jsonElems n s) \<and>
   (2 * length s + 2 \<le> n \<longrightarrow> jsonMembers (Suc n) s = jsonMembers n s)"
proof (induction n arbitrary: s)
  case (Suc n)
  have V: "2 * length s' + 1 \<le> n \<Longrightarrow> jsonValue (Suc n) s' = jsonValue n s'"
    and E: "2 * length s' + 2 \<le> n \<Longrightarrow> jsonElems (Suc n) s' = jsonElems n s'"
    and M: "2 * length s' + 2 \<le> n \<Longrightarrow> jsonMembers (Suc n) s' = jsonMembers n s'" for s'
    using Suc by blast+
  have "jsonValue (Suc (Suc n)) s = jsonValue (Suc n) s" if le: "2 * length s + 1 \<le> Suc n"
  proof (cases "skipSpace s")
    case (Cons c t)
    have t: "length t < length s" by (rule skipSpace_Cons [OF Cons])
    show ?thesis
    proof (cases "skipSpace t")
      case Nil
      then show ?thesis using Cons by (simp add: jsonValue.simps(2))
    next
      case (Cons d u)
      have "length u < length t" by (rule skipSpace_Cons [OF Cons])
      then have "2 * length (d # u) + 2 \<le> n" using t le by simp
      from E [OF this] M [OF this] show ?thesis
        by (simp only: jsonValue.simps(2) \<open>skipSpace s = c # t\<close> Cons list.case)
    qed
  qed (simp add: jsonValue.simps(2))
  moreover have "jsonElems (Suc (Suc n)) s = jsonElems (Suc n) s" if le: "2 * length s + 2 \<le> Suc n"
  proof -
    have v: "jsonValue (Suc n) s = jsonValue n s" using le by (intro V) simp
    show ?thesis
    proof (cases "jsonValue n s")
      case (Some p)
      obtain x t where p: "p = (x, t)" by (cases p)
      have t: "length t < length s" using Some p shorter by blast
      show ?thesis
      proof (cases "skipSpace t")
        case (Cons c u)
        have "length u < length t" by (rule skipSpace_Cons [OF Cons])
        then have "jsonElems (Suc n) u = jsonElems n u" using t le by (intro E) simp
        then show ?thesis by (simp only: jsonElems.simps(2) v Some p option.case prod.case Cons list.case)
      qed (simp add: jsonElems.simps(2) v Some p del: jsonValue.simps)
    qed (simp add: jsonElems.simps(2) v del: jsonValue.simps)
  qed
  moreover have "jsonMembers (Suc (Suc n)) s = jsonMembers (Suc n) s" if le: "2 * length s + 2 \<le> Suc n"
  proof (cases "skipSpace s")
    case s: (Cons c t)
    have t: "length t < length s" by (rule skipSpace_Cons [OF s])
    show ?thesis
    proof (cases "readString t")
      case (Some p)
      obtain k u where p: "p = (k, u)" by (cases p)
      have u: "length u < length t" using readString_shorter Some p by blast
      show ?thesis
      proof (cases "skipSpace u")
        case w: (Cons d w)
        have "length w < length u" by (rule skipSpace_Cons [OF w])
        then have wl: "length w < length s" using t u by simp
        then have v: "jsonValue (Suc n) w = jsonValue n w" using le by (intro V) simp
        show ?thesis
        proof (cases "jsonValue n w")
          case q: (Some q)
          obtain x y where xy: "q = (x, y)" by (cases q)
          have y: "length y < length w" using q xy shorter by blast
          show ?thesis
          proof (cases "skipSpace y")
            case z: (Cons e z)
            have "length z < length y" by (rule skipSpace_Cons [OF z])
            then have "jsonMembers (Suc n) z = jsonMembers n z" using y wl le by (intro M) simp
            then show ?thesis
              by (simp only: jsonMembers.simps(2) s Some p w v q xy z option.case prod.case list.case)
          qed (simp add: jsonMembers.simps(2) s Some p w v q xy del: jsonValue.simps)
        qed (simp add: jsonMembers.simps(2) s Some p w v del: jsonValue.simps)
      qed (simp add: jsonMembers.simps(2) s Some p del: jsonValue.simps)
    qed (simp add: jsonMembers.simps(2) s del: jsonValue.simps)
  qed (simp add: jsonMembers.simps(2) del: jsonValue.simps)
  ultimately show ?case by blast
qed simp

lemma enough_fuel_all:
  assumes "2 * length s + 1 \<le> m" "m \<le> n"
  shows "jsonValue n s = jsonValue m s"
  using assms(2)
proof (induction n rule: dec_induct)
  case (step n)
  then show ?case using enough_fuel [of s n] assms(1) by simp
qed simp

lemma more_fuel:
  "(jsonValue n s = Some p \<longrightarrow> jsonValue (Suc n) s = Some p) \<and>
   (jsonElems n s = Some q \<longrightarrow> jsonElems (Suc n) s = Some q) \<and>
   (jsonMembers n s = Some r \<longrightarrow> jsonMembers (Suc n) s = Some r)"
proof (induction n arbitrary: s p q r)
  case (Suc n)
  have V: "jsonValue n s' = Some p' \<Longrightarrow> jsonValue (Suc n) s' = Some p'" and E: "jsonElems n s' = Some q' \<Longrightarrow> jsonElems (Suc n) s' = Some q'"
    and M: "jsonMembers n s' = Some r' \<Longrightarrow> jsonMembers (Suc n) s' = Some r'" for s' p' q' r'
    using Suc by blast+
  have "jsonValue (Suc (Suc n)) s = Some p" if "jsonValue (Suc n) s = Some p"
    using that unfolding jsonValue.simps(2)
    by (auto simp del: jsonElems.simps jsonMembers.simps split: list.splits if_splits dest: E M)
  moreover have "jsonElems (Suc (Suc n)) s = Some q" if r: "jsonElems (Suc n) s = Some q"
  proof -
    obtain v t where v: "jsonValue n s = Some (v, t)" using r by (simp split: option.splits prod.splits)
    show ?thesis
      using r by (subst (asm) jsonElems.simps(2), subst jsonElems.simps(2))
        (auto simp: v V [OF v] simp del: jsonElems.simps jsonValue.simps split: list.splits if_splits dest: E)
  qed
  moreover have "jsonMembers (Suc (Suc n)) s = Some r" if r: "jsonMembers (Suc n) s = Some r"
  proof -
    obtain c t where s: "skipSpace s = c # t" using r by (simp split: list.splits)
    then obtain k u where k: "readString t = Some (k, u)" using r by (auto split: option.splits if_splits)
    then obtain d w where w: "skipSpace u = d # w" using r s by (auto split: list.splits if_splits)
    then obtain v x where v: "jsonValue n w = Some (v, x)" using r s k by (auto split: option.splits if_splits)
    show ?thesis
      using r by (subst (asm) jsonMembers.simps(2), subst jsonMembers.simps(2))
        (auto simp: s k w v V [OF v] simp del: jsonMembers.simps jsonValue.simps split: list.splits if_splits dest: M)
  qed
  ultimately show ?case by blast
qed simp

lemma more_fuel_all: "jsonValue n s = Some p \<Longrightarrow> n \<le> m \<Longrightarrow> jsonValue m s = Some p"
proof -
  assume "jsonValue n s = Some p" "n \<le> m"
  from this(2,1) show ?thesis by (induction m rule: dec_induct) (use more_fuel in blast)+
qed

lemma readJSON_fuel: "jsonValue n s = Some (v, t) \<Longrightarrow> readJSON s = Some v"
proof -
  assume r: "jsonValue n s = Some (v, t)"
  let ?m = "2 * length s + 2"
  have "jsonValue (n + ?m) s = Some (v, t)" by (rule more_fuel_all [OF r]) simp
  then have "jsonValue ?m s = Some (v, t)" using enough_fuel_all [of s ?m "n + ?m"] by simp
  then show ?thesis by (simp add: readJSON_def)
qed

subsection \<open>What is read back of a value\<close>

text \<open>A value whose strings are UTF-8 and whose numbers are integers; one that is written on one line.\<close>

fun json_plain :: "json \<Rightarrow> bool" where
  "json_plain (JFloat lit) = False"
| "json_plain (JStr s) = valid_utf8 s"
| "json_plain (JArr vs) = list_all json_plain vs"
| "json_plain (JObj ms) = list_all (\<lambda>(k, v). valid_utf8 k \<and> json_plain v) ms"
| "json_plain v = True"

fun no_float :: "json \<Rightarrow> bool" where
  "no_float (JFloat lit) = False"
| "no_float (JArr vs) = list_all no_float vs"
| "no_float (JObj ms) = list_all (\<lambda>(k, v). no_float v) ms"
| "no_float v = True"

definition ends_number :: "string \<Rightarrow> bool" where
  "ends_number r \<longleftrightarrow> (case r of [] \<Rightarrow> True | c # _ \<Rightarrow> \<not> is_digit c \<and> c \<noteq> CHR ''.'' \<and> c \<noteq> CHR ''e'' \<and> c \<noteq> CHR ''E'')"

lemma ends_number_sep [simp]: "ends_number (CHR '','' # r)" "ends_number (CHR '']'' # r)" "ends_number (CHR ''}'' # r)"
    "ends_number (newline # r)" "ends_number []"
  by (simp_all add: ends_number_def is_digit_def newline_def)

lemma show_nat_all_digits: "list_all is_digit (show_nat n)"
  using show_nat_digits [of _ n] by (auto simp: list_all_iff is_digit_def)

lemma show_nat_not_Nil: "show_nat n \<noteq> []"
  by (subst show_nat.simps) simp

lemma digitsValue_show: "digitsValue (show_nat n) = n"
proof (induction n rule: show_nat.induct)
  case (1 n)
  show ?case
  proof (cases "n < 10")
    case True
    then have "of_char (digit_char n) = 48 + n" by (simp add: digit_char_def of_char_of)
    then show ?thesis using True by (subst show_nat.simps) (simp add: digitsValue_def)
  next
    case False
    have "of_char (digit_char (n mod 10)) = 48 + n mod 10"

    proof -
      have "n mod 10 < 10" by simp
      then show ?thesis by (simp add: digit_char_def of_char_of)
    qed
    moreover have "digitsValue (show_nat (n div 10)) = n div 10" by (rule 1 [OF False])
    ultimately show ?thesis using False by (subst show_nat.simps) (simp add: digitsValue_def)
  qed
qed

lemma show_nat_zero: "hd (show_nat n) = CHR ''0'' \<Longrightarrow> n = 0"
proof (induction n rule: show_nat.induct)
  case (1 n)
  show ?case
  proof (cases "n < 10")
    case True
    then have "digit_char n = CHR ''0''" using 1(2) by (subst (asm) show_nat.simps) simp
    then have "of_char (digit_char n) = (48 :: nat)" by simp
    then show ?thesis using True by (simp add: digit_char_def of_char_of)
  next
    case False
    then have "hd (show_nat (n div 10)) = CHR ''0''"
      using 1(2) show_nat_not_Nil by (subst (asm) show_nat.simps) simp
    then show ?thesis using 1(1) [OF False] False by simp
  qed
qed

lemma readIntPart_show: "ends_number r \<Longrightarrow> readIntPart (show_nat n @ r) = Some (show_nat n, r)"
proof -
  assume r: "ends_number r"
  obtain c t where ct: "show_nat n = c # t" using show_nat_not_Nil [of n] by (cases "show_nat n") auto
  show ?thesis
  proof (cases "c = CHR ''0''")
    case True
    then have "show_nat n = ''0''" using show_nat_zero [of n] ct by (simp add: show_nat.simps digit_char_def)
    then show ?thesis by (simp add: readIntPart_def)
  next
    case False
    have "list_all is_digit (c # t)" using show_nat_all_digits [of n] ct by simp
    moreover have "takeWhile is_digit r = []" "dropWhile is_digit r = r"
      using r by (cases r; simp add: ends_number_def)+
    ultimately have "takeWhile is_digit (c # t @ r) = c # t" "dropWhile is_digit (c # t @ r) = r"
      by (simp_all add: list_all_iff takeWhile_append2 dropWhile_append2)
    then show ?thesis using False ct by (simp add: readIntPart_def readDigits_def)
  qed
qed

lemma readNumber_show: "ends_number r \<Longrightarrow> readNumber (show_int i @ r) = Some (JNum i, r)"
proof -
  assume r: "ends_number r"
  have rest: "readFraction r = Some ([], r)" "readExponent r = Some ([], r)"
    using r by (cases r; simp add: ends_number_def readFraction_def readExponent_def)+
  have sign: "show_nat n @ r \<noteq> []" "hd (show_nat n @ r) \<noteq> CHR ''-''" for n
  proof -
    obtain c t where ct: "show_nat n = c # t" using show_nat_not_Nil [of n] by (cases "show_nat n") auto
    moreover have "is_digit c" using show_nat_all_digits [of n] ct by simp
    ultimately show "show_nat n @ r \<noteq> []" "hd (show_nat n @ r) \<noteq> CHR ''-''" by (auto simp: is_digit_def)
  qed
  show ?thesis
  proof (cases "i < 0")
    case True
    then show ?thesis using readIntPart_show [OF r, of "nat (- i)"] rest
      by (simp add: readNumber_def show_int_def Let_def digitsValue_show)
  next
    case False
    then show ?thesis using readIntPart_show [OF r, of "nat i"] rest sign [of "nat i"]
      by (simp add: readNumber_def show_int_def Let_def digitsValue_show)
  qed
qed

lemma json_plain_no_float: "json_plain v \<Longrightarrow> no_float v"
proof (induction v rule: json_plain.induct)
  case (3 vs)
  then show ?case by (auto simp: list_all_iff)
next
  case (4 ms)
  then show ?case by (force simp: list_all_iff)
qed simp_all

lemma skipSpace_fixed [simp]: "\<not> isSpaceByte c \<Longrightarrow> skipSpace (c # s) = c # s"
  by (simp add: skipSpace_def)

lemma not_space [simp]: "\<not> isSpaceByte (CHR '','')" "\<not> isSpaceByte (CHR '']'')" "\<not> isSpaceByte (CHR ''}'')" "\<not> isSpaceByte (CHR ''{'')"
    "\<not> isSpaceByte (CHR ''['')" "\<not> isSpaceByte (CHR '':'')" "\<not> isSpaceByte (CHR 0x22)"
  by (simp_all add: isSpaceByte_def)

text \<open>A way of writing a value is read back if a decoder finds the value again, whatever follows. White
  space before a value or between its parts changes nothing.\<close>

definition reads_as :: "(json \<Rightarrow> string) \<Rightarrow> json \<Rightarrow> bool" where
  "reads_as f v \<longleftrightarrow> (\<forall>r. ends_number r \<longrightarrow> (\<exists>n. jsonValue n (f v @ r) = Some (v, r)))"

lemma reads_asD: "reads_as f v \<Longrightarrow> ends_number r \<Longrightarrow> \<exists>n. jsonValue n (f v @ r) = Some (v, r)"
  by (simp add: reads_as_def)

abbreviation spaces :: "string \<Rightarrow> bool" where
  "spaces \<equiv> list_all isSpaceByte"

lemma skipSpace_spaces: "spaces z \<Longrightarrow> skipSpace (z @ s) = skipSpace s"
  by (induction z) (simp_all add: skipSpace_def)

lemma skipSpace_idem [simp]: "skipSpace (skipSpace s) = skipSpace s"
  by (simp add: skipSpace_def)

lemma read_spaces:
  assumes "spaces z"
  shows "jsonValue n (z @ s) = jsonValue n s" "jsonElems n (z @ s) = jsonElems n s" "jsonMembers n (z @ s) = jsonMembers n s"
proof -
  show v: "jsonValue n (z @ s) = jsonValue n s" for n by (cases n) (simp_all add: skipSpace_spaces [OF assms])
  show "jsonElems n (z @ s) = jsonElems n s" by (cases n) (simp_all add: v)
  show "jsonMembers n (z @ s) = jsonMembers n s" by (cases n) (simp_all add: skipSpace_spaces [OF assms])
qed

lemma read_skip: "jsonValue n (skipSpace s) = jsonValue n s" "jsonElems n (skipSpace s) = jsonElems n s"
    "jsonMembers n (skipSpace s) = jsonMembers n s"
proof -
  have "spaces (takeWhile isSpaceByte s)" by (auto simp: list_all_iff dest: set_takeWhileD)
  moreover have "takeWhile isSpaceByte s @ skipSpace s = s" by (simp add: skipSpace_def)
  ultimately show "jsonValue n (skipSpace s) = jsonValue n s" "jsonElems n (skipSpace s) = jsonElems n s"
      "jsonMembers n (skipSpace s) = jsonMembers n s"
    using read_spaces [of "takeWhile isSpaceByte s" n "skipSpace s"] by simp_all
qed

lemma ends_number_space: "isSpaceByte c \<Longrightarrow> ends_number (c # r)"
  by (auto simp: isSpaceByte_def ends_number_def is_digit_def)

lemma ends_number_spaces: "spaces u \<Longrightarrow> ends_number (c # r) \<Longrightarrow> ends_number (u @ c # r)"
  by (cases u) (simp_all add: ends_number_space)

lemma elems_fuel: "jsonElems n s = Some q \<Longrightarrow> jsonElems (n + m) s = Some q"
  by (induction m) (simp, use more_fuel in auto)

lemma members_fuel: "jsonMembers n s = Some q \<Longrightarrow> jsonMembers (n + m) s = Some q"
  by (induction m) (simp, use more_fuel in auto)

lemma readNumber_bracket: "readNumber (CHR '']'' # s) = None"
  by (simp add: readNumber_def readIntPart_def readDigits_def is_digit_def Let_def)

lemma array_reads:
  assumes "jsonElems n s = Some (vs, r)"
  shows "jsonValue (Suc n) (CHR ''['' # s) = Some (JArr vs, r)"
proof (cases "skipSpace s")
  case Nil
  then have "jsonElems n s = None" using read_skip(2) [of n s] by (cases n; cases "n - 1") simp_all
  then show ?thesis using assms by simp
next
  case (Cons d u)
  then have s: "jsonElems n (d # u) = Some (vs, r)" using assms read_skip(2) [of n s] by simp
  have "d \<noteq> CHR '']''"
  proof
    assume d: "d = CHR '']''"
    have "jsonValue m (CHR '']'' # u) = None" for m
      by (cases m) (simp_all add: readAtom_def readNumber_bracket)
    then have "jsonElems n (d # u) = None" using d by (cases n) simp_all
    then show False using s by simp
  qed
  then show ?thesis using Cons s by simp
qed

lemma object_reads:
  assumes "jsonMembers n s = Some (ms, r)"
  shows "jsonValue (Suc n) (CHR ''{'' # s) = Some (JObj ms, r)"
proof -
  obtain u where u: "skipSpace s = CHR 0x22 # u"
    using assms by (cases n; cases "skipSpace s") (auto split: if_splits)
  then have "jsonMembers n (CHR 0x22 # u) = Some (ms, r)" using assms read_skip(3) [of n s] by simp
  then show ?thesis using u by simp
qed

text \<open>The elements of an array and the members of an object, with \<open>w\<close> after a comma, \<open>x\<close> after a colon and
  \<open>u\<close> before the end.\<close>

lemma elems_back:
  assumes "\<forall>v \<in> set (v # vs). reads_as f v" "spaces w" "spaces u"
  shows "\<exists>n. jsonElems n (str_join ('','' @ w) (map f (v # vs)) @ u @ CHR '']'' # r) = Some (v # vs, r)"
  using assms(1)
proof (induction vs arbitrary: v)
  case Nil
  then obtain n where "jsonValue n (f v @ u @ CHR '']'' # r) = Some (v, u @ CHR '']'' # r)"
    using reads_asD [of f v "u @ CHR '']'' # r"] ends_number_spaces [OF assms(3)] by auto
  then have "jsonElems (Suc n) (str_join ('','' @ w) (map f [v]) @ u @ CHR '']'' # r) = Some ([v], r)"
    by (simp add: skipSpace_spaces [OF assms(3)])
  then show ?case by blast
next
  case (Cons v' vs)
  let ?rest = "str_join ('','' @ w) (map f (v' # vs)) @ u @ CHR '']'' # r"
  obtain n where n: "jsonElems n ?rest = Some (v' # vs, r)" using Cons by auto
  have "reads_as f v" using Cons.prems by simp
  then obtain m where m: "jsonValue m (f v @ CHR '','' # w @ ?rest) = Some (v, CHR '','' # w @ ?rest)"
    using reads_asD [of f v "CHR '','' # w @ ?rest"] by auto
  have n': "jsonElems (n + m) (w @ ?rest) = Some (v' # vs, r)" unfolding read_spaces [OF assms(2)] by (rule elems_fuel [OF n])
  have m': "jsonValue (n + m) (f v @ CHR '','' # w @ ?rest) = Some (v, CHR '','' # w @ ?rest)" by (rule more_fuel_all [OF m]) simp
  have "jsonElems (Suc (n + m)) (str_join ('','' @ w) (map f (v # v' # vs)) @ u @ CHR '']'' # r) = Some (v # v' # vs, r)"
    using m' n' by simp
  then show ?case by blast
qed

lemma member_back:
  assumes "valid_utf8 k" "spaces x" "jsonValue n (s @ t) = Some (v, t)"
  shows "jsonMembers (Suc n) (jsonString k @ CHR '':'' # x @ s @ t) =
    (case skipSpace t of [] \<Rightarrow> None | e # y \<Rightarrow>
       if e = CHR '','' then map_option (map_prod (Cons (k, v)) (\<lambda>r. r)) (jsonMembers n y)
       else if e = CHR ''}'' then Some ([(k, v)], y) else None)"
  using assms(3) readString_escape [OF assms(1)] by (simp add: jsonString_def read_spaces [OF assms(2)])

lemma members_back:
  assumes "\<forall>(k, v) \<in> set (p # ms). valid_utf8 k \<and> reads_as f v" "spaces w" "spaces x" "spaces u"
  shows "\<exists>n. jsonMembers n (str_join ('','' @ w) (map (\<lambda>(k, v). jsonString k @ CHR '':'' # x @ f v) (p # ms)) @ u @ CHR ''}'' # r) =
    Some (p # ms, r)"
  using assms(1)
proof (induction ms arbitrary: p)
  case Nil
  obtain k v where p: "p = (k, v)" by (cases p)
  then have "reads_as f v" using Nil by simp
  then obtain n where "jsonValue n (f v @ u @ CHR ''}'' # r) = Some (v, u @ CHR ''}'' # r)"
    using reads_asD [of f v "u @ CHR ''}'' # r"] ends_number_spaces [OF assms(4)] by auto
  from member_back [OF _ assms(3) this] show ?case
    using Nil p by (intro exI [of _ "Suc n"]) (simp add: skipSpace_spaces [OF assms(4)])
next
  case (Cons q ms)
  obtain k v where p: "p = (k, v)" by (cases p)
  let ?rest = "str_join ('','' @ w) (map (\<lambda>(k, v). jsonString k @ CHR '':'' # x @ f v) (q # ms)) @ u @ CHR ''}'' # r"
  have "\<forall>(k, v) \<in> set (q # ms). valid_utf8 k \<and> reads_as f v" using Cons.prems by simp
  from Cons.IH [OF this] obtain n where n: "jsonMembers n ?rest = Some (q # ms, r)" by blast
  have "reads_as f v" "valid_utf8 k" using Cons.prems p by simp_all
  then obtain m where m: "jsonValue m (f v @ CHR '','' # w @ ?rest) = Some (v, CHR '','' # w @ ?rest)"
    using reads_asD [of f v "CHR '','' # w @ ?rest"] by auto
  have n': "jsonMembers (n + m) (w @ ?rest) = Some (q # ms, r)" unfolding read_spaces [OF assms(2)] by (rule members_fuel [OF n])
  have m': "jsonValue (n + m) (f v @ CHR '','' # w @ ?rest) = Some (v, CHR '','' # w @ ?rest)" by (rule more_fuel_all [OF m]) simp
  have "jsonMembers (Suc (n + m)) (jsonString k @ CHR '':'' # x @ f v @ CHR '','' # w @ ?rest) = Some (p # q # ms, r)"
    unfolding member_back [OF \<open>valid_utf8 k\<close> assms(3) m'] using n' p by simp
  then show ?case using p by (intro exI [of _ "Suc (n + m)"]) simp
qed

text \<open>The values that have no parts.\<close>

lemma atom_reads:
  assumes "json_plain v" "\<And>vs. v \<noteq> JArr vs" "\<And>ms. v \<noteq> JObj ms"
  shows "reads_as jsonText v"
proof -
  have literal: "reads_as jsonText v" if "\<And>r. ends_number r \<Longrightarrow> jsonValue (Suc 0) (jsonText v @ r) = Some (v, r)" for v
    using that unfolding reads_as_def by blast
  have number: "jsonValue (Suc 0) (show_int i @ r) = Some (JNum i, r)" if "ends_number r" for i r
  proof -
    obtain c t where ct: "show_int i = c # t" "is_digit c \<or> c = CHR ''-''"
    proof (cases "i < 0")
      case True
      then show thesis using that by (simp add: show_int_def)
    next
      case False
      obtain c t where "show_nat (nat i) = c # t" using show_nat_not_Nil [of "nat i"] by (cases "show_nat (nat i)") auto
      then show thesis using that [of c t] show_nat_all_digits [of "nat i"] False by (simp add: show_int_def)
    qed
    then have "\<not> isSpaceByte c" "c \<noteq> CHR ''{''" "c \<noteq> CHR ''[''" "c \<noteq> CHR 0x22" "c \<noteq> CHR ''t''" "c \<noteq> CHR ''f''" "c \<noteq> CHR ''n''"
      by (auto simp: is_digit_def isSpaceByte_def)
    then show ?thesis using readNumber_show [OF that, of i] unfolding ct(1) by (simp add: readAtom_def)
  qed
  show ?thesis
  proof (cases v)
    case (JStr s)
    then show ?thesis using readString_escape assms(1) by (intro literal) (simp add: jsonString_def)
  next
    case (JNum i)
    then show ?thesis using number by (intro literal) simp
  qed (use assms in \<open>auto intro!: literal simp: readAtom_def readLiteral_def cut_prefix_def isSpaceByte_def\<close>)
qed

lemma empty_reads: "reads_as f (JArr [])" if "f (JArr []) = ''[]''" for f
  using that by (auto simp: reads_as_def intro!: exI [of _ "Suc 0"])

lemma empty_object_reads: "reads_as f (JObj [])" if "f (JObj []) = ''{}''" for f
  using that by (auto simp: reads_as_def intro!: exI [of _ "Suc 0"])

lemma json_reads_back: "json_plain v \<Longrightarrow> reads_as jsonText v"
proof (induction v rule: json_plain.induct)
  case (3 vs)
  show ?case
  proof (cases vs)
    case (Cons v' vs')
    then have all: "\<forall>v \<in> set (v' # vs'). reads_as jsonText v" using 3 by (auto simp: list_all_iff)
    show ?thesis unfolding reads_as_def
    proof (intro allI impI)
      fix r
      obtain n where "jsonElems n (str_join '','' (map jsonText vs) @ CHR '']'' # r) = Some (vs, r)"
        using elems_back [OF all, of "[]" "[]" r] Cons by auto
      from array_reads [OF this] show "\<exists>n. jsonValue n (jsonText (JArr vs) @ r) = Some (JArr vs, r)"
        by (intro exI [of _ "Suc n"]) simp
    qed
  qed (simp add: empty_reads)
next
  case (4 ms)
  show ?case
  proof (cases ms)
    case (Cons p ps)
    then have all: "\<forall>(k, v) \<in> set (p # ps). valid_utf8 k \<and> reads_as jsonText v" using 4 by (fastforce simp: list_all_iff)
    show ?thesis unfolding reads_as_def
    proof (intro allI impI)
      fix r
      obtain n where "jsonMembers n (str_join '','' (map (\<lambda>(k, v). jsonString k @ '':'' @ jsonText v) ms) @ CHR ''}'' # r) = Some (ms, r)"
        using members_back [OF all, of "[]" "[]" "[]" r] Cons by auto
      from object_reads [OF this] show "\<exists>n. jsonValue n (jsonText (JObj ms) @ r) = Some (JObj ms, r)"
        by (intro exI [of _ "Suc n"]) simp
    qed
  qed (simp add: empty_object_reads)
qed (simp_all add: atom_reads)

lemma indentLine_spaces: "spaces (indentLine d)"
  by (simp add: indentLine_def list_all_iff isSpaceByte_def newline_def)

lemma atom_indent:
  assumes "json_plain v" "\<And>vs. v \<noteq> JArr vs" "\<And>ms. v \<noteq> JObj ms"
  shows "reads_as (jsonIndent d) v"
proof -
  have "jsonIndent d v = jsonText v" by (cases v) (use assms(2,3) in \<open>blast | simp\<close>)+
  then show ?thesis using atom_reads [OF assms] by (simp add: reads_as_def)
qed

lemma indent_reads_back: "json_plain v \<Longrightarrow> reads_as (jsonIndent d) v"
proof (induction v arbitrary: d rule: json_plain.induct)
  case (3 vs)
  show ?case
  proof (cases vs)
    case (Cons v' vs')
    then have all: "\<forall>v \<in> set (v' # vs'). reads_as (jsonIndent (Suc d)) v" using 3 by (auto simp: list_all_iff)
    show ?thesis unfolding reads_as_def
    proof (intro allI impI)
      fix r
      obtain n where "jsonElems n (str_join ('','' @ indentLine (Suc d)) (map (jsonIndent (Suc d)) vs) @ indentLine d @ CHR '']'' # r) = Some (vs, r)"
        using elems_back [OF all indentLine_spaces indentLine_spaces] Cons by blast
      then have "jsonElems n (indentLine (Suc d) @ str_join ('','' @ indentLine (Suc d)) (map (jsonIndent (Suc d)) vs) @ indentLine d @ CHR '']'' # r) =
          Some (vs, r)"
        unfolding read_spaces [OF indentLine_spaces] .
      from array_reads [OF this] show "\<exists>n. jsonValue n (jsonIndent d (JArr vs) @ r) = Some (JArr vs, r)"
        using Cons by (intro exI [of _ "Suc n"]) simp
    qed
  qed (simp add: empty_reads)
next
  case (4 ms)
  show ?case
  proof (cases ms)
    case (Cons p ps)
    then have all: "\<forall>(k, v) \<in> set (p # ps). valid_utf8 k \<and> reads_as (jsonIndent (Suc d)) v" using 4 by (fastforce simp: list_all_iff)
    show ?thesis unfolding reads_as_def
    proof (intro allI impI)
      fix r
      let ?body = "str_join ('','' @ indentLine (Suc d)) (map (\<lambda>(k, v). jsonString k @ CHR '':'' # '' '' @ jsonIndent (Suc d) v) ms) @
        indentLine d @ CHR ''}'' # r"
      have "spaces '' ''" by (simp add: isSpaceByte_def)
      then obtain n where "jsonMembers n ?body = Some (ms, r)"
        using members_back [OF all indentLine_spaces _ indentLine_spaces] Cons by blast
      then have "jsonMembers n (indentLine (Suc d) @ ?body) = Some (ms, r)" unfolding read_spaces [OF indentLine_spaces] .
      from object_reads [OF this] show "\<exists>n. jsonValue n (jsonIndent d (JObj ms) @ r) = Some (JObj ms, r)"
        using Cons by (intro exI [of _ "Suc n"]) simp
    qed
  qed (simp add: empty_object_reads)
qed (simp_all add: atom_indent)

text \<open>A decoder reads back what an encoder wrote, whatever follows on the next line or in the stream.\<close>

lemma readJSON_text: "json_plain v \<Longrightarrow> ends_number r \<Longrightarrow> readJSON (jsonText v @ r) = Some v"
  using reads_asD [OF json_reads_back] readJSON_fuel by blast

lemma readJSON_indent: "json_plain v \<Longrightarrow> ends_number r \<Longrightarrow> readJSON (jsonIndent d v @ r) = Some v"
  using reads_asD [OF indent_reads_back] readJSON_fuel by blast

subsection \<open>Members\<close>

text \<open>A member that is left out when it is empty, and the JSON of a list of strings.\<close>

definition omitempty :: "string \<Rightarrow> bool \<Rightarrow> json \<Rightarrow> (string \<times> json) list" where
  "omitempty name absent v = (if absent then [] else [(name, v)])"

definition jsonStrings :: "string list \<Rightarrow> json" where
  "jsonStrings xs = JArr (map JStr xs)"

lemma omit_plain: "is_ascii k \<Longrightarrow> json_plain v \<Longrightarrow> list_all (\<lambda>(k, v). valid_utf8 k \<and> json_plain v) (omitempty k absent v)"
  by (simp add: omitempty_def ascii_valid)

lemma strings_plain: "list_all valid_utf8 xs \<Longrightarrow> json_plain (jsonStrings xs)"
  by (simp add: jsonStrings_def list_all_iff)

subsection \<open>One line\<close>

lemma hex_char_printable: "n < 16 \<Longrightarrow> \<not> of_char (hex_char n) < (0x20 :: nat)"
  by (auto simp: hex_char_def of_char_of)

lemma escapeByte_printable: "of_char c < (0x80 :: nat) \<Longrightarrow> d \<in> set (escapeByte c) \<Longrightarrow> \<not> of_char d < (0x20 :: nat)"
proof -
  assume c: "of_char c < (0x80 :: nat)" and d: "d \<in> set (escapeByte c)"
  have "of_char c div 16 < (16 :: nat)" "of_char c mod 16 < (16 :: nat)" using c by simp_all
  then have h: "\<not> of_char (hex_char (of_char c div 16)) < (0x20 :: nat)" "\<not> of_char (hex_char (of_char c mod 16)) < (0x20 :: nat)"
    using hex_char_printable by blast+
  show ?thesis
  proof (cases "c \<in> {CHR 0x22, CHR 0x5C, CHR 0x08, CHR 0x0C, CHR 0x0A, CHR 0x0D, CHR 0x09}")
    case True
    then show ?thesis using d by (elim insertE emptyE) (auto simp: escapeByte_def)
  next
    case False
    have "escapeByte c = (if of_char c < (0x20 :: nat) \<or> c = CHR ''<'' \<or> c = CHR ''>'' \<or> c = CHR ''&''
        then CHR 0x5C # ''u00'' @ [hex_char (of_char c div 16), hex_char (of_char c mod 16)] else [c])"
      using False unfolding escapeByte_def by simp
    then show ?thesis using d h by (auto split: if_splits)
  qed
qed

lemma decodeRune_printable:
  "decodeRune s = (r, n) \<Longrightarrow> s \<noteq> [] \<Longrightarrow> n \<noteq> 1 \<Longrightarrow> d \<in> set (take n s) \<Longrightarrow> \<not> of_char d < (0x20 :: nat)"
proof (cases rule: decodeRune_cases [of s])
  case (many c t m lo hi)
  assume s: "decodeRune s = (r, n)" and d: "d \<in> set (take n s)"
  then have n: "m = n" using many by simp
  note range = runeStart_range [OF many(3)]
  have "\<not> of_char x < (0x20 :: nat)" if "x \<in> set (take (n - 1) t)" for x
    using many(4) range that unfolding n by (cases "take (n - 1) t") (auto simp: contBytes_def list_all_iff)
  moreover have "d = c \<or> d \<in> set (take (n - 1) t)" using d many(1) by (cases n) auto
  ultimately show ?thesis using many(2) by auto
qed simp_all

lemma escapeJSON_printable: "d \<in> set (escapeJSON s) \<Longrightarrow> \<not> of_char d < (0x20 :: nat)"
proof (induction s rule: escapeJSON.induct)
  case (1 s)
  show ?case
  proof (cases s)
    case (Cons c t)
    obtain r n where rn: "decodeRune s = (r, n)" by fastforce
    show ?thesis
    proof (cases "of_char c < (0x80 :: nat)")
      case True
      then have "d \<in> set (escapeByte c) \<or> d \<in> set (escapeJSON t)" using 1(3) Cons by (subst (asm) escapeJSON.simps) auto
      then show ?thesis using escapeByte_printable [OF True] 1(1) [OF Cons True] by blast
    next
      case False
      have h: "\<not> of_char (hex_char (r mod 16)) < (0x20 :: nat)" by (rule hex_char_printable) simp
      have "d \<in> set (escapeJSON (drop n s)) \<or> d \<in> set (CHR 0x5C # ''ufffd'') \<or> d \<in> set (CHR 0x5C # ''u202'' @ [hex_char (r mod 16)]) \<or>
          n \<noteq> 1 \<and> d \<in> set (take n s)"
        using 1(3) Cons False rn by (subst (asm) escapeJSON.simps) (auto split: if_splits)
      then show ?thesis using 1(2) [OF Cons False rn [symmetric]] decodeRune_printable [OF rn] Cons h by auto
    qed
  qed (use 1(3) in simp)
qed

lemma newline_small: "of_char newline < (0x20 :: nat)"
  by (simp add: newline_def)

lemma jsonString_one_line: "newline \<notin> set (jsonString s)"
  using escapeJSON_printable [of newline s] newline_small by (auto simp: jsonString_def newline_def)

lemma show_int_one_line: "newline \<notin> set (show_int i)"
proof -
  have "newline \<notin> set (show_nat n)" for n using show_nat_digits [of newline n] newline_small by auto
  then show ?thesis by (simp add: show_int_def newline_def)
qed

text \<open>Whatever bytes its strings have, a value is written on one line.\<close>

lemma jsonText_one_line: "no_float v \<Longrightarrow> newline \<notin> set (jsonText v)"
proof (induction v rule: no_float.induct)
  case (2 vs)
  then have "newline \<notin> set (str_join '','' (map jsonText vs))"
    using str_join_set [of "'',''" "map jsonText vs"] by (fastforce simp: list_all_iff newline_def)
  then show ?case by (simp add: newline_def)
next
  case (3 ms)
  have "newline \<notin> set (jsonString k @ '':'' @ jsonText v)" if "(k, v) \<in> set ms" for k v
    using 3 that jsonString_one_line [of k] by (auto simp: list_all_iff newline_def)
  then have "newline \<notin> set (str_join '','' (map (\<lambda>(k, v). jsonString k @ '':'' @ jsonText v) ms))"
    using str_join_set [of "'',''" "map (\<lambda>(k, v). jsonString k @ '':'' @ jsonText v) ms"] by (fastforce simp: newline_def)
  then show ?case by (simp add: newline_def)
qed (simp_all add: newline_def jsonString_one_line [unfolded newline_def] show_int_one_line [unfolded newline_def])

end
