(* ===== verification/Control_Wire.thy ===== *)
theory Control_Wire
  imports Json Control_Client
begin

text \<open>
  The two ends of the control socket with the JSON they really speak: the wire types of
  \<open>control/protocol.go\<close> with their tags, the strict decoder of the server and the lenient one of the
  client. This instantiates the parameters \<open>decoders\<close> and \<open>codec\<close> of the other theories. A decoder
  goes on after a field it cannot use and reports the first such error at the end, as Go's does.
  The text of a syntax error and the quoting of a key outside ASCII are arguments.
\<close>

subsection \<open>Decoding into a struct\<close>

record json_lib =
  jl_syntax :: "string \<Rightarrow> go_error"
  jl_quote :: "string \<Rightarrow> string"

definition jsonKind :: "json \<Rightarrow> string" where
  "jsonKind v = (case v of JNull \<Rightarrow> ''null'' | JBool _ \<Rightarrow> ''bool'' | JNum _ \<Rightarrow> ''number'' | JFloat _ \<Rightarrow> ''number''
     | JStr _ \<Rightarrow> ''string'' | JArr _ \<Rightarrow> ''array'' | JObj _ \<Rightarrow> ''object'')"

text \<open>Where a value is decoded into: the struct and the path of field names.\<close>

type_synonym json_ctx = "string \<times> string list"

definition typeError :: "json_ctx \<Rightarrow> string \<Rightarrow> string \<Rightarrow> go_error" where
  "typeError ctx value ty =
     (if snd ctx = [] then Errorf ''json: cannot unmarshal %s into Go value of type %s'' [Str value, Str ty]
      else Errorf ''json: cannot unmarshal %s into Go struct field %s.%s of type %s''
        [Str value, Str (fst ctx), Str (str_join ''.'' (snd ctx)), Str ty])"

type_synonym 'a decoder = "json_ctx \<Rightarrow> json \<Rightarrow> 'a \<Rightarrow> go_error option \<times> 'a"

definition decodeString :: "string decoder" where
  "decodeString ctx v old = (case v of JStr s \<Rightarrow> (None, s) | JNull \<Rightarrow> (None, old)
     | _ \<Rightarrow> (Some (typeError ctx (jsonKind v) ''string''), old))"

definition decodeBool :: "bool decoder" where
  "decodeBool ctx v old = (case v of JBool b \<Rightarrow> (None, b) | JNull \<Rightarrow> (None, old)
     | _ \<Rightarrow> (Some (typeError ctx (jsonKind v) ''bool''), old))"

definition is_int64 :: "int \<Rightarrow> bool" where
  "is_int64 i \<longleftrightarrow> - 9223372036854775808 \<le> i \<and> i \<le> 9223372036854775807"

definition decodeInt64 :: "int decoder" where
  "decodeInt64 ctx v old = (case v of
     JNum i \<Rightarrow> if is_int64 i then (None, i) else (Some (typeError ctx (''number '' @ show_int i) ''int64''), old)
   | JFloat lit \<Rightarrow> (Some (typeError ctx (''number '' @ lit) ''int64''), old)
   | JNull \<Rightarrow> (None, old)
   | _ \<Rightarrow> (Some (typeError ctx (jsonKind v) ''int64''), old))"

definition first_of :: "go_error option \<Rightarrow> go_error option \<Rightarrow> go_error option" where
  "first_of e f = (case e of Some _ \<Rightarrow> e | None \<Rightarrow> f)"

text \<open>An element of an array is decoded over the element that was there, if there was one.\<close>

fun decodeElems :: "'a decoder \<Rightarrow> 'a \<Rightarrow> json_ctx \<Rightarrow> json list \<Rightarrow> 'a list \<Rightarrow> go_error option \<times> 'a list" where
  "decodeElems dec zero ctx [] olds = (None, [])"
| "decodeElems dec zero ctx (v # vs) olds =
     (case dec ctx v (case olds of [] \<Rightarrow> zero | old # _ \<Rightarrow> old) of (e, x) \<Rightarrow>
       (case decodeElems dec zero ctx vs (tl olds) of (f, xs) \<Rightarrow> (first_of e f, x # xs)))"

definition decodeList :: "'a decoder \<Rightarrow> 'a \<Rightarrow> string \<Rightarrow> 'a list decoder" where
  "decodeList dec zero ty ctx v olds = (case v of
     JArr vs \<Rightarrow> decodeElems dec zero ctx vs olds
   | JNull \<Rightarrow> (None, [])
   | _ \<Rightarrow> (Some (typeError ctx (jsonKind v) ty), olds))"

text \<open>Field names are matched exactly or else without regard to case, also for the two letters outside
  ASCII that fold to one inside.\<close>

function foldName :: "string \<Rightarrow> string" where
  "foldName s = (case s of [] \<Rightarrow> [] | c # t \<Rightarrow>
     if c = CHR 0xC5 \<and> take 1 t = [CHR 0xBF] then CHR ''s'' # foldName (drop 1 t)
     else if c = CHR 0xE2 \<and> take 2 t = [CHR 0x84, CHR 0xAA] then CHR ''k'' # foldName (drop 2 t)
     else lower_byte c # foldName t)"
  by pat_completeness auto
termination by (relation "measure length") auto

declare foldName.simps [simp del]

type_synonym 'a fields = "(string \<times> 'a decoder) list"

definition findField :: "'a fields \<Rightarrow> string \<Rightarrow> (string \<times> 'a decoder) option" where
  "findField fs k = (case map_of fs k of
     Some dec \<Rightarrow> Some (k, dec)
   | None \<Rightarrow> find (\<lambda>(name, _). foldName name = foldName k) fs)"

definition unknownField :: "json_lib \<Rightarrow> string \<Rightarrow> go_error" where
  "unknownField lib k = Errorf ''json: unknown field %s'' [Str (goQuote (jl_quote lib) k)]"

fun decodeMembers ::
  "json_lib \<Rightarrow> bool \<Rightarrow> string \<Rightarrow> 'a fields \<Rightarrow> string list \<Rightarrow> (string \<times> json) list \<Rightarrow> 'a \<Rightarrow> go_error option \<times> 'a" where
  "decodeMembers lib strict st fs path [] x = (None, x)"
| "decodeMembers lib strict st fs path ((k, v) # ms) x =
     (case findField fs k of
        None \<Rightarrow> (case decodeMembers lib strict st fs path ms x of (f, y) \<Rightarrow>
          (first_of (if strict then Some (unknownField lib k) else None) f, y))
      | Some (name, dec) \<Rightarrow> (case dec (st, path @ [name]) v x of (e, y) \<Rightarrow>
          (case decodeMembers lib strict st fs path ms y of (f, z) \<Rightarrow> (first_of e f, z))))"

definition decodeStruct :: "json_lib \<Rightarrow> bool \<Rightarrow> string \<Rightarrow> 'a fields \<Rightarrow> 'a decoder" where
  "decodeStruct lib strict st fs ctx v x = (case v of
     JObj ms \<Rightarrow> decodeMembers lib strict st fs (snd ctx) ms x
   | JNull \<Rightarrow> (None, x)
   | _ \<Rightarrow> (Some (typeError ctx (jsonKind v) (''control.'' @ st)), x))"

text \<open>A field of a struct is decoded by what decodes its type.\<close>

definition fieldOf :: "('a \<Rightarrow> 'b) \<Rightarrow> ('b \<Rightarrow> 'a \<Rightarrow> 'a) \<Rightarrow> 'b decoder \<Rightarrow> 'a decoder" where
  "fieldOf get put dec ctx v x = (case dec ctx v (get x) of (e, y) \<Rightarrow> (e, put y x))"

definition decodeText :: "json_lib \<Rightarrow> 'a decoder \<Rightarrow> 'a \<Rightarrow> string \<Rightarrow> go_error + 'a" where
  "decodeText lib dec zero body = (case readJSON body of
     None \<Rightarrow> Inl (jl_syntax lib body)
   | Some v \<Rightarrow> (case dec ('''', []) v zero of (Some err, _) \<Rightarrow> Inl err | (None, x) \<Rightarrow> Inr x))"

subsection \<open>The wire types\<close>

definition grantJson :: "grant_request \<Rightarrow> json" where
  "grantJson g = JObj (omitempty ''name'' (gr_name g = '''') (JStr (gr_name g)) @
     [(''host_pattern'', JStr (gr_hostPattern g)), (''credential_ref'', JStr (gr_credentialRef g)),
      (''auth_strategy'', JStr (gr_authStrategy g))] @
     omitempty ''header_name'' (gr_headerName g = '''') (JStr (gr_headerName g)) @
     omitempty ''placeholder'' (gr_placeholder g = '''') (JStr (gr_placeholder g)) @
     omitempty ''allowed_methods'' (gr_allowedMethods g = []) (jsonStrings (gr_allowedMethods g)) @
     omitempty ''allowed_paths'' (gr_allowedPaths g = []) (jsonStrings (gr_allowedPaths g)) @
     omitempty ''max_body_bytes'' (gr_maxBodyBytes g = 0) (JNum (gr_maxBodyBytes g)))"

definition decodeStrings :: "string list decoder" where
  "decodeStrings = decodeList decodeString '''' ''[]string''"

definition grantFields :: "grant_request fields" where
  "grantFields =
     [(''name'', fieldOf gr_name (\<lambda>v g. g\<lparr>gr_name := v\<rparr>) decodeString),
      (''host_pattern'', fieldOf gr_hostPattern (\<lambda>v g. g\<lparr>gr_hostPattern := v\<rparr>) decodeString),
      (''credential_ref'', fieldOf gr_credentialRef (\<lambda>v g. g\<lparr>gr_credentialRef := v\<rparr>) decodeString),
      (''auth_strategy'', fieldOf gr_authStrategy (\<lambda>v g. g\<lparr>gr_authStrategy := v\<rparr>) decodeString),
      (''header_name'', fieldOf gr_headerName (\<lambda>v g. g\<lparr>gr_headerName := v\<rparr>) decodeString),
      (''placeholder'', fieldOf gr_placeholder (\<lambda>v g. g\<lparr>gr_placeholder := v\<rparr>) decodeString),
      (''allowed_methods'', fieldOf gr_allowedMethods (\<lambda>v g. g\<lparr>gr_allowedMethods := v\<rparr>) decodeStrings),
      (''allowed_paths'', fieldOf gr_allowedPaths (\<lambda>v g. g\<lparr>gr_allowedPaths := v\<rparr>) decodeStrings),
      (''max_body_bytes'', fieldOf gr_maxBodyBytes (\<lambda>v g. g\<lparr>gr_maxBodyBytes := v\<rparr>) decodeInt64)]"

definition zeroGrant :: grant_request where
  "zeroGrant = \<lparr>gr_name = '''', gr_hostPattern = '''', gr_credentialRef = '''', gr_authStrategy = '''', gr_headerName = '''',
     gr_placeholder = '''', gr_allowedMethods = [], gr_allowedPaths = [], gr_maxBodyBytes = 0\<rparr>"

definition revokeJson :: "string \<Rightarrow> json" where
  "revokeJson host = JObj [(''host_pattern'', JStr host)]"

definition revokeFields :: "string fields" where
  "revokeFields = [(''host_pattern'', fieldOf (\<lambda>h. h) (\<lambda>v _. v) decodeString)]"

text \<open>\<open>decodeJSON\<close>: strict, so a field that is not in the wire type is an error.\<close>

definition decodeJSON :: "json_lib \<Rightarrow> string \<Rightarrow> 'a fields \<Rightarrow> 'a \<Rightarrow> string \<Rightarrow> go_error + 'a" where
  "decodeJSON lib st fs zero body = decodeText lib (decodeStruct lib True st fs) zero body"

definition wireDecoders :: "json_lib \<Rightarrow> decoders" where
  "wireDecoders lib = \<lparr>dec_grant = decodeJSON lib ''GrantRequest'' grantFields zeroGrant,
     dec_revoke = decodeJSON lib ''RevokeRequest'' revokeFields ''''\<rparr>"

subsection \<open>The responses\<close>

definition policyJson :: "policy_view \<Rightarrow> json" where
  "policyJson p = JObj (omitempty ''allowed_methods'' (pv_allowedMethods p = []) (jsonStrings (pv_allowedMethods p)) @
     omitempty ''allowed_paths'' (pv_allowedPaths p = []) (jsonStrings (pv_allowedPaths p)) @
     omitempty ''max_body_bytes'' (pv_maxBodyBytes p = 0) (JNum (pv_maxBodyBytes p)))"

definition serviceJson :: "service_view \<Rightarrow> json" where
  "serviceJson s = JObj ([(''name'', JStr (sv_name s)), (''host_pattern'', JStr (sv_hostPattern s)),
      (''credential_ref'', JStr (sv_credentialRef s)), (''auth_strategy'', JStr (sv_authStrategy s))] @
     omitempty ''header_name'' (sv_headerName s = '''') (JStr (sv_headerName s)) @
     omitempty ''placeholder'' (sv_placeholder s = '''') (JStr (sv_placeholder s)) @
     [(''scope'', policyJson (sv_scope s))])"

definition pairingJson :: "pairing_view \<Rightarrow> json" where
  "pairingJson p = JObj [(''credential_ref'', JStr (pw_credentialRef p)), (''host_pattern'', JStr (pw_hostPattern p)),
     (''auth_strategy'', JStr (pw_authStrategy p)), (''max_bound'', policyJson (pw_maxBound p))]"

text \<open>The body of a response; the page of the 404 is the library's.\<close>

definition bodyJson :: "control_body \<Rightarrow> json" where
  "bodyJson b = (case b of
     GrantBody v \<Rightarrow> JObj [(''service'', serviceJson v)]
   | RevokeBody h r \<Rightarrow> JObj [(''host_pattern'', JStr h), (''revoked'', JBool r)]
   | ListBody vs \<Rightarrow> JObj [(''services'', JArr (map serviceJson vs))]
   | ListGrantableBody ps \<Rightarrow> JObj [(''pairings'', JArr (map pairingJson ps))]
   | ErrorBody err \<Rightarrow> JObj [(''error'', JStr (error_text err))]
   | NotFoundPage \<Rightarrow> JNull)"

definition writeJSON :: "control_body \<Rightarrow> string" where
  "writeJSON b = (case b of NotFoundPage \<Rightarrow> ''404 page not found'' | _ \<Rightarrow> jsonText (bodyJson b)) @ [newline]"

definition policyFields :: "policy_view fields" where
  "policyFields =
     [(''allowed_methods'', fieldOf pv_allowedMethods (\<lambda>v p. p\<lparr>pv_allowedMethods := v\<rparr>) decodeStrings),
      (''allowed_paths'', fieldOf pv_allowedPaths (\<lambda>v p. p\<lparr>pv_allowedPaths := v\<rparr>) decodeStrings),
      (''max_body_bytes'', fieldOf pv_maxBodyBytes (\<lambda>v p. p\<lparr>pv_maxBodyBytes := v\<rparr>) decodeInt64)]"

definition zeroPolicy :: policy_view where
  "zeroPolicy = \<lparr>pv_allowedMethods = [], pv_allowedPaths = [], pv_maxBodyBytes = 0\<rparr>"

definition decodePolicy :: "json_lib \<Rightarrow> policy_view decoder" where
  "decodePolicy lib = decodeStruct lib False ''PolicyView'' policyFields"

definition serviceFields :: "json_lib \<Rightarrow> service_view fields" where
  "serviceFields lib =
     [(''name'', fieldOf sv_name (\<lambda>v s. s\<lparr>sv_name := v\<rparr>) decodeString),
      (''host_pattern'', fieldOf sv_hostPattern (\<lambda>v s. s\<lparr>sv_hostPattern := v\<rparr>) decodeString),
      (''credential_ref'', fieldOf sv_credentialRef (\<lambda>v s. s\<lparr>sv_credentialRef := v\<rparr>) decodeString),
      (''auth_strategy'', fieldOf sv_authStrategy (\<lambda>v s. s\<lparr>sv_authStrategy := v\<rparr>) decodeString),
      (''header_name'', fieldOf sv_headerName (\<lambda>v s. s\<lparr>sv_headerName := v\<rparr>) decodeString),
      (''placeholder'', fieldOf sv_placeholder (\<lambda>v s. s\<lparr>sv_placeholder := v\<rparr>) decodeString),
      (''scope'', fieldOf sv_scope (\<lambda>v s. s\<lparr>sv_scope := v\<rparr>) (decodePolicy lib))]"

definition zeroService :: service_view where
  "zeroService = \<lparr>sv_name = '''', sv_hostPattern = '''', sv_credentialRef = '''', sv_authStrategy = '''', sv_headerName = '''',
     sv_placeholder = '''', sv_scope = zeroPolicy\<rparr>"

definition decodeService :: "json_lib \<Rightarrow> service_view decoder" where
  "decodeService lib = decodeStruct lib False ''ServiceView'' (serviceFields lib)"

definition pairingFields :: "json_lib \<Rightarrow> pairing_view fields" where
  "pairingFields lib =
     [(''credential_ref'', fieldOf pw_credentialRef (\<lambda>v p. p\<lparr>pw_credentialRef := v\<rparr>) decodeString),
      (''host_pattern'', fieldOf pw_hostPattern (\<lambda>v p. p\<lparr>pw_hostPattern := v\<rparr>) decodeString),
      (''auth_strategy'', fieldOf pw_authStrategy (\<lambda>v p. p\<lparr>pw_authStrategy := v\<rparr>) decodeString),
      (''max_bound'', fieldOf pw_maxBound (\<lambda>v p. p\<lparr>pw_maxBound := v\<rparr>) (decodePolicy lib))]"

definition zeroPairing :: pairing_view where
  "zeroPairing = \<lparr>pw_credentialRef = '''', pw_hostPattern = '''', pw_authStrategy = '''', pw_maxBound = zeroPolicy\<rparr>"

definition decodePairing :: "json_lib \<Rightarrow> pairing_view decoder" where
  "decodePairing lib = decodeStruct lib False ''PairingView'' (pairingFields lib)"

text \<open>A result struct with one member.\<close>

definition decodeResult :: "json_lib \<Rightarrow> string \<Rightarrow> string \<Rightarrow> 'a decoder \<Rightarrow> 'a \<Rightarrow> string \<Rightarrow> go_error + 'a" where
  "decodeResult lib st name dec zero resp =
     decodeText lib (decodeStruct lib False st [(name, fieldOf (\<lambda>x. x) (\<lambda>v _. v) dec)]) zero resp"

definition revokedFields :: "(string \<times> bool) fields" where
  "revokedFields = [(''host_pattern'', fieldOf fst (\<lambda>v p. (v, snd p)) decodeString),
     (''revoked'', fieldOf snd (\<lambda>v p. (fst p, v)) decodeBool)]"

definition wireCodec :: "json_lib \<Rightarrow> codec" where
  "wireCodec lib = \<lparr>cd_marshalGrant = (\<lambda>g. Inr (jsonText (grantJson g))), cd_marshalRevoke = (\<lambda>h. Inr (jsonText (revokeJson h))),
     cd_encode = writeJSON,
     cd_error = (\<lambda>resp. case decodeResult lib ''errorBody'' ''error'' decodeString '''' resp of Inl _ \<Rightarrow> None | Inr msg \<Rightarrow> Some msg),
     cd_grant = decodeResult lib ''GrantResult'' ''service'' (decodeService lib) zeroService,
     cd_revoke = decodeText lib (decodeStruct lib False ''RevokeResult'' revokedFields) ('''', False),
     cd_list = decodeResult lib ''ListResult'' ''services'' (decodeList (decodeService lib) zeroService ''[]control.ServiceView'') [],
     cd_listGrantable =
       decodeResult lib ''ListGrantableResult'' ''pairings'' (decodeList (decodePairing lib) zeroPairing ''[]control.PairingView'') []\<rparr>"

subsection \<open>What was encoded is decoded\<close>

lemma first_of_None [simp]: "first_of None e = e" "first_of e None = e"
  by (simp_all add: first_of_def split: option.split)

lemma decodeMembers_append:
  "decodeMembers lib strict st fs path (ms @ ms') x = (case decodeMembers lib strict st fs path ms x of (e, y) \<Rightarrow>
     (case decodeMembers lib strict st fs path ms' y of (f, z) \<Rightarrow> (first_of e f, z)))"
  by (induction ms arbitrary: x) (auto simp: first_of_def split: prod.splits option.splits)

lemma decodeMembers_one:
  "findField fs k = Some (k, fieldOf get put dec) \<Longrightarrow> dec (st, path @ [k]) v (get x) = (None, val) \<Longrightarrow>
     decodeMembers lib strict st fs path [(k, v)] x = (None, put val x)"
  by (simp add: fieldOf_def)

lemma decodeMembers_more:
  "findField fs k = Some (k, fieldOf get put dec) \<Longrightarrow> dec (st, path @ [k]) v (get x) = (None, val) \<Longrightarrow>
     decodeMembers lib strict st fs path ((k, v) # ms) x = decodeMembers lib strict st fs path ms (put val x)"
  by (simp add: fieldOf_def split: prod.splits)

lemma decodeMembers_omit:
  "findField fs k = Some (k, fieldOf get put dec) \<Longrightarrow> dec (st, path @ [k]) v (get x) = (None, val) \<Longrightarrow> (absent \<Longrightarrow> put val x = x) \<Longrightarrow>
     decodeMembers lib strict st fs path (omitempty k absent v @ ms) x = decodeMembers lib strict st fs path ms (put val x)"
  by (simp add: omitempty_def fieldOf_def split: prod.splits)

lemma decodeMembers_omit_last:
  "findField fs k = Some (k, fieldOf get put dec) \<Longrightarrow> dec (st, path @ [k]) v (get x) = (None, val) \<Longrightarrow> (absent \<Longrightarrow> put val x = x) \<Longrightarrow>
     decodeMembers lib strict st fs path (omitempty k absent v) x = (None, put val x)"
  using decodeMembers_omit [of fs k get put dec st path v x val absent lib strict "[]"] by simp

lemma decodeElems_all:
  "(\<And>v x. v \<in> set vs \<Longrightarrow> dec ctx v x = (None, f v)) \<Longrightarrow> decodeElems dec zero ctx vs olds = (None, map f vs)"
  by (induction vs arbitrary: olds) simp_all

lemma decodeElems_new:
  "(\<And>v. v \<in> set vs \<Longrightarrow> dec ctx (g v) zero = (None, v)) \<Longrightarrow> decodeElems dec zero ctx (map g vs) [] = (None, vs)"
  by (induction vs) simp_all

lemma decodeStrings_new: "decodeStrings ctx (jsonStrings xs) [] = (None, xs)"
  by (simp add: decodeStrings_def decodeList_def jsonStrings_def decodeElems_new decodeString_def)

lemma decodeString_new: "decodeString ctx (JStr s) old = (None, s)"
  by (simp add: decodeString_def)

lemma decodeInt64_new: "is_int64 i \<Longrightarrow> decodeInt64 ctx (JNum i) old = (None, i)"
  by (simp add: decodeInt64_def)

lemmas decode_new = decodeString_new decodeStrings_new

text \<open>Each member in turn: one that is always there, one that is left out when it is empty.\<close>

lemma decode_grant:
  assumes "is_int64 (gr_maxBodyBytes g)"
  shows "decodeStruct lib strict st grantFields ctx (grantJson g) zeroGrant = (None, g)"
  unfolding decodeStruct_def grantJson_def json.case
  apply (subst decodeMembers_omit, simp add: findField_def grantFields_def, rule decodeString_new, simp add: zeroGrant_def)
  apply (simp only: append.simps)
  apply (subst decodeMembers_more, simp add: findField_def grantFields_def, rule decodeString_new)+
  apply (subst decodeMembers_omit, simp add: findField_def grantFields_def, simp add: zeroGrant_def decode_new, simp add: zeroGrant_def)+
  apply (subst decodeMembers_omit_last, simp add: findField_def grantFields_def, rule decodeInt64_new [OF assms])
  apply (simp_all add: zeroGrant_def)
  done

lemma decode_revoke: "decodeStruct lib strict st revokeFields ctx (revokeJson h) '''' = (None, h)"
  by (simp add: decodeStruct_def revokeJson_def findField_def revokeFields_def fieldOf_def decodeString_new)

lemma decode_policy:
  assumes "is_int64 (pv_maxBodyBytes p)"
  shows "decodePolicy lib ctx (policyJson p) zeroPolicy = (None, p)"
  unfolding decodePolicy_def decodeStruct_def policyJson_def json.case
  apply (subst decodeMembers_omit, simp add: findField_def policyFields_def, simp add: zeroPolicy_def decode_new, simp add: zeroPolicy_def)+
  apply (subst decodeMembers_omit_last, simp add: findField_def policyFields_def, rule decodeInt64_new [OF assms])
  apply (simp_all add: zeroPolicy_def)
  done

lemma decode_service:
  assumes "is_int64 (pv_maxBodyBytes (sv_scope s))"
  shows "decodeService lib ctx (serviceJson s) zeroService = (None, s)"
  unfolding decodeService_def decodeStruct_def serviceJson_def json.case
  apply (simp only: append.simps)
  apply (subst decodeMembers_more, simp add: findField_def serviceFields_def, rule decodeString_new)+
  apply (subst decodeMembers_omit, simp add: findField_def serviceFields_def, rule decodeString_new, simp add: zeroService_def)+
  apply (subst decodeMembers_one, simp add: findField_def serviceFields_def, simp add: zeroService_def decode_policy [OF assms])
  apply (simp add: zeroService_def)
  done

lemma decode_pairing:
  assumes "is_int64 (pv_maxBodyBytes (pw_maxBound p))"
  shows "decodePairing lib ctx (pairingJson p) zeroPairing = (None, p)"
  unfolding decodePairing_def decodeStruct_def pairingJson_def json.case
  apply (subst decodeMembers_more, simp add: findField_def pairingFields_def, rule decodeString_new)+
  apply (subst decodeMembers_one, simp add: findField_def pairingFields_def, simp add: zeroPairing_def decode_policy [OF assms])
  apply (simp add: zeroPairing_def)
  done

text \<open>What may go over the wire: UTF-8 strings and 64-bit integers.\<close>

definition policy_wire :: "policy_view \<Rightarrow> bool" where
  "policy_wire p \<longleftrightarrow> list_all valid_utf8 (pv_allowedMethods p) \<and> list_all valid_utf8 (pv_allowedPaths p) \<and> is_int64 (pv_maxBodyBytes p)"

definition service_wire :: "service_view \<Rightarrow> bool" where
  "service_wire s \<longleftrightarrow> list_all valid_utf8 [sv_name s, sv_hostPattern s, sv_credentialRef s, sv_authStrategy s, sv_headerName s, sv_placeholder s] \<and>
     policy_wire (sv_scope s)"

definition pairing_wire :: "pairing_view \<Rightarrow> bool" where
  "pairing_wire p \<longleftrightarrow> list_all valid_utf8 [pw_credentialRef p, pw_hostPattern p, pw_authStrategy p] \<and> policy_wire (pw_maxBound p)"

definition request_wire :: "grant_request \<Rightarrow> bool" where
  "request_wire g \<longleftrightarrow> list_all valid_utf8 [gr_name g, gr_hostPattern g, gr_credentialRef g, gr_authStrategy g, gr_headerName g, gr_placeholder g] \<and>
     list_all valid_utf8 (gr_allowedMethods g) \<and> list_all valid_utf8 (gr_allowedPaths g) \<and> is_int64 (gr_maxBodyBytes g)"

definition body_wire :: "control_body \<Rightarrow> bool" where
  "body_wire b \<longleftrightarrow> (case b of GrantBody v \<Rightarrow> service_wire v | RevokeBody h _ \<Rightarrow> valid_utf8 h | ListBody vs \<Rightarrow> list_all service_wire vs
     | ListGrantableBody ps \<Rightarrow> list_all pairing_wire ps | ErrorBody err \<Rightarrow> valid_utf8 (error_text err) | NotFoundPage \<Rightarrow> True)"

lemmas plain_intros = omit_plain strings_plain ascii_valid

lemma policy_plain: "policy_wire p \<Longrightarrow> json_plain (policyJson p)"
  by (simp add: policy_wire_def policyJson_def plain_intros)

lemma service_plain: "service_wire s \<Longrightarrow> json_plain (serviceJson s)"
  by (simp add: service_wire_def serviceJson_def plain_intros policy_plain)

lemma pairing_plain: "pairing_wire p \<Longrightarrow> json_plain (pairingJson p)"
  by (simp add: pairing_wire_def pairingJson_def plain_intros policy_plain)

lemma request_plain: "request_wire g \<Longrightarrow> json_plain (grantJson g)"
  by (simp add: request_wire_def grantJson_def plain_intros)

lemma body_plain: "body_wire b \<Longrightarrow> json_plain (bodyJson b)"
  by (auto simp: body_wire_def bodyJson_def plain_intros service_plain pairing_plain list_all_iff split: control_body.splits)

lemma decodeText_text:
  "json_plain v \<Longrightarrow> ends_number r \<Longrightarrow> dec ('''', []) v zero = (None, x) \<Longrightarrow> decodeText lib dec zero (jsonText v @ r) = Inr x"
  by (simp add: decodeText_def readJSON_text)

text \<open>The server decodes the request the client encoded.\<close>

lemma server_reads_grant: "request_wire g \<Longrightarrow> dec_grant (wireDecoders lib) (jsonText (grantJson g)) = Inr g"
proof -
  assume g: "request_wire g"
  then have "is_int64 (gr_maxBodyBytes g)" by (simp add: request_wire_def)
  from decodeText_text [where dec = "decodeStruct lib True ''GrantRequest'' grantFields", OF request_plain [OF g] ends_number_sep(5) decode_grant [OF this]]
  show ?thesis
    by (simp add: wireDecoders_def decodeJSON_def)
qed

lemma server_reads_revoke: "valid_utf8 h \<Longrightarrow> dec_revoke (wireDecoders lib) (jsonText (revokeJson h)) = Inr h"
proof -
  assume "valid_utf8 h"
  then have "json_plain (revokeJson h)" by (simp add: revokeJson_def plain_intros)
  from decodeText_text [where dec = "decodeStruct lib True ''RevokeRequest'' revokeFields", OF this ends_number_sep(5) decode_revoke]
  show ?thesis
    by (simp add: wireDecoders_def decodeJSON_def)
qed

text \<open>The client decodes the response the server encoded.\<close>

lemma decodeResult_text:
  assumes "json_plain (JObj [(name, v)])" "\<And>ctx. dec ctx v zero = (None, x)"
  shows "decodeResult lib st name dec zero (jsonText (JObj [(name, v)]) @ [newline]) = Inr x"
  unfolding decodeResult_def
proof (rule decodeText_text [OF assms(1)])
  show "ends_number [newline]" by simp
  show "decodeStruct lib False st [(name, fieldOf (\<lambda>x. x) (\<lambda>v _. v) dec)] ('''', []) (JObj [(name, v)]) zero = (None, x)"
    using assms(2) by (simp add: decodeStruct_def findField_def fieldOf_def)
qed

lemma client_reads:
  assumes "body_wire b"
  shows "body_faithful (wireCodec lib) b"
proof (cases b)
  case (GrantBody v)
  then have "is_int64 (pv_maxBodyBytes (sv_scope v))" using assms by (simp add: body_wire_def service_wire_def policy_wire_def)
  from decodeResult_text [where dec = "decodeService lib" and name = "''service''", OF _ decode_service [OF this]] body_plain [OF assms] show ?thesis
    by (simp add: GrantBody body_faithful_def wireCodec_def writeJSON_def bodyJson_def)
next
  case (RevokeBody h r)
  have "decodeStruct lib False ''RevokeResult'' revokedFields ('''', []) (bodyJson b) ('''', False) = (None, (h, r))"
    by (simp add: RevokeBody bodyJson_def decodeStruct_def findField_def revokedFields_def fieldOf_def decodeString_def decodeBool_def)
  from decodeText_text [where dec = "decodeStruct lib False ''RevokeResult'' revokedFields", OF body_plain [OF assms] _ this] show ?thesis
    by (simp add: RevokeBody body_faithful_def wireCodec_def writeJSON_def)
next
  case (ListBody vs)
  have "is_int64 (pv_maxBodyBytes (sv_scope v))" if "v \<in> set vs" for v
    using assms that by (auto simp: ListBody body_wire_def service_wire_def policy_wire_def list_all_iff)
  then have "decodeList (decodeService lib) zeroService ''[]control.ServiceView'' ctx (JArr (map serviceJson vs)) [] = (None, vs)" for ctx
    by (simp add: decodeList_def decodeElems_new decode_service)
  from decodeResult_text [where name = "''services''" and dec = "decodeList (decodeService lib) zeroService ''[]control.ServiceView''", OF _ this] body_plain [OF assms] show ?thesis
    by (simp add: ListBody body_faithful_def wireCodec_def writeJSON_def bodyJson_def)
next
  case (ListGrantableBody ps)
  have "is_int64 (pv_maxBodyBytes (pw_maxBound p))" if "p \<in> set ps" for p
    using assms that by (auto simp: ListGrantableBody body_wire_def pairing_wire_def policy_wire_def list_all_iff)
  then have "decodeList (decodePairing lib) zeroPairing ''[]control.PairingView'' ctx (JArr (map pairingJson ps)) [] = (None, ps)" for ctx
    by (simp add: decodeList_def decodeElems_new decode_pairing)
  from decodeResult_text [where name = "''pairings''" and dec = "decodeList (decodePairing lib) zeroPairing ''[]control.PairingView''", OF _ this] body_plain [OF assms] show ?thesis
    by (simp add: ListGrantableBody body_faithful_def wireCodec_def writeJSON_def bodyJson_def)
next
  case (ErrorBody err)
  from decodeResult_text [where name = "''error''" and dec = decodeString, OF _ decodeString_new] body_plain [OF assms] show ?thesis
    by (simp add: ErrorBody body_faithful_def wireCodec_def writeJSON_def bodyJson_def)
qed (simp add: body_faithful_def)

subsection \<open>Properties\<close>

text \<open>The grant bodies the decoder accepts, said without it.\<close>

definition stringOrNull :: "json \<Rightarrow> bool" where
  "stringOrNull v = (case v of JStr _ \<Rightarrow> True | JNull \<Rightarrow> True | _ \<Rightarrow> False)"

definition memberOk :: "string \<Rightarrow> json \<Rightarrow> bool" where
  "memberOk name v =
     (if name \<in> {''name'', ''host_pattern'', ''credential_ref'', ''auth_strategy'', ''header_name'', ''placeholder''} then stringOrNull v
      else if name \<in> {''allowed_methods'', ''allowed_paths''}
        then (case v of JNull \<Rightarrow> True | JArr vs \<Rightarrow> list_all stringOrNull vs | _ \<Rightarrow> False)
      else if name = ''max_body_bytes'' then (case v of JNull \<Rightarrow> True | JNum i \<Rightarrow> is_int64 i | _ \<Rightarrow> False)
      else False)"

definition grantMember :: "string \<Rightarrow> json \<Rightarrow> bool" where
  "grantMember k v = memberOk (foldName k) v"

definition grantBody :: "json \<Rightarrow> bool" where
  "grantBody v = (case v of JNull \<Rightarrow> True | JObj ms \<Rightarrow> list_all (\<lambda>(k, v). grantMember k v) ms | _ \<Rightarrow> False)"

lemma findField_SomeD:
  "findField fs k = Some (name, dec) \<Longrightarrow> (name, dec) \<in> set fs \<and> foldName name = foldName k"
proof (cases "map_of fs k")
  case None
  assume "findField fs k = Some (name, dec)"
  with None have "find (\<lambda>(name, _). foldName name = foldName k) fs = Some (name, dec)" by (simp add: findField_def)
  then show ?thesis by (auto dest!: find_SomeD)
next
  case (Some d)
  assume "findField fs k = Some (name, dec)"
  with Some show ?thesis by (auto simp: findField_def dest: map_of_SomeD)
qed

lemma findField_None: "findField fs k = None \<Longrightarrow> foldName k \<notin> foldName ` fst ` set fs"
  by (fastforce simp: findField_def find_None_iff split: option.splits)

lemma decodeMembers_None_iff:
  assumes "\<And>name dec ctx v x. (name, dec) \<in> set fs \<Longrightarrow> fst (dec ctx v x) = None \<longleftrightarrow> ok (foldName name) v"
    and "\<And>n v. n \<notin> foldName ` fst ` set fs \<Longrightarrow> \<not> ok n v"
  shows "fst (decodeMembers lib True st fs path ms x) = None \<longleftrightarrow> list_all (\<lambda>(k, v). ok (foldName k) v) ms"
proof (induction ms arbitrary: x)
  case (Cons m ms)
  obtain k v where m: "m = (k, v)" by (cases m)
  show ?case
  proof (cases "findField fs k")
    case None
    then have "\<not> ok (foldName k) v" using assms(2) findField_None by blast
    then show ?thesis using None by (simp add: m first_of_def split: prod.splits)
  next
    case (Some p)
    obtain name dec where p: "p = (name, dec)" by (cases p)
    obtain e y where ey: "dec (st, path @ [name]) v x = (e, y)" by fastforce
    have "e = None \<longleftrightarrow> ok (foldName k) v"
      using findField_SomeD [OF Some [unfolded p]] assms(1) [of name dec "(st, path @ [name])" v x] ey by simp
    moreover obtain f z where fz: "decodeMembers lib True st fs path ms y = (f, z)" by fastforce
    moreover have "f = None \<longleftrightarrow> list_all (\<lambda>(k, v). ok (foldName k) v) ms" using Cons [of y] fz by simp
    ultimately show ?thesis by (cases e) (simp_all add: m Some p ey first_of_def)
  qed
qed simp

lemma decodeString_None_iff: "fst (decodeString ctx v x) = None \<longleftrightarrow> stringOrNull v"
  by (simp add: decodeString_def stringOrNull_def split: json.splits)

lemma decodeStrings_None_iff:
  "fst (decodeStrings ctx v x) = None \<longleftrightarrow> (case v of JNull \<Rightarrow> True | JArr vs \<Rightarrow> list_all stringOrNull vs | _ \<Rightarrow> False)"
proof -
  have "fst (decodeElems decodeString '''' ctx vs olds) = None \<longleftrightarrow> list_all stringOrNull vs" for vs olds
  proof (induction vs arbitrary: olds)
    case (Cons v vs)
    obtain e y where ey: "decodeString ctx v (case olds of [] \<Rightarrow> '''' | old # _ \<Rightarrow> old) = (e, y)" by fastforce
    obtain f z where fz: "decodeElems decodeString '''' ctx vs (tl olds) = (f, z)" by fastforce
    have "e = None \<longleftrightarrow> stringOrNull v" using decodeString_None_iff [of ctx v] ey by (metis fst_conv)
    moreover have "f = None \<longleftrightarrow> list_all stringOrNull vs" using Cons [of "tl olds"] fz by simp
    ultimately show ?case by (cases e) (simp_all add: ey fz first_of_def)
  qed simp
  then show ?thesis by (simp add: decodeStrings_def decodeList_def split: json.splits)
qed

lemma decodeInt64_None_iff:
  "fst (decodeInt64 ctx v x) = None \<longleftrightarrow> (case v of JNull \<Rightarrow> True | JNum i \<Rightarrow> is_int64 i | _ \<Rightarrow> False)"
  by (simp add: decodeInt64_def split: json.splits)

lemma fieldOf_None_iff: "fst (fieldOf get put dec ctx v x) = None \<longleftrightarrow> fst (dec ctx v (get x)) = None"
  by (simp add: fieldOf_def split: prod.splits)

definition grantNames :: "string list" where
  "grantNames = [''name'', ''host_pattern'', ''credential_ref'', ''auth_strategy'', ''header_name'', ''placeholder'',
     ''allowed_methods'', ''allowed_paths'', ''max_body_bytes'']"

lemma grant_names: "map fst grantFields = grantNames"
  by (simp add: grantFields_def grantNames_def)

lemma fold_names: "map foldName grantNames = grantNames"
  by code_simp

lemma fold_name [simp]: "n \<in> set grantNames \<Longrightarrow> foldName n = n"
  using fold_names by (metis (no_types, lifting) list.map_id0 id_apply map_eq_conv list.map_ident)

lemma grant_decodes_iff:
  "fst (decodeStruct lib True st grantFields ctx v zeroGrant) = None \<longleftrightarrow> grantBody v"
proof (cases v)
  case (JObj ms)
  have fold: "foldName name = name" if "(name, dec) \<in> set grantFields" for name dec
    using that grant_names by (intro fold_name) (metis fst_conv image_eqI list.set_map)
  have all: "list_all (\<lambda>(name, dec). fst (dec ctx v x) = None \<longleftrightarrow> memberOk name v) grantFields" for ctx v x
    unfolding grantFields_def
    by (simp add: memberOk_def fieldOf_None_iff decodeString_None_iff decodeStrings_None_iff decodeInt64_None_iff)
  have dec: "fst (dec ctx v x) = None \<longleftrightarrow> memberOk (foldName name) v" if "(name, dec) \<in> set grantFields" for name dec ctx v x
    using bspec [OF iffD1 [OF list_all_iff all [of ctx v x]] that] by (simp only: prod.case fold [OF that])
  have unknown: "\<not> memberOk n v" if "n \<notin> foldName ` fst ` set grantFields" for n v
  proof -
    have "foldName ` fst ` set grantFields = set grantNames"
      using fold_names grant_names by (metis list.set_map)
    then show ?thesis using that by (auto simp: grantNames_def memberOk_def)
  qed
  have "fst (decodeMembers lib True st grantFields path ms x) = None \<longleftrightarrow> list_all (\<lambda>(k, v). memberOk (foldName k) v) ms" for path x
    by (rule decodeMembers_None_iff) (erule dec, erule unknown)
  then show ?thesis by (simp add: JObj decodeStruct_def grantBody_def grantMember_def [abs_def])
qed (simp_all add: decodeStruct_def grantBody_def)

text \<open>C17: The client sees what the daemon did, over the JSON both ends speak. A grant or revoke request
  of UTF-8 strings and a 64-bit limit is decoded by the server's strict decoder to the very request
  the client encoded, fields left out because they are empty included; and with a daemon at the other
  end each of the four calls of the client returns exactly the result of the daemon's own operation,
  changes the daemon's state exactly as it does, and repeats the text of its error word for word.\<close>

theorem wire_carries_every_call:
  assumes "cn_down c = None" "cn_codec c = wireCodec lib" "cn_decoders c = wireDecoders lib"
    and "request_wire req" "valid_utf8 host"
    and "body_wire (response c ''POST'' ''/grant'' (jsonText (grantJson req)) st)"
    and "body_wire (response c ''POST'' ''/revoke'' (jsonText (revokeJson host)) st)"
    and "body_wire (response c ''GET'' ''/list'' '''' st)" "body_wire (response c ''GET'' ''/list-grantable'' '''' st)"
  shows "dec_grant (cn_decoders c) (jsonText (grantJson req)) = Inr req \<and> dec_revoke (cn_decoders c) (jsonText (revokeJson host)) = Inr host \<and>
    (case apiGrant (cn_enforcer c) req st of
      (Inr v, st') \<Rightarrow> clientGrant c req st = (Inr v, st')
    | (Inl e, st') \<Rightarrow> \<exists>err. clientGrant c req st = (Inl err, st') \<and> error_text err = error_text (api_message e)) \<and>
    (case apiRevoke host st of
      (Inr v, st') \<Rightarrow> clientRevoke c host st = (Inr v, st')
    | (Inl e, st') \<Rightarrow> \<exists>err. clientRevoke c host st = (Inl err, st') \<and> error_text err = error_text (api_message e)) \<and>
    clientList c st = (Inr (apiList st), st) \<and>
    clientListGrantable c st = (Inr (apiListGrantable (cn_enforcer c)), st)"
proof (intro conjI)
  have m: "cd_marshalGrant (cn_codec c) req = Inr (jsonText (grantJson req))" "cd_marshalRevoke (cn_codec c) host = Inr (jsonText (revokeJson host))"
    by (simp_all add: assms(2) wireCodec_def)
  show d: "dec_grant (cn_decoders c) (jsonText (grantJson req)) = Inr req" "dec_revoke (cn_decoders c) (jsonText (revokeJson host)) = Inr host"
    using server_reads_grant [OF assms(4)] server_reads_revoke [OF assms(5)] by (simp_all add: assms(3))
  note f = assms(6-9) [THEN client_reads, of lib, folded assms(2)]
  note agree = client_sees_what_the_daemon_did [OF assms(1) m(1) d(1) m(2) d(2) f]
  show "case apiGrant (cn_enforcer c) req st of
      (Inr v, st') \<Rightarrow> clientGrant c req st = (Inr v, st')
    | (Inl e, st') \<Rightarrow> \<exists>err. clientGrant c req st = (Inl err, st') \<and> error_text err = error_text (api_message e)"
    by (rule agree [THEN conjunct1])
  show "case apiRevoke host st of
      (Inr v, st') \<Rightarrow> clientRevoke c host st = (Inr v, st')
    | (Inl e, st') \<Rightarrow> \<exists>err. clientRevoke c host st = (Inl err, st') \<and> error_text err = error_text (api_message e)"
    by (rule agree [THEN conjunct2, THEN conjunct1])
  show "clientList c st = (Inr (apiList st), st)" by (rule agree [THEN conjunct2, THEN conjunct2, THEN conjunct1])
  show "clientListGrantable c st = (Inr (apiListGrantable (cn_enforcer c)), st)"
    by (rule agree [THEN conjunct2, THEN conjunct2, THEN conjunct2])
qed

text \<open>C18: Nothing outside the wire type gets past the decoder. A posted grant body is answered with 400 if
  and only if its first JSON value is not one the wire type describes: null or an object each of
  whose members is one of the nine fields, in whatever capitals, with a value of its type. So no
  body smuggles in the operator's own \<open>drop\<close>, \<open>strip\<close> or \<open>client_groups\<close>, whatever else it says;
  and an answer of 400 leaves the registry and the audit trail as they were.\<close>

theorem grant_body_accepted_iff:
  "(fst (fst (serveControl (wireDecoders lib) e ''/grant'' ''POST'' body st)) = 400 \<longleftrightarrow>
     (case readJSON body of None \<Rightarrow> True | Some v \<Rightarrow> \<not> grantBody v)) \<and>
   (fst (fst (serveControl (wireDecoders lib) e ''/grant'' ''POST'' body st)) = 400 \<longrightarrow>
     snd (serveControl (wireDecoders lib) e ''/grant'' ''POST'' body st) = st) \<and>
   (foldName k \<in> {''drop'', ''strip'', ''client_groups''} \<longrightarrow> (k, v) \<in> set ms \<longrightarrow> \<not> grantBody (JObj ms))"
proof (intro conjI impI)
  let ?d = "dec_grant (wireDecoders lib) body"
  have granted: "fst (fst (handleGrant d e ''POST'' body st)) \<noteq> 400" if d: "dec_grant d body = Inr req" for d req
  proof -
    obtain res st' where api: "apiGrant e req st = (res, st')" by fastforce
    show ?thesis by (cases rule: apiGrant_cases [OF api]) (simp_all add: handleGrant_def statusFor_def d api)
  qed
  have iff: "fst (fst (serveControl (wireDecoders lib) e ''/grant'' ''POST'' body st)) = 400 \<longleftrightarrow> (\<exists>err. ?d = Inl err)"
    using granted by (cases ?d) (auto simp: serveControl_def, simp add: handleGrant_def)
  also have "\<dots> \<longleftrightarrow> (case readJSON body of None \<Rightarrow> True | Some v \<Rightarrow> \<not> grantBody v)"
  proof (cases "readJSON body")
    case (Some v)
    obtain f y where fy: "decodeStruct lib True ''GrantRequest'' grantFields ('''', []) v zeroGrant = (f, y)" by fastforce
    then have "f = None \<longleftrightarrow> grantBody v"
      using grant_decodes_iff [of lib "''GrantRequest''" "('''', [])" v] by simp
    then show ?thesis using Some fy by (cases f) (simp_all add: wireDecoders_def decodeJSON_def decodeText_def)
  qed (simp add: wireDecoders_def decodeJSON_def decodeText_def)
  finally show "fst (fst (serveControl (wireDecoders lib) e ''/grant'' ''POST'' body st)) = 400 \<longleftrightarrow>
     (case readJSON body of None \<Rightarrow> True | Some v \<Rightarrow> \<not> grantBody v)" .
  show "snd (serveControl (wireDecoders lib) e ''/grant'' ''POST'' body st) = st"
    if "fst (fst (serveControl (wireDecoders lib) e ''/grant'' ''POST'' body st)) = 400"
    using that iff by (auto simp: serveControl_def handleGrant_def)
  show "\<not> grantBody (JObj ms)" if k: "foldName k \<in> {''drop'', ''strip'', ''client_groups''}" and m: "(k, v) \<in> set ms"
  proof -
    have "\<not> grantMember k v" using k by (auto simp: grantMember_def memberOk_def)
    then show ?thesis using m by (auto simp: grantBody_def list_all_iff)
  qed
qed

subsection \<open>A call over the wire\<close>

definition demo_json_lib :: json_lib where
  "demo_json_lib = \<lparr>jl_syntax = (\<lambda>_. Errorf ''unexpected EOF'' []), jl_quote = (\<lambda>s. s)\<rparr>"

definition demo_wire_connection :: connection where
  "demo_wire_connection = \<lparr>cn_socketPath = ''/s'', cn_down = None, cn_codec = wireCodec demo_json_lib,
     cn_decoders = wireDecoders demo_json_lib, cn_enforcer = demo_enforcer\<rparr>"

lemma demo_wire:
  "cn_down demo_wire_connection = None" "cn_codec demo_wire_connection = wireCodec demo_json_lib"
  "cn_decoders demo_wire_connection = wireDecoders demo_json_lib" "cn_enforcer demo_wire_connection = demo_enforcer"
  by (simp_all add: demo_wire_connection_def)

lemma demo_wire_request: "request_wire demo_grant" "valid_utf8 ''h''"
proof -
  have "list_all is_ascii [gr_name demo_grant, gr_hostPattern demo_grant, gr_credentialRef demo_grant, gr_authStrategy demo_grant,
      gr_headerName demo_grant, gr_placeholder demo_grant]" "list_all is_ascii (gr_allowedMethods demo_grant)"
      "list_all is_ascii (gr_allowedPaths demo_grant)" "is_int64 (gr_maxBodyBytes demo_grant)"
    by code_simp+
  then show "request_wire demo_grant" by (simp add: request_wire_def list_all_iff ascii_valid)
  show "valid_utf8 ''h''" by (rule ascii_valid) simp
qed

lemma demo_wire_responses:
  "body_wire (response demo_wire_connection ''POST'' ''/grant'' (jsonText (grantJson demo_grant)) demo_state)"
  "body_wire (response demo_wire_connection ''POST'' ''/revoke'' (jsonText (revokeJson ''h'')) demo_state)"
  "body_wire (response demo_wire_connection ''GET'' ''/list'' '''' demo_state)"
  "body_wire (response demo_wire_connection ''GET'' ''/list-grantable'' '''' demo_state)"
proof -
  let ?v = "serviceView (grantedService demo_grant)"
  have "fst (apiGrant demo_enforcer demo_grant demo_state) = Inr ?v" by code_simp
  then obtain st' where api: "apiGrant demo_enforcer demo_grant demo_state = (Inr ?v, st')" by (metis prod.collapse)
  have v: "list_all is_ascii [sv_name ?v, sv_hostPattern ?v, sv_credentialRef ?v, sv_authStrategy ?v, sv_headerName ?v, sv_placeholder ?v]"
      "list_all is_ascii (pv_allowedMethods (sv_scope ?v))" "list_all is_ascii (pv_allowedPaths (sv_scope ?v))"
      "is_int64 (pv_maxBodyBytes (sv_scope ?v))"
    by code_simp+
  then have wire: "service_wire ?v" by (simp add: service_wire_def policy_wire_def list_all_iff ascii_valid)
  have "response demo_wire_connection ''POST'' ''/grant'' (jsonText (grantJson demo_grant)) demo_state = GrantBody ?v"
    using api server_reads_grant [OF demo_wire_request(1), of demo_json_lib]
    by (simp add: response_def demo_wire serveControl_def handleGrant_def split: prod.splits)
  then show "body_wire (response demo_wire_connection ''POST'' ''/grant'' (jsonText (grantJson demo_grant)) demo_state)"
    using wire by (simp add: body_wire_def)
  have "fst (apiRevoke ''h'' demo_state) = Inr (''h'', False)" by code_simp
  then obtain st'' where revoke: "apiRevoke ''h'' demo_state = (Inr (''h'', False), st'')" by (metis prod.collapse)
  then have "response demo_wire_connection ''POST'' ''/revoke'' (jsonText (revokeJson ''h'')) demo_state = RevokeBody ''h'' False"
    using server_reads_revoke [OF demo_wire_request(2), of demo_json_lib]
    by (simp add: response_def demo_wire serveControl_def handleRevoke_def split: prod.splits)
  then show "body_wire (response demo_wire_connection ''POST'' ''/revoke'' (jsonText (revokeJson ''h'')) demo_state)"
    using demo_wire_request(2) by (simp add: body_wire_def)
  have "apiList demo_state = []" by code_simp
  then show "body_wire (response demo_wire_connection ''GET'' ''/list'' '''' demo_state)"
    by (simp add: response_def serveControl_def handleList_def body_wire_def)
  have "list_all (\<lambda>p. list_all is_ascii [pw_credentialRef p, pw_hostPattern p, pw_authStrategy p] \<and>
      list_all is_ascii (pv_allowedMethods (pw_maxBound p)) \<and> list_all is_ascii (pv_allowedPaths (pw_maxBound p)) \<and>
      is_int64 (pv_maxBodyBytes (pw_maxBound p))) (apiListGrantable demo_enforcer)"
    by code_simp
  then have "list_all pairing_wire (apiListGrantable demo_enforcer)"
    by (auto simp: list_all_iff pairing_wire_def policy_wire_def ascii_valid)
  then show "body_wire (response demo_wire_connection ''GET'' ''/list-grantable'' '''' demo_state)"
    by (simp add: response_def demo_wire serveControl_def handleListGrantable_def body_wire_def)
qed

theorem wire_carries_every_call_witness:
  "\<exists>st'. clientGrant demo_wire_connection demo_grant demo_state = (Inr (serviceView (grantedService demo_grant)), st') \<and>
     map_get (cs_registry st') (serviceKey (hostPattern (grantedService demo_grant))) = Some (grantedService demo_grant)"
proof -
  obtain st' where api: "apiGrant demo_enforcer demo_grant demo_state = (Inr (serviceView (grantedService demo_grant)), st')"
    "map_get (cs_registry st') (serviceKey (hostPattern (grantedService demo_grant))) = Some (grantedService demo_grant)"
  proof -
    have "fst (apiGrant demo_enforcer demo_grant demo_state) = Inr (serviceView (grantedService demo_grant))"
        "map_get (cs_registry (snd (apiGrant demo_enforcer demo_grant demo_state))) (serviceKey (hostPattern (grantedService demo_grant))) =
           Some (grantedService demo_grant)"
      by code_simp+
    then show thesis using that by (metis prod.collapse)
  qed
  from wire_carries_every_call [OF demo_wire(1-3) demo_wire_request demo_wire_responses] show ?thesis
    using api by (simp add: demo_wire)
qed

theorem grant_body_accepted_iff_witness:
  "fst (fst (serveControl (wireDecoders demo_json_lib) demo_enforcer ''/grant'' ''POST''
      (jsonText (JObj [(''host_pattern'', JStr ''h''), (''Drop'', JArr [])])) demo_state)) = 400 \<and>
   snd (serveControl (wireDecoders demo_json_lib) demo_enforcer ''/grant'' ''POST''
      (jsonText (JObj [(''host_pattern'', JStr ''h''), (''Drop'', JArr [])])) demo_state) = demo_state"
proof -
  let ?v = "JObj [(''host_pattern'', JStr ''h''), (''Drop'', JArr [])]"
  define body where "body = jsonText ?v"
  have "json_plain ?v" by (simp add: ascii_valid)
  then have read: "readJSON body = Some ?v" using readJSON_text [of ?v "[]"] by (simp add: body_def del: jsonText.simps)
  have "foldName ''Drop'' = ''drop''" by code_simp
  then have "\<not> grantBody ?v"
    using grant_body_accepted_iff [where k = "''Drop''" and v = "JArr []" and ms = "[(''host_pattern'', JStr ''h''), (''Drop'', JArr [])]"]
    by simp
  then show ?thesis using grant_body_accepted_iff [of demo_json_lib demo_enforcer body demo_state]
    unfolding body_def [symmetric] by (simp add: read)
qed

end
