(* ===== verification/Record_Text.thy ===== *)
theory Record_Text
  imports Json Recorder Audit_Log "HOL-Library.List_Lexorder" "HOL-Library.Char_ord"
begin

text \<open>
  What is on disk afterwards: the JSON of an audit entry (\<open>audit/logger.go\<close>), of the HAR archive
  (\<open>recorder/har.go\<close>) and of a JSON-lines entry (\<open>recorder/jsonl.go\<close>), member by member as the tags of
  the Go types say, and the text that is written. Times are nanoseconds since 1970; the zone of the
  HAR times, which are local, is an argument (seconds east of Greenwich). Years are taken to be of
  four digits.
\<close>

subsection \<open>Times\<close>

text \<open>The date of a day counted from 1970-01-01, in eras of 400 years that begin in March.\<close>

definition civilDate :: "int \<Rightarrow> int \<times> int \<times> int" where
  "civilDate days = (let z = days + 719468; era = z div 146097; doe = z mod 146097;
     yoe = (doe - doe div 1460 + doe div 36524 - doe div 146096) div 365;
     doy = doe - (365 * yoe + yoe div 4 - yoe div 100);
     mp = (5 * doy + 2) div 153;
     m = (if mp < 10 then mp + 3 else mp - 9)
     in (yoe + era * 400 + (if m \<le> 2 then 1 else 0), m, doy - (153 * mp + 2) div 5 + 1))"

definition padNum :: "nat \<Rightarrow> int \<Rightarrow> string" where
  "padNum n i = (let s = show_nat (nat i) in replicate (n - length s) (CHR ''0'') @ s)"

definition fractionText :: "int \<Rightarrow> string" where
  "fractionText ns = (if ns = 0 then '''' else CHR ''.'' # rev (dropWhile (\<lambda>c. c = CHR ''0'') (rev (padNum 9 ns))))"

definition zoneText :: "int \<Rightarrow> string" where
  "zoneText zone = (if zone = 0 then ''Z''
     else (let m = \<bar>zone\<bar> div 60 in (if zone < 0 then ''-'' else ''+'') @ padNum 2 (m div 60) @ '':'' @ padNum 2 (m mod 60)))"

definition rfc3339Nano :: "int \<Rightarrow> go_time \<Rightarrow> string" where
  "rfc3339Nano zone t = (let wall = t + zone * 1000000000; s = wall div 1000000000; sod = s mod 86400 in
     case civilDate (s div 86400) of (y, m, d) \<Rightarrow>
       padNum 4 y @ ''-'' @ padNum 2 m @ ''-'' @ padNum 2 d @ ''T'' @ padNum 2 (sod div 3600) @ '':'' @
       padNum 2 (sod div 60 mod 60) @ '':'' @ padNum 2 (sod mod 60) @ fractionText (wall mod 1000000000) @ zoneText zone)"

lemma digit_chars: "digit_char 0 = CHR ''0''" "digit_char (Suc 0) = CHR ''1''" "digit_char 2 = CHR ''2''" "digit_char 3 = CHR ''3''"
    "digit_char 4 = CHR ''4''" "digit_char 5 = CHR ''5''" "digit_char 6 = CHR ''6''" "digit_char 7 = CHR ''7''"
    "digit_char 8 = CHR ''8''" "digit_char 9 = CHR ''9''"
  by code_simp+

lemma show_nat_step: "n < 10 \<Longrightarrow> show_nat n = [digit_char n]"
    "10 \<le> n \<Longrightarrow> show_nat n = show_nat (n div 10) @ [digit_char (n mod 10)]"
  by (subst show_nat.simps; simp)+

lemma show_nat_ascii: "is_ascii (show_nat n)"
  using show_nat_digits by (fastforce simp: is_ascii_def list_all_iff)

lemma padNum_ascii: "is_ascii (padNum n i)"
proof -
  have "is_ascii (replicate k (CHR ''0''))" for k by (induction k) simp_all
  then show ?thesis by (simp add: padNum_def Let_def show_nat_ascii)
qed

lemma fractionText_ascii: "is_ascii (fractionText ns)"
  using padNum_ascii [of 9 ns] by (auto simp: fractionText_def is_ascii_def list_all_iff dest: set_dropWhileD)

lemma rfc3339Nano_ascii: "is_ascii (rfc3339Nano zone t)"
  by (simp add: rfc3339Nano_def zoneText_def Let_def padNum_ascii fractionText_ascii split: prod.splits)

lemma time_valid [simp]: "valid_utf8 (rfc3339Nano zone t)"
  by (rule ascii_valid [OF rfc3339Nano_ascii])

subsection \<open>The audit log\<close>

definition event_name :: "event \<Rightarrow> string" where
  "event_name ev = (case ev of
     EventCredentialInjected \<Rightarrow> ''credential_injected'' | EventAuthFailure \<Rightarrow> ''auth_failure''
   | EventPolicyDenied \<Rightarrow> ''policy_denied'' | EventRequestDropped \<Rightarrow> ''request_dropped''
   | EventAuthHeaderStripped \<Rightarrow> ''auth_header_stripped'' | EventPlaceholderMismatch \<Rightarrow> ''placeholder_mismatch''
   | EventGrantApplied \<Rightarrow> ''grant_applied'' | EventGrantRevoked \<Rightarrow> ''grant_revoked'' | EventGrantRejected \<Rightarrow> ''grant_rejected'')"

text \<open>A detail is a plain string, or a format with its arguments.\<close>

definition detailText :: "fmt_arg list \<Rightarrow> string" where
  "detailText ds = (case ds of [] \<Rightarrow> '''' | [d] \<Rightarrow> arg_text d | d # args \<Rightarrow> sprintf (arg_text d) (map arg_text args))"

definition errorMessage :: "entry \<Rightarrow> string" where
  "errorMessage e = (case en_error e of None \<Rightarrow> '''' | Some err \<Rightarrow> error_text err)"

definition entryJson :: "go_time \<Rightarrow> entry \<Rightarrow> json" where
  "entryJson now e = JObj ([(''timestamp'', JStr (rfc3339Nano 0 now)), (''event'', JStr (event_name (en_event e))),
      (''service'', JStr (en_service e)), (''host'', JStr (en_host e)), (''path'', JStr (en_path e)),
      (''method'', JStr (en_method e)), (''auth_strategy'', JStr (en_authStrategy e)),
      (''request_id'', JStr (en_requestID e)), (''client_ip'', JStr (en_clientIP e)), (''outcome'', JStr (en_outcome e))] @
     omitempty ''status_code'' (en_statusCode e = 0) (JNum (en_statusCode e)) @
     omitempty ''error'' (errorMessage e = '''') (JStr (errorMessage e)) @
     omitempty ''detail'' (detailText (en_detail e) = '''') (JStr (detailText (en_detail e))))"

definition auditLine :: "go_time \<Rightarrow> entry \<Rightarrow> string" where
  "auditLine now e = jsonText (entryJson now e) @ [newline]"

text \<open>The file: what the logger's entries, each with the time of its write, are on disk.\<close>

definition auditText :: "(go_time \<times> entry) list \<Rightarrow> string" where
  "auditText es = concat (map (\<lambda>(now, e). auditLine now e) es)"

text \<open>The lines of a text that ends with one.\<close>

definition textLines :: "string \<Rightarrow> string list" where
  "textLines s = butlast (split_on newline s)"

lemma textLines_line: "newline \<notin> set a \<Longrightarrow> textLines (a @ newline # s) = a # textLines s"
  by (simp add: textLines_def split_on_append)

lemma textLines_concat:
  "\<forall>a \<in> set xs. newline \<notin> set a \<Longrightarrow> textLines (concat (map (\<lambda>a. a @ [newline]) xs)) = xs"
  by (induction xs) (simp_all add: textLines_line, simp add: textLines_def)

lemma omit_no_float: "no_float v \<Longrightarrow> list_all (\<lambda>(k, v). no_float v) (omitempty k absent v)"
  by (simp add: omitempty_def)

definition entry_utf8 :: "entry \<Rightarrow> bool" where
  "entry_utf8 e \<longleftrightarrow> list_all valid_utf8 [en_service e, en_host e, en_path e, en_method e, en_authStrategy e, en_requestID e,
     en_clientIP e, en_outcome e, errorMessage e, detailText (en_detail e)]"

lemma event_name_valid: "valid_utf8 (event_name ev)"
  by (cases ev) (simp_all add: event_name_def ascii_valid)

lemma entry_plain: "entry_utf8 e \<Longrightarrow> json_plain (entryJson now e)"
  by (simp add: entry_utf8_def entryJson_def omit_plain ascii_valid event_name_valid)

lemma entry_one_line: "newline \<notin> set (jsonText (entryJson now e))"
  by (rule jsonText_one_line) (simp add: entryJson_def omit_no_float)

lemma audit_lines: "textLines (auditText es) = map (\<lambda>(now, e). jsonText (entryJson now e)) es"
proof -
  have "auditText es = concat (map (\<lambda>a. a @ [newline]) (map (\<lambda>(now, e). jsonText (entryJson now e)) es))"
    by (simp add: auditText_def auditLine_def comp_def case_prod_unfold)
  then show ?thesis using textLines_concat [of "map (\<lambda>(now, e). jsonText (entryJson now e)) es"] entry_one_line by auto
qed


definition demo_entry :: entry where
  "demo_entry = (blank_entry EventRequestDropped)
     \<lparr>en_host := ''h'', en_path := ''/a'' @ [newline] @ ''{}'', en_statusCode := 403, en_detail := [Str ''drop %s'', Str ''/a'']\<rparr>"

lemma demo_date: "civilDate 19782 = (2024, 2, 29)"
  by code_simp

lemma demo_pads:
  "padNum 4 2024 = ''2024''" "padNum 2 2 = ''02''" "padNum 2 29 = ''29''" "padNum 2 12 = ''12''" "padNum 2 34 = ''34''"
  "padNum 2 56 = ''56''" "padNum 9 500000000 = ''500000000''"
  by (simp_all add: padNum_def show_nat_step digit_chars)

lemma demo_fraction: "fractionText 500000000 = ''.5''"
  by (simp add: fractionText_def demo_pads)


subsection \<open>The HAR archive\<close>

text \<open>A slice that was never made is \<open>null\<close>; so are the cookies and the query string of every entry.\<close>

definition harHeader :: "string \<times> string \<Rightarrow> json" where
  "harHeader h = JObj [(''name'', JStr (fst h)), (''value'', JStr (snd h))]"

definition harHeadersJson :: "(string \<times> string) list option \<Rightarrow> json" where
  "harHeadersJson hs = (case hs of None \<Rightarrow> JNull | Some hs \<Rightarrow> JArr (map harHeader hs))"

definition harRequestJson :: "har_request \<Rightarrow> json" where
  "harRequestJson r = JObj [(''method'', JStr (hq_method r)), (''url'', JStr (hq_url r)), (''httpVersion'', JStr (hq_httpVersion r)),
     (''cookies'', JNull), (''headers'', harHeadersJson (Some (hq_headers r))), (''queryString'', JNull),
     (''headersSize'', JNum (hq_headersSize r)), (''bodySize'', JNum (hq_bodySize r))]"

definition harContentJson :: "har_content \<Rightarrow> json" where
  "harContentJson c = JObj ([(''size'', JNum (hc_size c)), (''mimeType'', JStr (hc_mimeType c))] @
     omitempty ''text'' (hc_text c = '''') (JStr (hc_text c)))"

definition harResponseJson :: "har_response \<Rightarrow> json" where
  "harResponseJson r = JObj [(''status'', JNum (hr_status r)), (''statusText'', JStr (hr_statusText r)),
     (''httpVersion'', JStr (hr_httpVersion r)), (''cookies'', JNull), (''headers'', harHeadersJson (hr_headers r)),
     (''content'', harContentJson (hr_content r)), (''redirectURL'', JStr ''''),
     (''headersSize'', JNum (hr_headersSize r)), (''bodySize'', JNum (hr_bodySize r))]"

definition harTimingsJson :: "har_timings \<Rightarrow> json" where
  "harTimingsJson t = JObj (omitempty ''send'' (ht_send t = 0) (JNum (ht_send t)) @
     omitempty ''wait'' (ht_wait t = 0) (JNum (ht_wait t)) @ omitempty ''receive'' (ht_receive t = 0) (JNum (ht_receive t)))"

definition harEntryJson :: "int \<Rightarrow> har_entry \<Rightarrow> json" where
  "harEntryJson zone e = JObj [(''startedDateTime'', JStr (rfc3339Nano zone (he_started e))), (''time'', JNum (he_time e)),
     (''request'', harRequestJson (he_request e)), (''response'', harResponseJson (he_response e)),
     (''cache'', JObj []), (''timings'', harTimingsJson (he_timings e))]"

text \<open>A struct is never empty for \<open>omitempty\<close>, so the browser is written although nothing is known of it.\<close>

definition harJson :: "int \<Rightarrow> har_archive \<Rightarrow> json" where
  "harJson zone a = JObj [(''version'', JStr (ha_version a)),
     (''creator'', JObj [(''name'', JStr (ha_creatorName a)), (''version'', JStr (ha_creatorVersion a))]),
     (''browser'', JObj [(''name'', JStr ''''), (''version'', JStr '''')]),
     (''entries'', if ha_entries a = [] then JNull else JArr (map (harEntryJson zone) (ha_entries a)))]"

definition toJSON :: "int \<Rightarrow> har_recorder \<Rightarrow> string" where
  "toJSON zone r = jsonIndent 0 (harJson zone (toHAR r))"

definition member :: "string \<Rightarrow> json \<Rightarrow> json option" where
  "member k v = (case v of JObj ms \<Rightarrow> map_of ms k | _ \<Rightarrow> None)"

definition headers_utf8 :: "(string \<times> string) list \<Rightarrow> bool" where
  "headers_utf8 hs \<longleftrightarrow> list_all (\<lambda>(k, v). valid_utf8 k \<and> valid_utf8 v) hs"

lemma headers_ascii: "list_all (\<lambda>(k, v). is_ascii k \<and> is_ascii v) hs \<Longrightarrow> headers_utf8 hs"
  by (auto simp: headers_utf8_def list_all_iff ascii_valid)

definition har_utf8 :: "har_entry \<Rightarrow> bool" where
  "har_utf8 e \<longleftrightarrow> (let q = he_request e; r = he_response e in
     list_all valid_utf8 [hq_method q, hq_url q, hq_httpVersion q, hr_statusText r, hr_httpVersion r,
       hc_mimeType (hr_content r), hc_text (hr_content r)] \<and>
     headers_utf8 (hq_headers q) \<and> (case hr_headers r of None \<Rightarrow> True | Some hs \<Rightarrow> headers_utf8 hs))"

lemma headers_plain: "(case hs of None \<Rightarrow> True | Some hs \<Rightarrow> headers_utf8 hs) \<Longrightarrow> json_plain (harHeadersJson hs)"
  by (auto simp: harHeadersJson_def harHeader_def headers_utf8_def list_all_iff ascii_valid split: option.splits)

lemma har_entry_plain: "har_utf8 e \<Longrightarrow> json_plain (harEntryJson zone e)"
  by (simp add: har_utf8_def Let_def harEntryJson_def harRequestJson_def harResponseJson_def harContentJson_def harTimingsJson_def
      omit_plain ascii_valid headers_plain)

lemma har_plain: "list_all har_utf8 r \<Longrightarrow> json_plain (harJson zone (toHAR r))"
  by (auto simp: harJson_def toHAR_def ascii_valid har_entry_plain list_all_iff)

text \<open>The HAR file reads back as what was recorded, in order. The text that is written is JSON; its
  member \<open>entries\<close> has one element per exchange, with the method and URL of the request, the status of
  the response and the time it took. It is \<open>null\<close> when nothing was recorded, and the archive is not
  under the member \<open>log\<close> in which the format, and the tools that import it, look for it.\<close>

theorem har_file_tells_each_exchange:
  assumes "list_all har_utf8 r"
  shows "\<exists>v. readJSON (toJSON zone r) = Some v \<and> member ''log'' v = None \<and>
    (if r = [] then member ''entries'' v = Some JNull
     else \<exists>es. member ''entries'' v = Some (JArr es) \<and> list_all2 (\<lambda>e j.
       Option.bind (member ''request'' j) (member ''method'') = Some (JStr (hq_method (he_request e))) \<and>
       Option.bind (member ''request'' j) (member ''url'') = Some (JStr (hq_url (he_request e))) \<and>
       Option.bind (member ''response'' j) (member ''status'') = Some (JNum (hr_status (he_response e))) \<and>
       member ''time'' j = Some (JNum (he_time e))) r es)"
proof (intro exI conjI)
  show "readJSON (toJSON zone r) = Some (harJson zone (toHAR r))"
    using readJSON_indent [OF har_plain [OF assms], of "[]"] by (simp add: toJSON_def)
  show "member ''log'' (harJson zone (toHAR r)) = None" by (simp add: member_def harJson_def)
qed (simp add: member_def harJson_def toHAR_def list_all2_map2 list_all2_same harEntryJson_def harRequestJson_def harResponseJson_def)

definition demo_har :: har_recorder where
  "demo_har = recordResponse demo_values (recordRequest demo_values demo_leaky) demo_leaky 0 (Some demo_response) None 2500000 newRecorder"

theorem har_file_tells_each_exchange_witness:
  "\<exists>v j. readJSON (toJSON 3600 demo_har) = Some v \<and> member ''entries'' v = Some (JArr [j]) \<and>
     Option.bind (member ''request'' j) (member ''url'') = Some (JStr ''https://api.example.com/bot-[REDACTED]/send'') \<and>
     member ''time'' j = Some (JNum 2)"
proof -
  obtain e where e: "demo_har = [e]" by (simp add: demo_har_def recordResponse_def newRecorder_def)
  have "list_all (\<lambda>e. list_all is_ascii [hq_method (he_request e), hq_url (he_request e), hq_httpVersion (he_request e),
      hr_statusText (he_response e), hr_httpVersion (he_response e), hc_mimeType (hr_content (he_response e)),
      hc_text (hr_content (he_response e))] \<and>
      list_all (\<lambda>(k, v). is_ascii k \<and> is_ascii v) (hq_headers (he_request e) @ the (hr_headers (he_response e))) \<and>
      hr_headers (he_response e) \<noteq> None \<and> hq_url (he_request e) = ''https://api.example.com/bot-[REDACTED]/send'' \<and> he_time e = 2) demo_har"
    by code_simp
  then have u: "list_all har_utf8 demo_har" and q: "hq_url (he_request e) = ''https://api.example.com/bot-[REDACTED]/send''" "he_time e = 2"
    by (auto simp: e har_utf8_def ascii_valid intro: headers_ascii)
  show ?thesis using har_file_tells_each_exchange [OF u, of 3600] q by (auto simp: e list_all2_Cons1)
qed

subsection \<open>JSON lines\<close>

text \<open>A body that was parsed is the value its JSON has again; \<open>null\<close> is the empty interface and left out.
  A map is written in the order of its keys.\<close>

definition bodyValue :: "json jsonl_body \<Rightarrow> json" where
  "bodyValue b = (case b of JParsed v \<Rightarrow> v | JText s \<Rightarrow> JStr s
     | JBinary n \<Rightarrow> JObj [(''_binary'', JBool True), (''size'', JNum (int n))])"

definition bodyMember :: "json jsonl_body option \<Rightarrow> (string \<times> json) list" where
  "bodyMember b = (case b of None \<Rightarrow> [] | Some b \<Rightarrow> omitempty ''body'' (bodyValue b = JNull) (bodyValue b))"

definition textMember :: "string \<Rightarrow> string \<Rightarrow> (string \<times> json) list" where
  "textMember name s = omitempty name (s = '''') (JStr s)"

definition jsonlJson :: "json jsonl_entry \<Rightarrow> json" where
  "jsonlJson e = JObj ([(''ts'', JStr (rfc3339Nano 0 (je_timestamp e)))] @ textMember ''req_id'' (je_requestID e) @
     [(''type'', JStr (je_type e))] @ textMember ''method'' (je_method e) @ textMember ''url'' (je_url e) @
     textMember ''host'' (je_host e) @ textMember ''path'' (je_path e) @
     omitempty ''status'' (je_status e = 0) (JNum (je_status e)) @ textMember ''status_text'' (je_statusText e) @
     omitempty ''headers'' (je_headers e = []) (JObj (map (map_prod (\<lambda>k. k) JStr) (sort_key fst (je_headers e)))) @
     bodyMember (je_body e) @ textMember ''body_type'' (je_bodyType e) @ textMember ''body_info'' (je_bodyInfo e) @
     textMember ''body_error'' (je_bodyError e) @
     omitempty ''duration_ms'' (je_durationMS e = 0) (JNum (je_durationMS e)))"

definition jsonlText :: "json jsonl_entry list \<Rightarrow> string" where
  "jsonlText es = concat (map (\<lambda>e. jsonText (jsonlJson e) @ [newline]) es)"

lemma textMember_no_float: "list_all (\<lambda>(k, v). no_float v) (textMember name s)"
  by (simp add: textMember_def omit_no_float)

definition body_no_float :: "json jsonl_entry \<Rightarrow> bool" where
  "body_no_float e \<longleftrightarrow> (case je_body e of None \<Rightarrow> True | Some b \<Rightarrow> no_float (bodyValue b))"

lemma bodyMember_no_float: "body_no_float e \<Longrightarrow> list_all (\<lambda>(k, v). no_float v) (bodyMember (je_body e))"
  by (simp add: body_no_float_def bodyMember_def omit_no_float split: option.splits)

lemma jsonl_no_float: "body_no_float e \<Longrightarrow> no_float (jsonlJson e)"
proof -
  have "no_float (JObj (map (map_prod (\<lambda>k. k) JStr) hs))" for hs by (auto simp: list_all_iff)
  moreover assume "body_no_float e"
  ultimately show ?thesis
    by (simp add: jsonlJson_def bodyMember_no_float textMember_no_float omit_no_float del: no_float.simps(3))
      (simp add: bodyMember_no_float textMember_no_float omit_no_float)
qed

text \<open>A recording is one line per entry, whatever bytes were recorded.\<close>

lemma jsonl_lines:
  assumes "list_all body_no_float es"
  shows "textLines (jsonlText es) = map (\<lambda>e. jsonText (jsonlJson e)) es"
proof -
  have "jsonlText es = concat (map (\<lambda>a. a @ [newline]) (map (\<lambda>e. jsonText (jsonlJson e)) es))"
    by (simp add: jsonlText_def comp_def)
  then show ?thesis using textLines_concat [of "map (\<lambda>e. jsonText (jsonlJson e)) es"] jsonText_one_line jsonl_no_float assms
    by (auto simp: list_all_iff)
qed

subsection \<open>What scrubbing before parsing misses\<close>

text \<open>\<open>json.Unmarshal\<close> of a text that is one value, with nothing but white space after it. Numbers keep their
  literals; that \<open>any\<close> rounds them and sorts the members of an object is not modelled.\<close>

definition wholeJSON :: "string \<Rightarrow> json option" where
  "wholeJSON s = (case jsonValue (2 * length s + 2) s of
     Some (v, t) \<Rightarrow> if skipSpace t = [] then Some v else None | None \<Rightarrow> None)"

text \<open>A string every byte of which is spelled \<open>uXXXX\<close>; a text in which the encoder escapes nothing.\<close>

definition spelledOut :: "string \<Rightarrow> string" where
  "spelledOut v = concat (map (\<lambda>c. CHR 0x5C # ''u00'' @ [hex_char (of_char c div 16), hex_char (of_char c mod 16)]) v)"

definition writtenPlain :: "string \<Rightarrow> bool" where
  "writtenPlain v \<longleftrightarrow> list_all (\<lambda>c. of_char c < (0x80 :: nat) \<and> escapeByte c = [c]) v"

lemma readString_spelledOut: "is_ascii v \<Longrightarrow> readString (spelledOut v @ CHR 0x22 # x) = Some (v, x)"
proof (induction v)
  case (Cons c v)
  then have c: "of_char c < (0x80 :: nat)" by simp
  have "spelledOut (c # v) @ CHR 0x22 # x = CHR 0x5C # CHR ''u'' # CHR ''0'' # CHR ''0'' #
      hex_char (of_char c div 16) # hex_char (of_char c mod 16) # spelledOut v @ CHR 0x22 # x"
    by (simp add: spelledOut_def)
  then show ?case using readString_unicode [OF readEscape_ascii [OF c]] Cons by simp
qed (simp add: spelledOut_def)

lemma wholeJSON_spelledOut: "is_ascii v \<Longrightarrow> wholeJSON (CHR 0x22 # spelledOut v @ [CHR 0x22]) = Some (JStr v)"
  using readString_spelledOut [of v "[]"] by (simp add: wholeJSON_def skipSpace_def numeral_2_eq_2)

lemma escapeJSON_plain: "writtenPlain v \<Longrightarrow> escapeJSON v = v"
  by (induction v) (simp, subst escapeJSON.simps, simp add: writtenPlain_def)

lemma joined_contains: "x \<in> set xs \<Longrightarrow> str_contains x v \<Longrightarrow> str_contains (str_join sep xs) v"
proof (induction sep xs rule: str_join.induct)
  case (3 sep x' y ys)
  then consider "x = x'" | "str_contains (str_join sep (y # ys)) v" by auto
  then show ?case
  proof cases
    case 1
    then show ?thesis using 3(3) str_contains_append [of x v "[]" "sep @ str_join sep (y # ys)"] by simp
  next
    case 2
    then show ?thesis using str_contains_append [of "str_join sep (y # ys)" v "x' @ sep" "[]"] by simp
  qed
qed simp_all

lemma member_written:
  assumes "(k, v) \<in> set ms" "str_contains (jsonText v) w"
  shows "str_contains (jsonText (JObj ms)) w"
proof -
  have "str_contains (jsonString k @ '':'' @ jsonText v) w"
    using str_contains_append [OF assms(2), of "jsonString k @ '':''" "[]"] by simp
  then have "str_contains (str_join '','' (map (\<lambda>(k, v). jsonString k @ '':'' @ jsonText v) ms)) w"
    using assms(1) joined_contains [of "jsonString k @ '':'' @ jsonText v" "map (\<lambda>(k, v). jsonString k @ '':'' @ jsonText v) ms"]
    by force
  from str_contains_append [OF this, of "''{''" "''}''"] show ?thesis by simp
qed

text \<open>Scrubbing the bytes of a body is not scrubbing what the body says. For every secret of characters that
  JSON writes as they are there is a body, the string with each character spelled out, that the redactor leaves as it is
  (unless some other known value happens to occur in its hexadecimal digits) and whose line in the
  recording has the secret in clear.\<close>

theorem escaped_secret_reaches_the_file:
  assumes "cq_body c = CHR 0x22 # spelledOut v @ [CHR 0x22]" "cq_bodyType c = BodyTypeJSON" "writtenPlain v"
    and "\<not> list_ex (str_contains (cq_body c)) (knownValues sources)"
  shows "str_contains (jsonText (jsonlJson (requestEntry wholeJSON sources c requestID))) v"
proof -
  have ascii: "is_ascii v" using assms(3) by (auto simp: writtenPlain_def is_ascii_def list_all_iff)
  have "scrub (cq_body c) (knownValues sources) = cq_body c"
    using assms(4) by (intro scrub_unchanged) (auto simp: list_ex_iff)
  then have "je_body (requestEntry wholeJSON sources c requestID) = Some (JParsed (JStr v))"
    using assms(1,2) wholeJSON_spelledOut [OF ascii] by (simp add: requestEntry_def redactBytes_def formatBody_def)
  then have "bodyMember (je_body (requestEntry wholeJSON sources c requestID)) = [(''body'', JStr v)]"
    by (simp add: bodyMember_def bodyValue_def omitempty_def)
  moreover have "str_contains (jsonText (JStr v)) v"
    using escapeJSON_plain [OF assms(3)]
    by (simp add: jsonString_def str_contains_iff) (rule exI [of _ "[CHR 0x22]"], simp)
  ultimately show ?thesis unfolding jsonlJson_def by (intro member_written) auto
qed

theorem escaped_secret_reaches_the_file_witness:
  "''sk-12'' \<in> set (knownValues demo_values) \<and>
   str_contains (jsonText (jsonlJson (requestEntry wholeJSON demo_values
     (fst (captureRequest (demo_request\<lparr>rq_body := Body (CHR 0x22 # spelledOut ''sk-12'' @ [CHR 0x22]) None\<rparr>) 0)) ''''))) ''sk-12''"
proof
  show "''sk-12'' \<in> set (knownValues demo_values)" by code_simp
  let ?c = "fst (captureRequest (demo_request\<lparr>rq_body := Body (CHR 0x22 # spelledOut ''sk-12'' @ [CHR 0x22]) None\<rparr>) 0)"
  have "cq_body ?c = CHR 0x22 # spelledOut ''sk-12'' @ [CHR 0x22]" "cq_bodyType ?c = BodyTypeJSON" "writtenPlain ''sk-12''"
      "\<not> list_ex (str_contains (cq_body ?c)) (knownValues demo_values)"
    by code_simp+
  then show "str_contains (jsonText (jsonlJson (requestEntry wholeJSON demo_values ?c ''''))) ''sk-12''"
    by (rule escaped_secret_reaches_the_file)
qed

end
