(* ===== verification/Command_Output.thy ===== *)
theory Command_Output
  imports Commands Color_Handler
begin

text \<open>
  What the commands print: the version (\<open>cmd/version.go\<close>), the banners of \<open>run/banner.go\<close> and what
  \<open>examine\<close> says before and after its proxy starts. Printing is best effort and changes no state; each
  definition is the text that is written.
\<close>

subsection \<open>The version\<close>

text \<open>\<open>readVersionFile\<close> over the path of the executable and the files that can be read; the last place it
  looks is the directory the command happens to be run in.\<close>

definition versionPlaces :: "string \<Rightarrow> string list" where
  "versionPlaces exe = [filepath_join [path_dir exe, ''VERSION''], filepath_join [path_dir exe, ''..'', ''VERSION''], ''VERSION'']"

definition readVersionFile :: "go_error + string \<Rightarrow> (string \<Rightarrow> string option) \<Rightarrow> string" where
  "readVersionFile executable files = (case executable of Inl _ \<Rightarrow> ''''
   | Inr exe \<Rightarrow> (case List.map_filter files (versionPlaces exe) of [] \<Rightarrow> '''' | data # _ \<Rightarrow> trim_space data))"

definition versionLine :: "string \<Rightarrow> go_error + string \<Rightarrow> (string \<Rightarrow> string option) \<Rightarrow> string" where
  "versionLine built executable files =
     (let found = (if built = ''dev'' then readVersionFile executable files else '''') in
      ''chaperone version '' @ (if found \<noteq> '''' then found else built) @ [newline])"

text \<open>A binary built without a version, installed without a \<open>VERSION\<close> file beside or above it, reports the
  version of whatever project the directory it is run in belongs to.\<close>

lemma version_is_of_the_directory:
  assumes "files (filepath_join [path_dir exe, ''VERSION'']) = None" "files (filepath_join [path_dir exe, ''..'', ''VERSION'']) = None"
    and "files ''VERSION'' = Some data" "trim_space data \<noteq> ''''"
  shows "versionLine ''dev'' (Inr exe) files = ''chaperone version '' @ trim_space data @ [newline]"
  using assms by (simp add: versionLine_def readVersionFile_def versionPlaces_def map_filter_simps)

lemma release_version_is_fixed: "built \<noteq> ''dev'' \<Longrightarrow> versionLine built executable files = ''chaperone version '' @ built @ [newline]"
  by (simp add: versionLine_def)

subsection \<open>Banners\<close>

definition heading :: "string \<Rightarrow> string" where
  "heading title = [newline] @ cyan @ bold @ ''=== '' @ title @ '' ==='' @ reset @ [newline, newline]"

definition label :: "string \<Rightarrow> string" where
  "label name = blue @ bold @ name @ reset"

definition printRunBanner :: "string \<Rightarrow> string \<Rightarrow> string \<Rightarrow> string" where
  "printRunBanner service command logPath = heading ''Chaperone Run Mode'' @
     label ''Service:'' @ ''  '' @ service @ [newline] @
     label ''Command:'' @ ''  '' @ command @ [newline] @
     label ''Log file:'' @ '' '' @ logPath @ [newline, newline]"

definition printExamineBanner :: "string \<Rightarrow> string \<Rightarrow> bool \<Rightarrow> string \<Rightarrow> string" where
  "printExamineBanner command logPath harEnabled harPath = heading ''Chaperone Examine Mode'' @
     label ''Command:'' @ '' '' @ command @ [newline] @
     label ''Log file:'' @ '' '' @ logPath @ [newline] @
     label ''To print logs from latest run:'' @ '' tail -F /tmp/chaperone-examine.latest.log'' @ [newline, newline] @
     (if harEnabled then label ''HAR Recording:'' @ '' '' @ green @ bold @ ''ENABLED'' @ reset @ [newline] @
        label ''HAR file:'' @ '' '' @ harPath @ [newline, newline] else '''')"

text \<open>\<open>examine\<close> before its proxy starts, with a command (until the return key) and without; and after.\<close>

definition examineIntro :: "string list \<Rightarrow> string \<Rightarrow> bool \<Rightarrow> string \<Rightarrow> string" where
  "examineIntro command logPath har harPath =
     (if command \<noteq> [] then heading ''Chaperone Examine Mode'' @
        ''Chaperone will start a proxy server and launch your command.'' @ [newline] @
        ''The proxy will log all requests to help you discover authentication patterns.'' @ [newline, newline] @
        printExamineBanner (formatCommand command) logPath har harPath @
        magenta @ ''Press return to continue...'' @ reset @ [newline, newline]
      else [newline] @ ''Starting proxy server...'' @ [newline] @
        (if har then ''HAR Recording: ENABLED'' @ [newline] @ ''Output file: '' @ harPath @ [newline, newline] else ''''))"

definition examineReady :: "string list \<Rightarrow> string \<Rightarrow> string \<Rightarrow> string" where
  "examineReady command addr url = (if command \<noteq> [] then '''' else
     [newline] @ ''Proxy listening on: '' @ addr @ [newline] @
     ''Configure your application to use this as proxy'' @ [newline] @ ''Example:'' @ [newline] @
     ''  export HTTP_PROXY='' @ url @ [newline] @ ''  export HTTPS_PROXY='' @ url @ [newline, newline])"

end
