(* ===== verification/Spec2Isabelle.thy ===== *)
theory Spec2Isabelle
  imports Errors Paths Policy Service_Registry Filetrust Secrets Auth Config Grant Audit_Log Control
    Redact Capture Recorder Log Proxy_Auth Proxy_Handlers Proxy_Server Shutdown Cert_Cache Cert_Authority
    Run_Env Orchestrate Proxy_Lifecycle Color_Handler Examine Control_Client Control_Socket
    Daemon Trail Commands Log_Context Json Control_Wire Record_Text Command_Output
begin

text \<open>
  Chaperone is a local proxy that adds real credentials to the requests of a program that never
  sees them. A configuration names services (a host pattern, a credential reference, a strategy, a
  policy); the daemon terminates the TLS of connections to those hosts, checks each request against
  the policy, strips what credentials the client brought, resolves the reference and injects the
  secret. A control socket lets a client ask for further services, within bounds the operator wrote
  down; recorders keep the traffic with the secrets scrubbed.

  The theories follow the packages under \<open>src/internal\<close> and the commands under
  \<open>src/cmd/chaperone/cmd\<close>; definitions keep the names of the Go functions.

  \<^item> \<open>Prelude\<close>, \<open>Go_Strings\<close>, \<open>Go_Http\<close>: what the program uses of Go. A Go map is an association
    list without duplicate keys, whose order is the iteration order the runtime happened to
    choose; strings are byte strings; \<open>net/http\<close> headers with canonical names, base64, path
    cleaning, host-port splitting.
  \<^item> \<open>Errors\<close>: \<open>errors/errors.go\<close>, errors as values with their wrapping chain.
  \<^item> \<open>Paths\<close>, \<open>Policy\<close>, \<open>Service_Registry\<close>: package \<open>service\<close>. Path patterns and their containment
    (\<open>pathmatch.go\<close>, \<open>urlpattern.go\<close>), the enforcer's checks and the narrowing order
    (\<open>policy_enforcer.go\<close>, \<open>narrow.go\<close>), the registry (\<open>registry_impl.go\<close>), refined to a partial
    map. The locale \<open>service_store\<close> is the interface its clients rely on.
  \<^item> \<open>Filetrust\<close>, \<open>Secrets\<close>: the check on an opened file; providers, the scheme table and the
    caching registry. The operating system (environment, files, the \<open>security\<close> command) is the
    record \<open>os\<close>, an argument. The locale \<open>secret_source\<close> is the provider interface.
  \<^item> \<open>Auth\<close>: header injection and the strategies; the locale \<open>auth_strategy\<close> is their interface.
  \<^item> \<open>Config\<close>: validation (a panic is the value \<open>Panicked\<close>), defaults and the expansion of
    variables. The TOML decoder and the certificate pool are arguments.
  \<^item> \<open>Grant\<close>, \<open>Audit_Log\<close>, \<open>Control\<close>: what may be granted, the audit trail, and the control server
    down to its routes. The JSON decoders are the record \<open>decoders\<close>, an argument there. The inductive
    relation \<open>control_reachable\<close> is every sequence of requests a client can send.
  \<^item> \<open>Control_Socket\<close>, \<open>Control_Client\<close>: the claim of the socket path in steps, so that the starts of
    several daemons interleave (relation \<open>daemons\<close>), and the client with the tools of the MCP server
    (\<open>mcpgrants/server.go\<close>); \<open>agent_run\<close> is every sequence of tool calls. JSON is the record
    \<open>codec\<close>, an argument there.
  \<^item> \<open>Json\<close>: what the program uses of \<open>encoding/json\<close>, byte by byte: UTF-8, the text of a value and its
    indented form, and a reader, which finds in a text the value it was written from. \<open>Control_Wire\<close>:
    the wire types of \<open>control/protocol.go\<close> with their tags, the strict decoder of the server and the
    lenient one of the client, which give the records \<open>decoders\<close> and \<open>codec\<close>. \<open>Record_Text\<close>: what the
    audit log, the HAR archive and the JSON lines are on disk.
  \<^item> \<open>Redact\<close>, \<open>Capture\<close>, \<open>Recorder\<close>, \<open>Log\<close>: scrubbing, capturing bodies without losing them, the two
    recorders, sensitive log arguments.
  \<^item> \<open>Color_Handler\<close>: both \<open>slog\<close> handlers of \<open>log/color_handler.go\<close> byte by byte, \<open>Setup\<close> and the log
    calls; a reader of logfmt lines and a terminal that follows escape sequences say what the
    output means. \<open>Log_Context\<close>: request identifiers and the context that tags the lines of a request.
  \<^item> \<open>Examine\<close>: the header filter, the discoveries and the report of package \<open>examine\<close>; the relation
    \<open>session\<close> is every sequence of requests shown to a logger.
  \<^item> \<open>Proxy_Auth\<close>, \<open>Proxy_Handlers\<close>, \<open>Proxy_Server\<close>: the handlers of package \<open>proxy\<close> on the record
    \<open>flow\<close> (one request, the metadata of its connection, registries, audit log and recorder) and
    the order in which \<open>server.go\<close> registers them. What \<open>goproxy\<close> does with registered handlers is
    the parameter \<open>goproxy\<close>, with its documented behaviour as the hypothesis \<open>goproxy_ok\<close>, which
    \<open>demo_goproxy\<close> satisfies. The inductive relation \<open>tunnel_state\<close> is the life of one intercepted
    connection.

  \<^item> \<open>Proxy_Lifecycle\<close>: the constructors of the proxy server, its transport and its starts and
    stops, as the inductive relation \<open>server_life\<close>.
  \<^item> \<open>Shutdown\<close>: the shutdown manager; a registered function is what it does to the world and how
    it ends (an error, a panic, or not at all).
  \<^item> \<open>Cert_Cache\<close>: the single-flight cache, in steps of concurrent calls (\<open>callStep\<close>) between two
    lock regions; \<open>cert_run\<close> is every interleaving. \<open>File_System\<close>, \<open>Cert_Authority\<close>: the files of
    the authority, with their modes; X.509 is the record \<open>pki\<close>, an argument.
  \<^item> \<open>Run_Env\<close>: the environment of the child, env files, spawning and waiting.
  \<^item> \<open>Orchestrate\<close>: the setup of the daemon from its configuration.
  \<^item> \<open>Daemon\<close>: the start helpers (\<open>orchestrate/helpers.go\<close>) and the running daemon, where the parts meet:
    proxy and control plane share one registry, \<open>handled\<close> is a request whose handlers are
    interleaved with control requests, \<open>daemon_run\<close> every life of the daemon. \<open>Trail\<close> shows over
    these that each refusal and each injection is on the audit log (\<open>tells\<close> is what every handler
    keeps: a handler that answers on its own has written the refusal).
  \<^item> \<open>Commands\<close>: the commands \<open>inject\<close>, \<open>run\<close>, \<open>examine\<close> and \<open>check\<close> as functions on the record
    \<open>run_session\<close> (files, control socket, registered hooks, server) over the record \<open>machine\<close>; each
    early return is a result, and what it leaves behind is the session. \<open>Command_Output\<close>: the version,
    the banners and what \<open>examine\<close> prints.

  What the lemmas show, by group: the matcher, the narrowing check and the registry agree with
  their abstract readings exactly; a client of the control socket can only reach services the
  operator approved, whatever it sends; the pipeline injects a credential only past every gate and
  does inject past them, and never forwards the client's own; in the composed daemon no credential
  outside the configuration is ever added, under any interleaving, while the scope of a grant is
  enforced only for requests no grant interferes with; recordings contain no known secret
  that is spelled as it is; what is sent over the control socket or written to a log is read back from
  its bytes; failures are values, and each is followed to the response, the log or the audit entry it causes.
  Properties that state a defect of the code are proved like the others, on a concrete input or
  for every input of the kind.

  Almost every recursion is structural or has a termination proof (\<open>replaceAll\<close>, \<open>expandVars\<close>,
  \<open>matchPattern\<close>). The logfmt reader, which is part of the specification and not of the program,
  takes the length of the line as fuel: every step consumes a byte. The JSON reader takes twice the
  length of the text: every second call consumes a byte (\<open>enough_fuel\<close>). Concurrency: each operation
  under a mutex is one step, and so is each handler of a request; interleavings are sequences of
  steps.

  Not modelled: TLS, X.509, TOML and the HTTP transport (library code), the rounding of the numbers of recorded
  JSON bodies (parsing them is the argument \<open>parse\<close>), the nesting limit of the JSON decoder, the parsing
  of flags by Cobra, some printed hints, the link to the latest log file, the waiting for
  signals, and the helpers of the tests. The time a shutdown function takes is modelled in
  \<open>Shutdown\<close> only; in \<open>Commands\<close> the functions return at once.
\<close>

end
